(* ===== verification/Prelude.thy ===== *)
theory Prelude
  imports Main
begin

text \<open>
  Shared ground of the development: Python strings as lists of code points, decimal rendering,
  the SQL table primitives every repository function of \<^verbatim>\<open>src/src/bayram/db\<close> is written with
  (select one row, update where, insert or ignore on conflict), and the transaction layer
  (an operation returns an exception or a value with the new database; an exception rolls back).
\<close>

named_theorems sql_simps \<open>equations for lookups and row counts after a table operation\<close>
named_theorems drift_simps \<open>how an operation moves the balance, the ledger total and their difference\<close>
named_theorems tx_elims \<open>how a successful transaction step came about\<close>

section \<open>Strings\<close>

text \<open>A Python \<^verbatim>\<open>str\<close> is a sequence of Unicode code points; an UUID is its canonical text.\<close>

type_synonym pystr = "nat list"
type_synonym uuid = pystr

text \<open>A moment is an aware UTC \<^verbatim>\<open>datetime\<close>: microseconds since the Unix epoch.\<close>

type_synonym instant = int

definition ustr :: "string \<Rightarrow> pystr" where
  "ustr s = map of_char s"

lemma ustr_Nil [simp]: "ustr [] = []"
  and ustr_Cons [simp]: "ustr (c # cs) = of_char c # ustr cs"
  by (simp_all add: ustr_def)

lemma length_ustr [simp]: "length (ustr s) = length s"
  by (simp add: ustr_def)

text \<open>Decimal rendering, as \<^verbatim>\<open>str\<close> and f-strings do it.\<close>

fun str_nat :: "nat \<Rightarrow> pystr" where
  "str_nat n = (if n < 10 then [48 + n] else str_nat (n div 10) @ [48 + n mod 10])"

declare str_nat.simps [simp del]

definition str_int :: "int \<Rightarrow> pystr" where
  "str_int i = (if i < 0 then 45 # str_nat (nat (- i)) else str_nat (nat i))"

definition read_digits :: "pystr \<Rightarrow> nat" where
  "read_digits = foldl (\<lambda>acc d. 10 * acc + (d - 48)) 0"

definition read_int :: "pystr \<Rightarrow> int" where
  "read_int s = (case s of c # cs \<Rightarrow> if c = 45 then - int (read_digits cs) else int (read_digits s) | [] \<Rightarrow> 0)"

lemma read_digits_snoc [simp]: "read_digits (ds @ [d]) = 10 * read_digits ds + (d - 48)"
  by (simp add: read_digits_def)

lemma read_str_nat: "read_digits (str_nat n) = n"
proof (induction n rule: str_nat.induct)
  case (1 n)
  show ?case
  proof (cases "n < 10")
    case True
    then show ?thesis by (simp add: str_nat.simps [of n] read_digits_def)
  next
    case False
    with 1 show ?thesis by (simp add: str_nat.simps [of n])
  qed
qed

lemma str_nat_digits: "d \<in> set (str_nat n) \<Longrightarrow> 48 \<le> d \<and> d \<le> 57"
proof (induction n rule: str_nat.induct)
  case (1 n)
  then show ?case by (cases "n < 10") (auto simp: str_nat.simps [of n])
qed

lemma str_nat_not_Nil [simp]: "str_nat n \<noteq> []"
  by (subst str_nat.simps) simp

lemma str_nat_no_minus: "str_nat n = c # cs \<Longrightarrow> c \<noteq> 45"
  using str_nat_digits [of c n] by auto

lemma read_str_int: "read_int (str_int i) = i"
proof (cases "i < 0")
  case True
  then show ?thesis by (simp add: str_int_def read_int_def read_str_nat)
next
  case False
  obtain c cs where cs: "str_nat (nat i) = c # cs"
    by (cases "str_nat (nat i)") auto
  from str_nat_no_minus [OF cs] read_str_nat [of "nat i"] cs False show ?thesis
    by (simp add: str_int_def read_int_def)
qed

lemma str_int_eq_iff [simp]: "str_int i = str_int j \<longleftrightarrow> i = j"
  by (metis read_str_int)

lemma str_int_no_colon: "58 \<notin> set (str_int i)"
  using str_nat_digits [of 58 "nat i"] str_nat_digits [of 58 "nat (- i)"]
  by (auto simp: str_int_def)

lemma append_colon_eq_iff:
  "(58 :: nat) \<notin> set xs \<Longrightarrow> 58 \<notin> set ys \<Longrightarrow>
   xs @ 58 # zs = ys @ 58 # ws \<longleftrightarrow> xs = ys \<and> zs = ws"
proof (induction xs arbitrary: ys)
  case Nil
  then show ?case by (cases ys) auto
next
  case (Cons x xs)
  then show ?case by (cases ys) auto
qed

section \<open>SQL tables\<close>

text \<open>
  A table is the list of its rows. \<open>select_one\<close> is \<^verbatim>\<open>scalar_one_or_none\<close> on a column the schema
  declares unique; \<open>sql_update\<close> is \<^verbatim>\<open>UPDATE ... SET f WHERE p\<close> and \<open>rowcount\<close> the number of rows
  its \<^verbatim>\<open>WHERE\<close> matched, which is what the code calls its lock.
\<close>

definition select_one :: "('r \<Rightarrow> 'k) \<Rightarrow> 'k \<Rightarrow> 'r list \<Rightarrow> 'r option" where
  "select_one k v rows = find (\<lambda>r. k r = v) rows"

definition sql_update :: "('r \<Rightarrow> bool) \<Rightarrow> ('r \<Rightarrow> 'r) \<Rightarrow> 'r list \<Rightarrow> 'r list" where
  "sql_update p f rows = map (\<lambda>r. if p r then f r else r) rows"

definition rowcount :: "('r \<Rightarrow> bool) \<Rightarrow> 'r list \<Rightarrow> nat" where
  "rowcount p rows = length (filter p rows)"

text \<open>\<^verbatim>\<open>ORDER BY k DESC LIMIT 1\<close> and \<^verbatim>\<open>ORDER BY k ASC LIMIT n\<close>.\<close>

definition first_desc :: "('r \<Rightarrow> int) \<Rightarrow> 'r list \<Rightarrow> 'r option" where
  "first_desc k rows = (case sort_key (\<lambda>r. - k r) rows of [] \<Rightarrow> None | r # _ \<Rightarrow> Some r)"

definition limit_asc :: "('r \<Rightarrow> int) \<Rightarrow> nat \<Rightarrow> 'r list \<Rightarrow> 'r list" where
  "limit_asc k n rows = take n (sort_key k rows)"

lemma select_one_Nil [simp]: "select_one k v [] = None"
  by (simp add: select_one_def)

lemma select_one_Cons [simp]:
  "select_one k v (r # rs) = (if k r = v then Some r else select_one k v rs)"
  by (simp add: select_one_def)

lemma select_one_append [sql_simps]:
  "select_one k v (rs @ ss) = (case select_one k v rs of None \<Rightarrow> select_one k v ss | Some r \<Rightarrow> Some r)"
  by (induction rs) simp_all

lemma select_one_SomeD: "select_one k v rows = Some r \<Longrightarrow> r \<in> set rows \<and> k r = v"
  by (induction rows) (auto split: if_splits)

lemma select_one_None_iff: "select_one k v rows = None \<longleftrightarrow> (\<forall>r \<in> set rows. k r \<noteq> v)"
  by (induction rows) auto

lemma select_one_None_notin: "select_one k v rows = None \<longleftrightarrow> v \<notin> k ` set rows"
  by (induction rows) auto

lemma select_one_unique:
  "distinct (map k rows) \<Longrightarrow> select_one k v rows = Some r \<longleftrightarrow> r \<in> set rows \<and> k r = v"
proof (induction rows)
  case Nil
  then show ?case by simp
next
  case (Cons a rows)
  then show ?case by (auto simp: image_iff)
qed

lemma select_one_self:
  "distinct (map k rows) \<Longrightarrow> r \<in> set rows \<Longrightarrow> select_one k (k r) rows = Some r"
  by (simp add: select_one_unique)

lemma select_one_update [sql_simps]:
  assumes "\<And>r. k (f r) = k r"
  shows "select_one k v (sql_update p f rows)
    = map_option (\<lambda>r. if p r then f r else r) (select_one k v rows)"
  using assms by (induction rows) (auto simp: sql_update_def)

lemma map_key_update [simp]: "(\<And>r. k (f r) = k r) \<Longrightarrow> map k (sql_update p f rows) = map k rows"
  by (simp add: sql_update_def)

lemma set_sql_update: "set (sql_update p f rows) = (\<lambda>r. if p r then f r else r) ` set rows"
  by (simp add: sql_update_def)

lemma length_sql_update [simp]: "length (sql_update p f rows) = length rows"
  by (simp add: sql_update_def)

lemma sql_update_none: "(\<And>r. r \<in> set rows \<Longrightarrow> \<not> p r) \<Longrightarrow> sql_update p f rows = rows"
  by (simp add: sql_update_def map_idI)

lemma rowcount_0_iff: "rowcount p rows = 0 \<longleftrightarrow> (\<forall>r \<in> set rows. \<not> p r)"
  by (simp add: rowcount_def filter_empty_conv)

lemma rowcount_key [sql_simps]:
  "distinct (map k rows) \<Longrightarrow> rowcount (\<lambda>r. k r = v \<and> q r) rows
    = (case select_one k v rows of None \<Rightarrow> 0 | Some r \<Rightarrow> if q r then 1 else 0)"
proof (induction rows)
  case Nil
  then show ?case by (simp add: rowcount_def)
next
  case (Cons a rows)
  then have "k a = v \<Longrightarrow> filter (\<lambda>r. k r = v \<and> q r) rows = []"
    by (auto simp: filter_empty_conv image_iff)
  with Cons show ?case
    by (cases "k a = v") (simp_all add: rowcount_def)
qed

lemma rowcount_key_only [sql_simps]:
  "distinct (map k rows) \<Longrightarrow> rowcount (\<lambda>r. k r = v) rows
    = (case select_one k v rows of None \<Rightarrow> 0 | Some r \<Rightarrow> 1)"
  using rowcount_key [of k rows v "\<lambda>_. True"] by simp

lemma first_desc_SomeD: "first_desc k rows = Some r \<Longrightarrow> r \<in> set rows"
  by (auto simp: first_desc_def split: list.splits) (metis list.set_intros(1) set_sort)

lemma first_desc_None_iff [simp]: "first_desc k rows = None \<longleftrightarrow> rows = []"
  by (auto simp: first_desc_def split: list.splits) (metis set_empty set_sort)

lemma first_desc_max: "first_desc k rows = Some r \<Longrightarrow> s \<in> set rows \<Longrightarrow> k s \<le> k r"
proof -
  assume r: "first_desc k rows = Some r" and s: "s \<in> set rows"
  from r obtain rest where srt: "sort_key (\<lambda>r. - k r) rows = r # rest"
    by (auto simp: first_desc_def split: list.splits)
  have "sorted (map (\<lambda>r. - k r) (r # rest))"
    using sorted_sort_key [of "\<lambda>r. - k r" rows] srt by simp
  moreover have "s \<in> set (r # rest)" using s srt by (metis set_sort)
  ultimately show ?thesis by auto
qed

lemma set_limit_asc: "set (limit_asc k n rows) \<subseteq> set rows"
  unfolding limit_asc_def using set_take_subset by fastforce

lemma length_limit_asc: "length (limit_asc k n rows) \<le> n"
  by (simp add: limit_asc_def)

section \<open>Sums over a table\<close>

lemma sum_list_update_shift:
  fixes g :: "'r \<Rightarrow> int"
  assumes "\<And>r. g (f r) = g r"
  shows "sum_list (map g (sql_update p f rows)) = sum_list (map g rows)"
  using assms by (induction rows) (auto simp: sql_update_def)

lemma sum_list_all_0: "(\<And>r. r \<in> set rows \<Longrightarrow> g r = (0::int)) \<Longrightarrow> sum_list (map g rows) = 0"
  by (induction rows) auto

section \<open>Errors and transactions\<close>

text \<open>
  The exceptions the modelled code raises (\<^verbatim>\<open>errors.py\<close>, \<^verbatim>\<open>entitlements.py\<close>, \<^verbatim>\<open>payme/errors.py\<close>),
  each with its operator message; the Payme faults also carry their JSON-RPC code and, for the
  account family, the account subfield name.
\<close>

datatype bayram_error =
    StorageError string
  | ValidationError string
  | NotFoundError string
  | PaymentError string
  | EntitlementError string
  | InsufficientCreditsError int int instant
  | TooManyOrdersInFlightError int int
  | PaymeAmountMismatch string
  | PaymeTransactionNotFound string
  | PaymeOrderDelivered string
  | PaymeStateRefusal string int
  | PaymeAccountFault string int pystr

fun operator_message :: "bayram_error \<Rightarrow> string" where
  "operator_message (StorageError m) = m"
| "operator_message (ValidationError m) = m"
| "operator_message (NotFoundError m) = m"
| "operator_message (PaymentError m) = m"
| "operator_message (EntitlementError m) = m"
| "operator_message (InsufficientCreditsError _ _ _) = ''account cannot afford this render''"
| "operator_message (TooManyOrdersInFlightError _ _) = ''account already has an unsettled render''"
| "operator_message (PaymeAmountMismatch m) = m"
| "operator_message (PaymeTransactionNotFound m) = m"
| "operator_message (PaymeOrderDelivered m) = m"
| "operator_message (PaymeStateRefusal m _) = m"
| "operator_message (PaymeAccountFault m _ _) = m"

text \<open>What can escape a session block: one of ours, or the database's constraint violation.\<close>

datatype exn = Raised bayram_error | IntegrityError

type_synonym ('s, 'a) outcome = "exn + 'a \<times> 's"

definition tx_then :: "('s, 'a) outcome \<Rightarrow> ('a \<Rightarrow> 's \<Rightarrow> ('s, 'b) outcome) \<Rightarrow> ('s, 'b) outcome" where
  "tx_then r k = (case r of Inl e \<Rightarrow> Inl e | Inr (a, s) \<Rightarrow> k a s)"

lemma tx_then_Inl [simp]: "tx_then (Inl e) k = Inl e"
  and tx_then_Inr [simp]: "tx_then (Inr (a, s)) k = k a s"
  by (simp_all add: tx_then_def)

lemma tx_then_eq_Inr: "tx_then r k = Inr x \<longleftrightarrow> (\<exists>a s. r = Inr (a, s) \<and> k a s = Inr x)"
  by (auto simp: tx_then_def split: sum.splits)

lemma tx_thenE [tx_elims]:
  assumes "tx_then r k = Inr x"
  obtains a s where "r = Inr (a, s)" "k a s = Inr x"
  using assms by (auto simp: tx_then_eq_Inr)

text \<open>
  \<^verbatim>\<open>async with sessions.begin()\<close> inside \<^verbatim>\<open>run_guarded\<close> (\<^verbatim>\<open>db/guard.py\<close>): the block commits when it
  returns and rolls back when it raises; a constraint violation is reported as a storage error.
  The block's value is itself a sum because two handlers commit first and refuse afterwards.
\<close>

definition run_guarded ::
    "string \<Rightarrow> ('s \<Rightarrow> ('s, bayram_error + 'a) outcome) \<Rightarrow> 's \<Rightarrow> 's \<times> (bayram_error + 'a)" where
  "run_guarded operation block s =
     (case block s of
        Inl (Raised e) \<Rightarrow> (s, Inl e)
      | Inl IntegrityError \<Rightarrow> (s, Inl (StorageError (operation @ '' violated a database constraint'')))
      | Inr (v, s') \<Rightarrow> (s', v))"

definition returning :: "('s, 'a) outcome \<Rightarrow> ('s, bayram_error + 'a) outcome" where
  "returning r = tx_then r (\<lambda>a s. Inr (Inr a, s))"

lemma returning_Inr [simp]: "returning (Inr (a, s)) = Inr (Inr a, s)"
  and returning_Inl [simp]: "returning (Inl e) = Inl e"
  by (simp_all add: returning_def)

lemma returning_eq_Inr: "returning r = Inr (v, s) \<longleftrightarrow> (\<exists>a. v = Inr a \<and> r = Inr (a, s))"
  by (cases r) (auto simp: returning_def)

lemma run_guarded_cases:
  assumes "run_guarded op block s = (s', v)"
  shows "(\<exists>w. block s = Inr (w, s') \<and> v = w) \<or> (s' = s \<and> (\<exists>e. v = Inl e) \<and> (\<exists>x. block s = Inl x))"
  using assms by (auto simp: run_guarded_def split: sum.splits exn.splits)

lemma run_guarded_returning_Inr:
  "run_guarded op (\<lambda>s. returning (f s)) s = (s', Inr a) \<longleftrightarrow> f s = Inr (a, s')"
  by (cases "f s") (auto simp: run_guarded_def split: exn.splits)

lemma run_guarded_returning_Inl:
  "run_guarded op (\<lambda>s. returning (f s)) s = (s', Inl e) \<Longrightarrow> s' = s"
  by (cases "f s") (auto simp: run_guarded_def split: exn.splits)

text \<open>
  A predicate on the database that a guarded block keeps whenever it commits is kept by the
  guarded operation: a refusal inside the block leaves the database untouched.
\<close>

lemma run_guarded_keeps:
  assumes "run_guarded op block s = (s', v)" and "P s"
    and "\<And>w t. block s = Inr (w, t) \<Longrightarrow> P t"
  shows "P s'"
  using run_guarded_cases [OF assms(1)] assms(2,3) by auto

end
