(* ===== verification/Db_Tables.thy ===== *)
theory Db_Tables
  imports Prelude
begin

text \<open>
  The rows of \<^verbatim>\<open>src/src/bayram/db/models\<close> that the credit ledger, the sales, the Payme rail, the
  broadcasts and the support desk read or write, and the database as a record of tables. A nullable column is an option.
  The random surrogate primary keys of the ledger, top-up, body, membership and call-log rows are left out:
  no modelled statement reads them. Identifiers that are read (plans, intents, transactions,
  orders) are kept, and a fresh one is an argument of the operation that inserts the row.
\<close>

section \<open>Enumerations (\<^verbatim>\<open>db/enums.py\<close>, \<^verbatim>\<open>contracts.py\<close>)\<close>

datatype credit_entry_kind = GRANT | DEBIT | REFUND | CONSUME

datatype credit_reason =
    SIGNUP_ALLOWANCE | PERIOD_ALLOWANCE | ADMIN_GRANT | ORDER_RENDER | ORDER_FAILED
  | ORDER_DELIVERED | ORDER_NOT_DELIVERED | STALE_SETTLEMENT | UNENFORCED_RENDER
  | TOPUP_PURCHASE | PLAN_SONG

datatype language = UZ_LATN | UZ_CYRL | RU | EN

datatype order_state = DRAFT | BRIEF_READY | LYRICS_READY | AUTHORIZED | GENERATING
  | DELIVERED | FAILED | CANCELLED

datatype product = SINGLE | STARTER

datatype plan_kind = PlanKind_STARTER

datatype topup_kind = TopupKind_SINGLE

datatype payment_intent_state =
    Intent_PENDING | Intent_AWAITING | Intent_PAID | Intent_CANCELLED | Intent_EXPIRED

datatype payme_state =
    Payme_CREATED | Payme_PERFORMED | Payme_CANCELLED | Payme_CANCELLED_AFTER_PERFORM

datatype bot_membership_event = Event_BLOCKED | Event_UNBLOCKED

datatype bot_block_source = MEMBERSHIP_UPDATE | DELIVERY_REFUSAL

datatype broadcast_kind = SERVICE | MARKETING

datatype broadcast_state =
    Campaign_DRAFT | Campaign_EXPANDING | Campaign_READY | Campaign_SENDING | Campaign_PAUSED
  | Campaign_COMPLETED | Campaign_CANCELLED | Campaign_FAILED

datatype broadcast_recipient_state =
    Recipient_PENDING | Recipient_SENDING | Recipient_SENT | Recipient_FAILED
  | Recipient_SKIPPED_BLOCKED | Recipient_UNDELIVERABLE | Recipient_UNKNOWN

datatype audit_reason_code =
    CUSTOMER_REQUEST | GDPR_ERASURE | ABUSE_REPORT | SUPPORT_INVESTIGATION | INCIDENT | BAKE_OFF
  | ROUTINE_OPS | OTHER_REASON

datatype support_ticket_status = Ticket_NEW | Ticket_IN_PROGRESS | Ticket_WAITING | Ticket_RESOLVED

datatype support_ticket_source = DELIVERY_BUTTON | SUPPORT_COMMAND

datatype support_ticket_event_kind =
    Ticket_OPENED | Ticket_DESCRIBED | Ticket_STATUS_CHANGE | Ticket_NOTE | Ticket_REPLY
  | Ticket_ASSIGNED | Ticket_GROUP_POSTED

datatype support_author_kind = CUSTOMER | OPERATOR | STAFF_GROUP | SYSTEM

datatype admin_role = Role_OWNER | Role_ADMIN | Role_SUPPORT | Role_VIEWER

section \<open>Rows\<close>

record credit_account_row =
  ac_telegram_user_id :: int
  ac_balance :: int
  ac_lifetime_granted :: int
  ac_allowance_period_index :: "int option"
  ac_created_at :: instant
  ac_updated_at :: instant

record credit_ledger_row =
  cl_telegram_user_id :: "int option"
  cl_kind :: credit_entry_kind
  cl_reason :: credit_reason
  cl_delta :: int
  cl_order_id :: "uuid option"
  cl_generation :: nat
  cl_idempotency_key :: pystr
  cl_actor :: pystr
  cl_created_at :: instant

record plan_purchase_row =
  pp_id :: uuid
  pp_telegram_user_id :: "int option"
  pp_plan :: plan_kind
  pp_songs_included :: int
  pp_songs_used :: int
  pp_amount_minor :: int
  pp_currency :: pystr
  pp_provider :: pystr
  pp_reference :: pystr
  pp_idempotency_key :: pystr
  pp_plan_ends_at :: instant
  pp_created_at :: instant
  pp_updated_at :: instant

record topup_purchase_row =
  tp_telegram_user_id :: "int option"
  tp_product :: topup_kind
  tp_credits_granted :: int
  tp_amount_minor :: int
  tp_currency :: pystr
  tp_provider :: pystr
  tp_reference :: pystr
  tp_idempotency_key :: pystr
  tp_created_at :: instant

record user_row =
  us_id :: uuid
  us_telegram_user_id :: int
  us_ui_language :: language
  us_is_blocked :: bool
  us_last_seen_at :: instant
  us_blocked_bot_at :: "instant option"
  us_created_at :: instant
  us_updated_at :: instant

record order_row =
  or_id :: uuid
  or_telegram_user_id :: int
  or_state :: order_state
  or_updated_at :: instant

record payment_intent_row =
  pi_id :: uuid
  pi_public_ref :: pystr
  pi_idempotency_key :: pystr
  pi_telegram_user_id :: "int option"
  pi_product :: product
  pi_amount_minor :: int
  pi_currency :: pystr
  pi_plan_songs :: "int option"
  pi_plan_days :: "int option"
  pi_provider :: pystr
  pi_merchant_id :: pystr
  pi_is_sandbox :: bool
  pi_language :: pystr
  pi_state :: payment_intent_state
  pi_active_transaction_id :: "uuid option"
  pi_valid_until :: instant
  pi_settled_at :: "instant option"
  pi_notified_at :: "instant option"
  pi_settle_note :: "pystr option"
  pi_resume_order_id :: "uuid option"
  pi_resumed_at :: "instant option"
  pi_created_at :: instant
  pi_updated_at :: instant

record payme_transaction_row =
  pt_id :: uuid
  pt_payme_transaction_id :: pystr
  pt_intent_id :: uuid
  pt_payme_time :: instant
  pt_amount_minor :: int
  pt_state :: payme_state
  pt_cancel_reason :: "int option"
  pt_create_time :: instant
  pt_perform_time :: "instant option"
  pt_cancel_time :: "instant option"
  pt_created_at :: instant
  pt_updated_at :: instant

record payme_rpc_log_row =
  rl_at :: instant
  rl_method :: pystr
  rl_payme_transaction_id :: "pystr option"
  rl_public_ref :: "pystr option"
  rl_reply_code :: int
  rl_peer_ip :: "pystr option"
  rl_duration_ms :: int

record bot_membership_event_row =
  me_telegram_user_id :: "int option"
  me_event :: bot_membership_event
  me_source :: bot_block_source
  me_at :: instant

text \<open>
  The frozen audience's document is kept as the text it is stored as: only the compiled predicate is
  ever asked of it. The expansion cursor is kept as the position its token stands for.
\<close>

record broadcast_row =
  bc_id :: uuid
  bc_title :: pystr
  bc_kind :: broadcast_kind
  bc_state :: broadcast_state
  bc_segment :: pystr
  bc_segment_hash :: pystr
  bc_audience_size :: int
  bc_audience_evaluated_at :: instant
  bc_expand_cursor :: "(instant \<times> uuid) option"
  bc_scheduled_for :: "instant option"
  bc_started_at :: "instant option"
  bc_finished_at :: "instant option"
  bc_recipient_count :: int
  bc_sent_count :: int
  bc_failed_count :: int
  bc_skipped_count :: int
  bc_undeliverable_count :: int
  bc_unknown_count :: int
  bc_created_by_admin_id :: "uuid option"
  bc_created_by_username :: "pystr option"
  bc_scheduled_by_admin_id :: "uuid option"
  bc_scheduled_by_username :: "pystr option"
  bc_reason_code :: "audit_reason_code option"
  bc_reason_ref :: "pystr option"
  bc_error_code :: "pystr option"
  bc_created_at :: instant
  bc_updated_at :: instant

record broadcast_body_row =
  bb_broadcast_id :: uuid
  bb_language :: language
  bb_text :: pystr
  bb_media_storage_key :: "pystr option"
  bb_media_file_id :: "pystr option"
  bb_button_label :: "pystr option"
  bb_button_url :: "pystr option"
  bb_created_at :: instant
  bb_updated_at :: instant

record broadcast_recipient_row =
  br_id :: uuid
  br_broadcast_id :: uuid
  br_telegram_user_id :: "int option"
  br_language :: language
  br_state :: broadcast_recipient_state
  br_attempts :: int
  br_error_code :: "pystr option"
  br_settled_at :: "instant option"
  br_created_at :: instant
  br_updated_at :: instant

record support_ticket_row =
  st_id :: uuid
  st_public_ref :: pystr
  st_telegram_user_id :: int
  st_language :: language
  st_source :: support_ticket_source
  st_order_id :: "uuid option"
  st_status :: support_ticket_status
  st_body :: "pystr option"
  st_prompt_message_id :: "int option"
  st_described_at :: "instant option"
  st_assigned_admin_username :: "pystr option"
  st_assigned_at :: "instant option"
  st_group_chat_id :: "int option"
  st_group_message_id :: "int option"
  st_group_posted_at :: "instant option"
  st_resolved_at :: "instant option"
  st_created_at :: instant
  st_updated_at :: instant

record support_ticket_event_row =
  se_id :: uuid
  se_ticket_id :: uuid
  se_kind :: support_ticket_event_kind
  se_author_kind :: support_author_kind
  se_author_admin_username :: "pystr option"
  se_author_telegram_user_id :: "int option"
  se_author_display_name :: "pystr option"
  se_from_status :: "support_ticket_status option"
  se_to_status :: "support_ticket_status option"
  se_body :: "pystr option"
  se_relayed_at :: "instant option"
  se_created_at :: instant

record admin_user_row =
  au_id :: uuid
  au_username :: pystr
  au_password_hash :: pystr
  au_role :: admin_role
  au_is_active :: bool
  au_must_change_password :: bool
  au_password_changed_at :: instant
  au_last_login_at :: "instant option"
  au_created_at :: instant
  au_updated_at :: instant

section \<open>The database\<close>

record db =
  accounts :: "credit_account_row list"
  ledger :: "credit_ledger_row list"
  plans :: "plan_purchase_row list"
  topups :: "topup_purchase_row list"
  users :: "user_row list"
  orders :: "order_row list"
  intents :: "payment_intent_row list"
  transactions :: "payme_transaction_row list"
  rpc_log :: "payme_rpc_log_row list"
  membership_events :: "bot_membership_event_row list"
  broadcasts :: "broadcast_row list"
  broadcast_bodies :: "broadcast_body_row list"
  recipients :: "broadcast_recipient_row list"
  tickets :: "support_ticket_row list"
  ticket_events :: "support_ticket_event_row list"
  admin_users :: "admin_user_row list"

definition empty_db :: db where
  "empty_db = \<lparr>accounts = [], ledger = [], plans = [], topups = [], users = [], orders = [],
     intents = [], transactions = [], rpc_log = [], membership_events = [], broadcasts = [], broadcast_bodies = [], recipients = [],
     tickets = [], ticket_events = [], admin_users = []\<rparr>"

section \<open>The tables' CHECK constraints\<close>

definition delta_matches_kind :: "credit_ledger_row \<Rightarrow> bool" where
  "delta_matches_kind r =
     (case cl_kind r of
        GRANT \<Rightarrow> cl_delta r > 0
      | REFUND \<Rightarrow> cl_delta r > 0
      | DEBIT \<Rightarrow> cl_delta r < 0
      | CONSUME \<Rightarrow> cl_delta r = 0)"

definition balance_not_negative :: "credit_account_row \<Rightarrow> bool" where
  "balance_not_negative a = (ac_balance a \<ge> 0)"

definition plan_checks :: "plan_purchase_row \<Rightarrow> bool" where
  "plan_checks p = (0 \<le> pp_songs_used p \<and> pp_songs_used p \<le> pp_songs_included p
     \<and> pp_songs_included p > 0)"

definition topup_checks :: "topup_purchase_row \<Rightarrow> bool" where
  "topup_checks t = (tp_credits_granted t > 0 \<and> tp_amount_minor t \<ge> 0)"

definition intent_checks :: "payment_intent_row \<Rightarrow> bool" where
  "intent_checks i = (pi_amount_minor i \<ge> 0
     \<and> (pi_product i = STARTER \<longrightarrow> pi_plan_songs i \<noteq> None \<and> pi_plan_days i \<noteq> None)
     \<and> (pi_state i = Intent_AWAITING \<longrightarrow> pi_active_transaction_id i \<noteq> None))"

definition transaction_checks :: "payme_transaction_row \<Rightarrow> bool" where
  "transaction_checks t = (pt_amount_minor t \<ge> 0)"

section \<open>Insert, ignoring a conflict on one unique column\<close>

text \<open>
  \<^verbatim>\<open>insert_or_ignore\<close> (\<^verbatim>\<open>db/credit_sql.py\<close>): the new row is checked first, then a row with the same
  value in the arbiter column makes the insert a no-op that reports \<open>False\<close>; a clash in another
  unique column is a constraint violation.
\<close>

definition insert_or_ignore ::
    "('r \<Rightarrow> bool) \<Rightarrow> ('r \<Rightarrow> 'k) \<Rightarrow> ('r \<Rightarrow> 'r \<Rightarrow> bool) \<Rightarrow> 'r \<Rightarrow> 'r list \<Rightarrow> exn + bool \<times> 'r list" where
  "insert_or_ignore check arbiter clash row rows =
     (if \<not> check row then Inl IntegrityError
      else if select_one arbiter (arbiter row) rows \<noteq> None then Inr (False, rows)
      else if list_ex (clash row) rows then Inl IntegrityError
      else Inr (True, rows @ [row]))"

definition no_clash :: "'r \<Rightarrow> 'r \<Rightarrow> bool" where
  "no_clash r s = False"

lemma list_ex_no_clash [simp]: "\<not> list_ex (no_clash r) rows"
  by (simp add: no_clash_def list_ex_iff)

lemma insert_or_ignore_Inr:
  assumes "insert_or_ignore check arbiter clash row rows = Inr (w, rows')"
  shows "check row"
    and "w \<longleftrightarrow> select_one arbiter (arbiter row) rows = None"
    and "rows' = (if w then rows @ [row] else rows)"
    and "w \<longrightarrow> (\<forall>r \<in> set rows. \<not> clash row r)"
  using assms by (auto simp: insert_or_ignore_def list_ex_iff split: if_splits)

lemma insert_or_ignore_distinct:
  assumes "insert_or_ignore check arbiter clash row rows = Inr (w, rows')"
    and "distinct (map arbiter rows)"
  shows "distinct (map arbiter rows')"
  using insert_or_ignore_Inr [OF assms(1)] assms(2)
  by (auto simp: select_one_None_notin)

text \<open>A second unique column: the insert that succeeds keeps it unique.\<close>

lemma insert_or_ignore_distinct_clash:
  assumes "insert_or_ignore check arbiter clash row rows = Inr (w, rows')"
    and "distinct (map k rows)" and "\<And>r. k r = k row \<Longrightarrow> clash row r"
  shows "distinct (map k rows')"
  using insert_or_ignore_Inr [OF assms(1)] assms(2,3) by (fastforce split: if_splits)

text \<open>After the insert, the arbiter's value is present, with the new row or an older one.\<close>

lemma insert_or_ignore_present:
  assumes "insert_or_ignore check arbiter clash row rows = Inr (w, rows')"
  shows "select_one arbiter (arbiter row) rows' \<noteq> None"
  using insert_or_ignore_Inr [OF assms] by (auto simp: select_one_append split: option.splits)

lemma insert_or_ignore_other:
  assumes "insert_or_ignore check arbiter clash row rows = Inr (w, rows')" and "v \<noteq> arbiter row"
  shows "select_one arbiter v rows' = select_one arbiter v rows"
  using insert_or_ignore_Inr [OF assms(1)] assms(2)
  by (auto simp: select_one_append split: option.splits)

end
