(* ===== verification/Wire_Clock.thy ===== *)
theory Wire_Clock
  imports Db_Tables
begin

text \<open>
  The millisecond clock of the Payme wire (\<^verbatim>\<open>src/src/bayram/payme/protocol.py\<close>, \<^verbatim>\<open>to_ms\<close> and
  \<^verbatim>\<open>from_ms\<close>). Both functions go through a Python \<^verbatim>\<open>float\<close>, so the model keeps the IEEE double:
  a non-negative float is a pair \<open>(m, k)\<close> that stands for \<open>m / 2 ^ k\<close> with a 53-bit \<open>m\<close>, and every
  division or product is rounded to the nearest such value, ties to even. Instants are bounded by
  the years 1 to 9999, so no value reaches \<open>2 ^ 53\<close> and only scaling up is needed.
\<close>

section \<open>Doubles\<close>

definition round_half_even :: "int \<Rightarrow> int \<Rightarrow> int" where
  "round_half_even n d =
     (let q = n div d; r = n mod d
      in if 2 * r < d then q else if 2 * r > d then q + 1 else if even q then q else q + 1)"

function scale_up :: "int \<Rightarrow> int \<Rightarrow> nat" where
  "scale_up n d = (if 0 < n \<and> n < 2 ^ 52 * d then Suc (scale_up (2 * n) d) else 0)"
  by pat_completeness auto
termination
  by (relation "measure (\<lambda>(n, d). nat (2 ^ 52 * d - n))") auto

declare scale_up.simps [simp del]

definition float_of_ratio :: "int \<Rightarrow> int \<Rightarrow> int \<times> nat" where
  "float_of_ratio n d = (let k = scale_up n d in (round_half_even (n * 2 ^ k) d, k))"

definition float_times_int :: "int \<times> nat \<Rightarrow> int \<Rightarrow> int \<times> nat" where
  "float_times_int x c = float_of_ratio (fst x * c) (2 ^ snd x)"

definition float_trunc :: "int \<times> nat \<Rightarrow> int" where
  "float_trunc x = fst x div 2 ^ snd x"

definition float_round :: "int \<times> nat \<Rightarrow> int" where
  "float_round x = round_half_even (fst x) (2 ^ snd x)"

section \<open>The two conversions\<close>

text \<open>\<^verbatim>\<open>datetime.timestamp()\<close>: the microseconds divided by a million, as a float.\<close>

definition timestamp :: "instant \<Rightarrow> int \<times> nat" where
  "timestamp moment = float_of_ratio \<bar>moment\<bar> 1000000"

definition to_ms :: "instant \<Rightarrow> int" where
  "to_ms moment = sgn moment * float_trunc (float_times_int (timestamp moment) 1000)"

definition min_instant :: instant where "min_instant = -62135596800000000"
definition max_instant :: instant where "max_instant = 253402300799999999"

text \<open>
  \<^verbatim>\<open>datetime.fromtimestamp(value / 1000, tz=UTC)\<close>: the quotient's integer part in seconds, its
  fraction times a million rounded to whole microseconds; a year outside 1 to 9999 raises.
\<close>

definition from_ms :: "int \<Rightarrow> instant option" where
  "from_ms value =
     (let x = float_of_ratio \<bar>value\<bar> 1000;
          fraction = (fst x mod 2 ^ snd x, snd x);
          moment = sgn value * (float_trunc x * 1000000 + float_round (float_times_int fraction 1000000))
      in if min_instant \<le> moment \<and> moment \<le> max_instant then Some moment else None)"

section \<open>Rounding\<close>

lemma round_half_even_error: "0 < d \<Longrightarrow> \<bar>2 * (round_half_even n d * d - n)\<bar> \<le> d"
proof -
  assume d: "0 < d"
  have n: "n = n div d * d + n mod d" by simp
  define q r where "q = n div d" and "r = n mod d"
  have "n = q * d + r" "0 \<le> r" "r < d" using n d by (simp_all add: q_def r_def)
  then show ?thesis
    unfolding round_half_even_def q_def [symmetric] r_def [symmetric]
    by (auto simp: Let_def distrib_right)
qed

lemma round_half_even_bounds:
  assumes "0 < d"
  shows "2 * (round_half_even n d * d) \<le> 2 * n + d" and "2 * n \<le> 2 * (round_half_even n d * d) + d"
  using round_half_even_error [OF assms, of n] by (simp_all add: abs_le_iff right_diff_distrib)

lemma round_half_even_unique:
  assumes d: "0 < d" and "\<bar>2 * (n - q * d)\<bar> < d"
  shows "round_half_even n d = q"
proof -
  define p where "p = round_half_even n d"
  have "2 * n - 2 * (q * d) < d" "2 * (q * d) - 2 * n < d"
    using assms(2) by (simp_all add: abs_less_iff right_diff_distrib)
  then have "p * d < q * d + d" and "q * d < p * d + d"
    using round_half_even_bounds [OF d, of n] unfolding p_def by linarith+
  then have "p * d < (q + 1) * d" "q * d < (p + 1) * d" by (simp_all add: distrib_right)
  then have "p < q + 1" "q < p + 1" using d by simp_all
  then show ?thesis unfolding p_def by linarith
qed

lemma round_half_even_cancel:
  assumes "0 < c" "0 < d"
  shows "round_half_even (n * c) (d * c) = round_half_even n d"
proof -
  have "n * c div (d * c) = n div d" "n * c mod (d * c) = (n mod d) * c"
    using assms by (simp_all add: mult_mod_left)
  moreover have "2 * (n mod d * c) < d * c \<longleftrightarrow> 2 * (n mod d) < d"
    and "d * c < 2 * (n mod d * c) \<longleftrightarrow> d < 2 * (n mod d)"
    using assms(1) by (simp_all flip: mult.assoc)
  ultimately show ?thesis unfolding round_half_even_def Let_def by (simp only:)
qed

lemma le_times_power: "0 \<le> n \<Longrightarrow> n \<le> n * (2 :: int) ^ k"
  using mult_left_mono [of 1 "2 ^ k" n] by simp

lemma scale_up_eq:
  assumes "0 < n" "2 ^ 52 * d \<le> n * 2 ^ k" "k = 0 \<or> n * 2 ^ (k - 1) < 2 ^ 52 * d"
  shows "scale_up n d = k"
  using assms
proof (induction k arbitrary: n)
  case 0
  then show ?case by (simp add: scale_up.simps)
next
  case (Suc k)
  then have "n * 2 ^ k < 2 ^ 52 * d" "n \<le> n * 2 ^ k" using le_times_power [of n k] by simp_all
  then have "n < 2 ^ 52 * d" by linarith
  moreover have "scale_up (2 * n) d = k"
  proof (rule Suc.IH)
    show "k = 0 \<or> 2 * n * 2 ^ (k - 1) < 2 ^ 52 * d"
      using Suc.prems(3) by (cases k) (simp_all add: mult_ac)
  qed (use Suc.prems in \<open>simp_all add: mult_ac\<close>)
  ultimately show ?case using Suc.prems(1) by (simp add: scale_up.simps [of n])
qed

lemma scale_up_ge:
  "0 < n \<Longrightarrow> n * 2 ^ j < 2 ^ 52 * d \<Longrightarrow> j < scale_up n d"
proof (induction j arbitrary: n)
  case 0
  then show ?case by (simp add: scale_up.simps [of n])
next
  case (Suc j)
  then have "n < 2 ^ 52 * d" using le_times_power [of n "Suc j"] by linarith
  moreover have "j < scale_up (2 * n) d" using Suc by (intro Suc.IH) (simp_all add: mult_ac)
  ultimately show ?case using Suc.prems(1) by (simp add: scale_up.simps [of n])
qed

text \<open>A ratio over \<open>2 ^ e\<close> with few enough bits is a float exactly, so rounding it loses nothing.\<close>

lemma float_round_dyadic:
  assumes "0 \<le> n" "n * 2 ^ e < 2 ^ 52 * 2 ^ e"
  shows "float_round (float_of_ratio n (2 ^ e)) = round_half_even n (2 ^ e)"
proof (cases "n = 0")
  case True
  then show ?thesis by (simp add: float_round_def float_of_ratio_def scale_up.simps round_half_even_def)
next
  case False
  with assms have "e < scale_up n (2 ^ e)" by (intro scale_up_ge) simp_all
  then obtain j where k: "scale_up n (2 ^ e) = e + j" by (metis less_imp_le_nat le_iff_add)
  have "round_half_even (n * 2 ^ (e + j)) (2 ^ e) = n * 2 ^ j"
    by (rule round_half_even_unique) (simp_all add: power_add mult_ac)
  then show ?thesis
    by (simp add: float_round_def float_of_ratio_def Let_def k power_add round_half_even_cancel)
qed

section \<open>The window in which the clock is exact\<close>

text \<open>
  From \<open>2 ^ 40\<close> milliseconds (November 2004) to \<open>2 ^ 31\<close> seconds (January 2038) a second has 22
  fraction bits and a millisecond 12, and the two roundings cannot reach a neighbouring integer.
\<close>

definition clock_lo :: instant where "clock_lo = 1099511627776000"
definition clock_hi :: instant where "clock_hi = 2147483648000000"

definition in_clock_window :: "instant \<Rightarrow> bool" where
  "in_clock_window t \<longleftrightarrow> clock_lo \<le> t \<and> t < clock_hi"

lemma timestamp_window:
  assumes "in_clock_window t"
  obtains m where "timestamp t = (m, 22)" "\<bar>2 * (m * 1000000 - t * 2 ^ 22)\<bar> \<le> 1000000"
proof -
  have "0 < t" using assms by (simp add: in_clock_window_def clock_lo_def)
  moreover have "scale_up t 1000000 = 22"
    by (rule scale_up_eq) (use assms in \<open>simp_all add: in_clock_window_def clock_lo_def clock_hi_def\<close>)
  ultimately show thesis
    using that round_half_even_error [of 1000000 "t * 2 ^ 22"]
    by (simp add: timestamp_def float_of_ratio_def)
qed

lemma to_ms_exact:
  assumes w: "in_clock_window t"
  shows "to_ms t = t div 1000"
proof -
  from timestamp_window [OF w] obtain m where ts: "timestamp t = (m, 22)"
    and e1: "\<bar>2 * (m * 1000000 - t * 2 ^ 22)\<bar> \<le> 1000000" .
  have lo: "1099511627776000 \<le> t" and hi: "t < 2147483648000000"
    using w by (simp_all add: in_clock_window_def clock_lo_def clock_hi_def)
  have up: "m * 2000000 - t * 8388608 \<le> 1000000"
    and down: "t * 8388608 - m * 2000000 \<le> 1000000"
    using e1 by (simp_all add: abs_le_iff right_diff_distrib)
  have mlo: "4611686018427388 \<le> m" using down lo by linarith
  have mhi: "m \<le> 9007199254740992" using up hi by linarith
  have k: "scale_up (m * 1000) (2 ^ 22) = 12"
  proof (rule scale_up_eq)
    show "2 ^ 52 * 2 ^ 22 \<le> m * 1000 * 2 ^ 12" using mlo by simp
    show "(12::nat) = 0 \<or> m * 1000 * 2 ^ (12 - 1) < 2 ^ 52 * 2 ^ 22" using up hi by simp
  qed (use mlo in simp)
  define m' where "m' = round_half_even (m * 1000 * 2 ^ 12) (2 ^ 22)"
  have product: "float_times_int (m, 22) 1000 = (m', 12)"
    unfolding float_times_int_def float_of_ratio_def fst_conv snd_conv k Let_def m'_def ..
  have e2: "\<bar>2 * (m' * 2 ^ 22 - m * 1000 * 2 ^ 12)\<bar> \<le> 2 ^ 22"
    unfolding m'_def by (rule round_half_even_error) simp
  have q: "t = 1000 * (t div 1000) + t mod 1000" "0 \<le> t mod 1000" "t mod 1000 < 1000" by simp_all
  have "m' div 2 ^ 12 = t div 1000"
  proof (rule int_div_pos_eq)
    show "m' = 2 ^ 12 * (t div 1000) + (m' - 4096 * (t div 1000))" by simp
    show "0 \<le> m' - 4096 * (t div 1000)" using e1 e2 q by simp
    show "m' - 4096 * (t div 1000) < 2 ^ 12" using e1 e2 q by simp
  qed
  moreover have "sgn t = 1" using lo by simp
  ultimately show ?thesis
    by (simp add: to_ms_def ts product float_trunc_def)
qed

lemma from_ms_exact:
  assumes w: "in_clock_window (1000 * v)"
  shows "from_ms v = Some (1000 * v)"
proof -
  have lo: "1099511627776 \<le> v" and hi: "v < 2147483648000"
    using w by (simp_all add: in_clock_window_def clock_lo_def clock_hi_def)
  have k: "scale_up v 1000 = 22" by (rule scale_up_eq) (use lo hi in simp_all)
  define m where "m = round_half_even (v * 2 ^ 22) 1000"
  have e: "\<bar>2 * (m * 1000 - v * 2 ^ 22)\<bar> \<le> 1000"
    unfolding m_def by (rule round_half_even_error) simp
  define i f where "i = m div 2 ^ 22" and "f = m mod 2 ^ 22"
  have m: "m = i * 2 ^ 22 + f" "0 \<le> f" "f < 2 ^ 22" unfolding i_def f_def by simp_all
  have "float_round (float_of_ratio (f * 1000000) (2 ^ 22)) = round_half_even (f * 1000000) (2 ^ 22)"
    by (rule float_round_dyadic) (use m in simp_all)
  also have "\<dots> = 1000 * v - i * 1000000"
    by (rule round_half_even_unique) (use e m in simp_all)
  finally have "float_round (float_times_int (f, 22) 1000000) = 1000 * v - i * 1000000"
    by (simp add: float_times_int_def)
  moreover have "sgn v = 1" "\<bar>v\<bar> = v" using lo by simp_all
  moreover have "float_of_ratio v 1000 = (m, 22)"
    by (simp add: float_of_ratio_def k m_def)
  moreover have "float_trunc (m, 22) = i" by (simp add: float_trunc_def i_def)
  ultimately show ?thesis
    using lo hi unfolding from_ms_def Let_def
    by (simp add: f_def [symmetric, simplified] min_instant_def max_instant_def)
qed


lemma wire_roundtrip: "in_clock_window (1000 * v) \<Longrightarrow> map_option to_ms (from_ms v) = Some v"
  by (simp add: from_ms_exact to_ms_exact)

end
