(* ===== verification/Py_Text.thy ===== *)
theory Py_Text
  imports Prelude "HOL-Library.List_Lexorder" "HOL-Library.Product_Lexorder"
begin

text \<open>
  What the repository uses of Python's text library: the regular expressions of its validators and of its
  redactor, \<^verbatim>\<open>str.strip\<close>, \<^verbatim>\<open>json.dumps\<close> with sorted keys, and \<^verbatim>\<open>datetime.isoformat\<close> in UTC, with the laws that
  make the last two unambiguous. The Unicode character database is an argument.
\<close>

section \<open>Characters\<close>

text \<open>What of the database is consulted: \<^verbatim>\<open>isalnum\<close> or underscore, \<^verbatim>\<open>isdecimal\<close> and \<^verbatim>\<open>isspace\<close>.\<close>

record unicode =
  un_word :: "nat \<Rightarrow> bool"
  un_decimal :: "nat \<Rightarrow> bool"
  un_space :: "nat \<Rightarrow> bool"

definition is_lower :: "nat \<Rightarrow> bool" where "is_lower c = (97 \<le> c \<and> c \<le> 122)"
definition is_upper :: "nat \<Rightarrow> bool" where "is_upper c = (65 \<le> c \<and> c \<le> 90)"
definition is_digit :: "nat \<Rightarrow> bool" where "is_digit c = (48 \<le> c \<and> c \<le> 57)"
definition is_one_of :: "string \<Rightarrow> nat \<Rightarrow> bool" where "is_one_of s c = (c \<in> set (ustr s))"
definition is_alnum :: "nat \<Rightarrow> bool" where "is_alnum c = (is_lower c \<or> is_upper c \<or> is_digit c)"

definition py_strip :: "unicode \<Rightarrow> pystr \<Rightarrow> pystr" where
  "py_strip un s = rev (dropWhile (un_space un) (rev (dropWhile (un_space un) s)))"

section \<open>Regular expressions\<close>

text \<open>
  A run of characters of a class, greedy between two bounds; a word boundary; sequence; alternation. A match
  is the character before the current position and what follows it, in the order the engine tries them.
\<close>

datatype re = Run "nat \<Rightarrow> bool" nat "nat option" | Boundary | Then re re | Or re re

definition literal :: "string \<Rightarrow> re" where
  "literal s = foldr (\<lambda>c r. Then (Run (\<lambda>x. x = c) 1 (Some 1)) r) (butlast (ustr s))
     (Run (\<lambda>x. x = last (ustr s)) 1 (Some 1))"

type_synonym position = "nat option \<times> pystr"

fun advance :: "nat \<Rightarrow> position \<Rightarrow> position" where
  "advance 0 pos = pos"
| "advance (Suc n) (prev, []) = (prev, [])"
| "advance (Suc n) (prev, c # cs) = advance n (Some c, cs)"

definition at_boundary :: "unicode \<Rightarrow> position \<Rightarrow> bool" where
  "at_boundary un pos =
     (case pos of (prev, rest) \<Rightarrow>
        (case prev of None \<Rightarrow> False | Some c \<Rightarrow> un_word un c) \<noteq> (case rest of [] \<Rightarrow> False | c # _ \<Rightarrow> un_word un c))"

fun re_matches :: "unicode \<Rightarrow> re \<Rightarrow> position \<Rightarrow> position list" where
  "re_matches un (Run p lo hi) (prev, s) =
     (let n = length (takeWhile p s); top = (case hi of None \<Rightarrow> n | Some h \<Rightarrow> min n h)
      in map (\<lambda>k. advance k (prev, s)) (rev [lo ..< Suc top]))"
| "re_matches un Boundary pos = (if at_boundary un pos then [pos] else [])"
| "re_matches un (Then a b) pos = concat (map (re_matches un b) (re_matches un a pos))"
| "re_matches un (Or a b) pos = re_matches un a pos @ re_matches un b pos"

text \<open>\<^verbatim>\<open>re.search\<close> as a condition, and \<^verbatim>\<open>re.sub\<close> for expressions that match no empty text.\<close>

fun re_search :: "unicode \<Rightarrow> re \<Rightarrow> nat option \<Rightarrow> pystr \<Rightarrow> bool" where
  "re_search un r prev [] = (re_matches un r (prev, []) \<noteq> [])"
| "re_search un r prev (c # cs) = (re_matches un r (prev, c # cs) \<noteq> [] \<or> re_search un r (Some c) cs)"

function re_sub :: "unicode \<Rightarrow> re \<Rightarrow> pystr \<Rightarrow> position \<Rightarrow> pystr" where
  "re_sub un r repl (prev, s) =
     (case re_matches un r (prev, s) of
        (prev', s') # _ \<Rightarrow>
          if length s' < length s then repl @ re_sub un r repl (prev', s')
          else (case s of [] \<Rightarrow> [] | c # cs \<Rightarrow> c # re_sub un r repl (Some c, cs))
      | [] \<Rightarrow> (case s of [] \<Rightarrow> [] | c # cs \<Rightarrow> c # re_sub un r repl (Some c, cs)))"
  by pat_completeness auto
termination by (relation "measure (\<lambda>(un, r, repl, prev, s). length s)") auto

text \<open>A pattern \<^verbatim>\<open>^[first][rest]{lo,hi}$\<close> under \<^verbatim>\<open>match\<close>: the dollar also stands before a final newline.\<close>

definition matches_whole :: "(nat \<Rightarrow> bool) \<Rightarrow> nat \<Rightarrow> nat \<Rightarrow> pystr \<Rightarrow> bool" where
  "matches_whole p lo hi s =
     (let body = (if s \<noteq> [] \<and> last s = 10 then butlast s else s)
      in (list_all p s \<and> lo \<le> length s \<and> length s \<le> hi)
         \<or> (list_all p body \<and> lo \<le> length body \<and> length body \<le> hi))"

section \<open>JSON\<close>

text \<open>A JSON value; the digits of a number that is not an integer are kept as text.\<close>

datatype json =
    JNull | JBool bool | JInt int | JFloat pystr | JString pystr | JList "json list"
  | JObject "(pystr \<times> json) list"

definition hex_digit :: "nat \<Rightarrow> nat" where
  "hex_digit n = (if n < 10 then 48 + n else 87 + n)"

text \<open>\<^verbatim>\<open>ESCAPE\<close> of the encoder with \<^verbatim>\<open>ensure_ascii=False\<close>.\<close>

definition json_char :: "nat \<Rightarrow> pystr" where
  "json_char c =
     (if c = 34 then [92, 34] else if c = 92 then [92, 92] else if c = 10 then [92, 110]
      else if c = 13 then [92, 114] else if c = 9 then [92, 116] else if c = 12 then [92, 102]
      else if c = 8 then [92, 98]
      else if c < 32 then [92, 117, 48, 48, hex_digit (c div 16), hex_digit (c mod 16)] else [c])"

definition json_quote :: "pystr \<Rightarrow> pystr" where
  "json_quote s = 34 # concat (map json_char s) @ [34]"

fun joined :: "nat \<Rightarrow> pystr list \<Rightarrow> pystr" where
  "joined sep [] = []"
| "joined sep [s] = s"
| "joined sep (s # t # ss) = s @ sep # joined sep (t # ss)"

text \<open>\<^verbatim>\<open>json.dumps(value, sort_keys=True, separators=(",", ":"), ensure_ascii=False)\<close>.\<close>

fun json_text :: "json \<Rightarrow> pystr" and json_texts :: "json list \<Rightarrow> pystr list"
  and json_members :: "(pystr \<times> json) list \<Rightarrow> (pystr \<times> pystr) list" where
  "json_text JNull = ustr ''null''"
| "json_text (JBool b) = (if b then ustr ''true'' else ustr ''false'')"
| "json_text (JInt i) = str_int i"
| "json_text (JFloat s) = s"
| "json_text (JString s) = json_quote s"
| "json_text (JList vs) = 91 # joined 44 (json_texts vs) @ [93]"
| "json_text (JObject ms) =
     123 # joined 44 (map (\<lambda>(k, t). json_quote k @ 58 # t) (sort_key fst (json_members ms))) @ [125]"
| "json_texts [] = []"
| "json_texts (v # vs) = json_text v # json_texts vs"
| "json_members [] = []"
| "json_members ((k, v) # ms) = (k, json_text v) # json_members ms"

section \<open>Dates\<close>

text \<open>\<^verbatim>\<open>date.fromordinal\<close>, with the days counted from zero: year, month and day.\<close>

fun split_days :: "nat list \<Rightarrow> nat \<Rightarrow> nat \<Rightarrow> nat \<times> nat" where
  "split_days [] month n = (month, n)"
| "split_days (m # ms) month n = (if n < m then (month, n) else split_days ms (Suc month) (n - m))"

definition month_lengths :: "bool \<Rightarrow> nat list" where
  "month_lengths leap = [31, if leap then 29 else 28, 31, 30, 31, 30, 31, 31, 30, 31, 30, 31]"

definition civil_date :: "nat \<Rightarrow> nat \<times> nat \<times> nat" where
  "civil_date days =
     (let n400 = days div 146097; n = days mod 146097;
          n100 = n div 36524; n = n mod 36524;
          n4 = n div 1461; n = n mod 1461;
          n1 = n div 365; n = n mod 365;
          year = 400 * n400 + 100 * n100 + 4 * n4 + n1 + 1
      in if n1 = 4 \<or> n100 = 4 then (year - 1, 12, 31)
         else (case split_days (month_lengths (n1 = 3 \<and> (n4 \<noteq> 24 \<or> n100 = 3))) 1 n of
                 (month, d) \<Rightarrow> (year, month, d + 1)))"

fun padded :: "nat \<Rightarrow> nat \<Rightarrow> pystr" where
  "padded 0 n = []"
| "padded (Suc w) n = padded w (n div 10) @ [48 + n mod 10]"

definition epoch_days :: nat where "epoch_days = 719162"

text \<open>\<^verbatim>\<open>value.astimezone(UTC).isoformat()\<close>; the fraction is written when it is not zero.\<close>

definition isoformat :: "instant \<Rightarrow> pystr" where
  "isoformat at =
     (let us = nat (at + int epoch_days * 86400000000);
          secs = us div 1000000; fraction = us mod 1000000; day_s = secs mod 86400
      in case civil_date (secs div 86400) of (y, m, d) \<Rightarrow>
           padded 4 y @ 45 # padded 2 m @ 45 # padded 2 d @ 84 # padded 2 (day_s div 3600) @ 58
           # padded 2 (day_s mod 3600 div 60) @ 58 # padded 2 (day_s mod 60)
           @ (if fraction = 0 then [] else 46 # padded 6 fraction) @ ustr ''+00:00'')"

section \<open>The texts are unambiguous\<close>

lemma hex_digit_eq_iff: "a < 16 \<Longrightarrow> b < 16 \<Longrightarrow> hex_digit a = hex_digit b \<longleftrightarrow> a = b"
  by (auto simp: hex_digit_def)

lemma hex_pair_eq_iff:
  fixes c d :: nat
  assumes "c < 32" "d < 32"
  shows "hex_digit (c div 16) = hex_digit (d div 16) \<and> hex_digit (c mod 16) = hex_digit (d mod 16) \<longleftrightarrow> c = d"
proof
  assume "hex_digit (c div 16) = hex_digit (d div 16) \<and> hex_digit (c mod 16) = hex_digit (d mod 16)"
  then have "c div 16 = d div 16" "c mod 16 = d mod 16"
    using hex_digit_eq_iff [of "c div 16" "d div 16"] hex_digit_eq_iff [of "c mod 16" "d mod 16"] assms by simp_all
  then show "c = d" by (metis div_mult_mod_eq)
qed simp

lemma json_char_head:
  "json_char c = (if c = 34 \<or> c = 92 \<or> c < 32 then 92 # tl (json_char c) else [c])"
  by (simp add: json_char_def)

text \<open>What the letter after a backslash stands for.\<close>

definition unescaped :: "nat \<Rightarrow> nat" where
  "unescaped e = (if e = 110 then 10 else if e = 114 then 13 else if e = 116 then 9 else if e = 102 then 12
     else if e = 98 then 8 else e)"

lemma json_escape_shape:
  assumes "c = 34 \<or> c = 92 \<or> c < 32"
  obtains (letter) e where "json_char c = [92, e]" "e \<noteq> 117" "unescaped e = c"
  | (code) "json_char c = [92, 117, 48, 48, hex_digit (c div 16), hex_digit (c mod 16)]" "c < 32"
proof -
  have "(\<exists>e. json_char c = [92, e] \<and> e \<noteq> 117 \<and> unescaped e = c)
    \<or> json_char c = [92, 117, 48, 48, hex_digit (c div 16), hex_digit (c mod 16)] \<and> c < 32"
  proof (cases "c \<in> {34, 92, 10, 13, 9, 12, 8}")
    case True
    then show ?thesis by (auto simp: json_char_def unescaped_def)
  next
    case False
    then show ?thesis using assms by (simp add: json_char_def)
  qed
  then show thesis using letter code by blast
qed

lemma json_escape_eq_iff:
  assumes "c = 34 \<or> c = 92 \<or> c < 32" "d = 34 \<or> d = 92 \<or> d < 32"
  shows "json_char c @ xs = json_char d @ ys \<longleftrightarrow> c = d \<and> xs = ys"
  using assms(1)
proof (cases rule: json_escape_shape)
  case (letter e)
  note c = letter
  show ?thesis using assms(2)
  proof (cases rule: json_escape_shape)
    case (letter f)
    have "json_char c @ xs = json_char d @ ys \<longleftrightarrow> e = f \<and> xs = ys" by (simp only: letter(1) c(1)) simp
    moreover have "e = f \<longleftrightarrow> c = d"
    proof
      assume "c = d"
      then have "[92, e] = [92, f]" using letter(1) c(1) by simp
      then show "e = f" by simp
    qed (use letter(3) c(3) in metis)
    ultimately show ?thesis by simp
  next
    case code
    from c(1,2) code(1) have "json_char c @ xs \<noteq> json_char d @ ys" by (simp only:) simp
    moreover have "c \<noteq> d" using c(1) code(1) by auto
    ultimately show ?thesis by simp
  qed
next
  case code
  note c = code
  show ?thesis using assms(2)
  proof (cases rule: json_escape_shape)
    case (letter e)
    from letter(1,2) c(1) have "json_char c @ xs \<noteq> json_char d @ ys" by (simp only:) simp
    moreover have "c \<noteq> d" using c(1) letter(1) by auto
    ultimately show ?thesis by simp
  next
    case code
    from c(1) code(1) hex_pair_eq_iff [OF c(2) code(2)] show ?thesis by auto
  qed
qed

lemma json_char_eq_iff: "json_char c @ xs = json_char d @ ys \<longleftrightarrow> c = d \<and> xs = ys"
proof -
  let ?special = "\<lambda>c. c = 34 \<or> c = 92 \<or> c < 32"
  consider "?special c" "?special d" | "?special c" "\<not> ?special d" | "\<not> ?special c" "?special d"
    | "\<not> ?special c" "\<not> ?special d" by blast
  then show ?thesis
  proof cases
    case 1
    then show ?thesis by (rule json_escape_eq_iff)
  next
    case 2
    then have "json_char c = 92 # tl (json_char c)" "json_char d = [d]" "d \<noteq> 92" "c \<noteq> d"
      using json_char_head [of c] json_char_head [of d] by auto
    then show ?thesis by (metis append_Cons list.inject)
  next
    case 3
    then have "json_char d = 92 # tl (json_char d)" "json_char c = [c]" "c \<noteq> 92" "c \<noteq> d"
      using json_char_head [of c] json_char_head [of d] by auto
    then show ?thesis by (metis append_Cons list.inject)
  next
    case 4
    then have "json_char c = [c]" "json_char d = [d]" using json_char_head [of c] json_char_head [of d] by auto
    then show ?thesis by simp
  qed
qed

lemma json_char_not_quote: "json_char c @ xs \<noteq> 34 # ys"
  by (auto simp: json_char_def)

lemma json_chars_eq_iff:
  "concat (map json_char s) @ 34 # xs = concat (map json_char t) @ 34 # ys \<longleftrightarrow> s = t \<and> xs = ys"
proof (induction s arbitrary: t)
  case Nil
  then show ?case using json_char_not_quote by (cases t) (auto, metis)
next
  case (Cons c s)
  then show ?case using json_char_not_quote by (cases t) (auto simp: json_char_eq_iff)
qed

lemma json_quote_eq_iff [simp]: "json_quote s @ xs = json_quote t @ ys \<longleftrightarrow> s = t \<and> xs = ys"
  by (simp add: json_quote_def json_chars_eq_iff)

lemma json_quote_head: "json_quote s @ xs = 34 # tl (json_quote s) @ xs"
  by (simp add: json_quote_def)

lemma length_padded [simp]: "length (padded w n) = w"
  by (induction w arbitrary: n) simp_all

lemma padded_eq_iff: "n < 10 ^ w \<Longrightarrow> m < 10 ^ w \<Longrightarrow> padded w n = padded w m \<longleftrightarrow> n = m"
proof (induction w arbitrary: n m)
  case (Suc w)
  have "n div 10 < 10 ^ w" "m div 10 < 10 ^ w" using Suc.prems by (simp_all add: div_less_iff_less_mult mult.commute)
  from Suc.IH [OF this] have "padded (Suc w) n = padded (Suc w) m \<longleftrightarrow> n div 10 = m div 10 \<and> n mod 10 = m mod 10" by simp
  also have "\<dots> \<longleftrightarrow> n = m" by (metis div_mult_mod_eq)
  finally show ?case .
qed simp

text \<open>The days before a year and before a month, to read a date back.\<close>

definition days_of_civil :: "nat \<times> nat \<times> nat \<Rightarrow> nat" where
  "days_of_civil date =
     (case date of (y, m, d) \<Rightarrow>
        (let p = y - 1; leap = (y mod 4 = 0 \<and> (y mod 100 \<noteq> 0 \<or> y mod 400 = 0))
         in 365 * p + p div 4 - p div 100 + p div 400 + sum_list (take (m - 1) (month_lengths leap)) + (d - 1)))"

lemma split_days_sum:
  "split_days ms month n = (month', d) \<Longrightarrow> n < sum_list ms \<Longrightarrow>
     month \<le> month' \<and> month' < month + length ms \<and> d < ms ! (month' - month)
     \<and> sum_list (take (month' - month) ms) + d = n"
proof (induction ms arbitrary: month n)
  case (Cons k ms)
  show ?case
  proof (cases "n < k")
    case True
    with Cons.prems show ?thesis by auto
  next
    case False
    then have "split_days ms (Suc month) (n - k) = (month', d)" "n - k < sum_list ms" using Cons.prems by simp_all
    note ih = Cons.IH [OF this]
    then have "month' - month = Suc (month' - Suc month)" by arith
    with ih False show ?thesis by auto
  qed
qed simp

lemma sum_month_lengths: "sum_list (month_lengths leap) = (if leap then 366 else 365)"
  by (simp add: month_lengths_def)

text \<open>The four cycles of the calendar.\<close>

lemma cycles:
  fixes n :: nat
  obtains a b c e r where "n = 146097 * a + 36524 * b + 1461 * c + 365 * e + r"
    and "a = n div 146097" "b = n mod 146097 div 36524" "c = n mod 146097 mod 36524 div 1461"
      "e = n mod 146097 mod 36524 mod 1461 div 365" "r = n mod 146097 mod 36524 mod 1461 mod 365"
    and "b \<le> 4" "c \<le> 24" "e \<le> 4" "r < 365" "b = 4 \<longrightarrow> c = 0 \<and> e = 0 \<and> r = 0" "e = 4 \<longrightarrow> r = 0"
    and "1461 * c + 365 * e + r < 36524"
proof -
  define x where "x = n mod 146097"
  define y where "y = x mod 36524"
  define z where "z = y mod 1461"
  have n: "n = 146097 * (n div 146097) + x" by (simp add: x_def)
  have x: "x = 36524 * (x div 36524) + y" by (simp add: y_def)
  have y: "y = 1461 * (y div 1461) + z" by (simp add: z_def)
  have z: "z = 365 * (z div 365) + z mod 365" by simp
  have lt: "x < 146097" "y < 36524" "z < 1461" by (simp_all add: x_def y_def z_def)
  show thesis
  proof (rule that [of "n div 146097" "x div 36524" "y div 1461" "z div 365" "z mod 365"])
    show "n = 146097 * (n div 146097) + 36524 * (x div 36524) + 1461 * (y div 1461) + 365 * (z div 365) + z mod 365"
      using n x y z by linarith
    show "x div 36524 \<le> 4" "y div 1461 \<le> 24" "z div 365 \<le> 4" using lt by linarith+
    show "x div 36524 = 4 \<longrightarrow> y div 1461 = 0 \<and> z div 365 = 0 \<and> z mod 365 = 0"
    proof
      assume "x div 36524 = 4"
      then have "y = 0" using x lt(1) by linarith
      then show "y div 1461 = 0 \<and> z div 365 = 0 \<and> z mod 365 = 0" by (simp add: z_def)
    qed
    show "z div 365 = 4 \<longrightarrow> z mod 365 = 0" using z lt(3) by linarith
    show "1461 * (y div 1461) + 365 * (z div 365) + z mod 365 < 36524" using y z lt(2) by linarith
  qed (simp_all add: x_def y_def z_def)
qed

lemma year_arith:
  fixes a b c e :: nat
  assumes "b \<le> 3" "c \<le> 24" "e \<le> 3"
  defines "p \<equiv> 400 * a + 100 * b + 4 * c + e"
  shows "365 * p + p div 4 - p div 100 + p div 400 = 146097 * a + 36524 * b + 1461 * c + 365 * e"
    and "((p + 1) mod 4 = 0 \<and> ((p + 1) mod 100 \<noteq> 0 \<or> (p + 1) mod 400 = 0)) \<longleftrightarrow> e = 3 \<and> (c \<noteq> 24 \<or> b = 3)"
proof -
  have p4: "p = e + 4 * (100 * a + 25 * b + c)" and p100: "p = 4 * c + e + 100 * (4 * a + b)"
    and p400: "p = 100 * b + 4 * c + e + 400 * a" by (simp_all add: p_def)
  have "p div 4 = e div 4 + (100 * a + 25 * b + c)" unfolding p4 by simp
  moreover have "p div 100 = (4 * c + e) div 100 + (4 * a + b)" unfolding p100 by simp
  moreover have "p div 400 = (100 * b + 4 * c + e) div 400 + a" unfolding p400 by simp
  ultimately have d: "p div 4 = 100 * a + 25 * b + c" "p div 100 = 4 * a + b" "p div 400 = a"
    using assms(1-3) by simp_all
  show "365 * p + p div 4 - p div 100 + p div 400 = 146097 * a + 36524 * b + 1461 * c + 365 * e"
    unfolding d by (simp add: p_def)
  have q: "p + 1 = (e + 1) + 4 * (100 * a + 25 * b + c)" "p + 1 = (4 * c + e + 1) + 100 * (4 * a + b)"
    "p + 1 = (100 * b + 4 * c + e + 1) + 400 * a" by (simp_all add: p_def)
  have small: "n mod k = 0 \<longleftrightarrow> n = k" if "0 < n" "n \<le> k" for n k :: nat
    using that by (cases "n = k") simp_all
  have "(p + 1) mod 4 = (e + 1) mod 4" unfolding q(1) by (rule mod_mult_self2)
  then have "(p + 1) mod 4 = 0 \<longleftrightarrow> e = 3" using small [of "e + 1" 4] assms(3) by simp
  moreover have "(p + 1) mod 100 = (4 * c + e + 1) mod 100" unfolding q(2) by (rule mod_mult_self2)
  then have "(p + 1) mod 100 = 0 \<longleftrightarrow> 4 * c + e + 1 = 100" using small [of "4 * c + e + 1" 100] assms(2,3) by simp
  moreover have "4 * c + e + 1 = 100 \<longleftrightarrow> c = 24 \<and> e = 3" using assms(2,3) by linarith
  ultimately have m: "(p + 1) mod 4 = 0 \<longleftrightarrow> e = 3" "(p + 1) mod 100 = 0 \<longleftrightarrow> c = 24 \<and> e = 3" by simp_all
  have "(p + 1) mod 400 = (100 * b + 4 * c + e + 1) mod 400" unfolding q(3) by (rule mod_mult_self2)
  then have "(p + 1) mod 400 = 0 \<longleftrightarrow> 100 * b + 4 * c + e + 1 = 400"
    using small [of "100 * b + 4 * c + e + 1" 400] assms(1-3) by simp
  moreover have "100 * b + 4 * c + e + 1 = 400 \<longleftrightarrow> b = 3 \<and> c = 24 \<and> e = 3" using assms(1-3) by linarith
  ultimately have "(p + 1) mod 400 = 0 \<longleftrightarrow> b = 3 \<and> c = 24 \<and> e = 3" by simp
  with m show "((p + 1) mod 4 = 0 \<and> ((p + 1) mod 100 \<noteq> 0 \<or> (p + 1) mod 400 = 0)) \<longleftrightarrow> e = 3 \<and> (c \<noteq> 24 \<or> b = 3)"
    by auto
qed

lemma days_of_civil_year:
  assumes "b \<le> 3" "c \<le> 24" "e \<le> 3"
  shows "days_of_civil (400 * a + 100 * b + 4 * c + e + 1, m, d) = 146097 * a + 36524 * b + 1461 * c + 365 * e
    + sum_list (take (m - 1) (month_lengths (e = 3 \<and> (c \<noteq> 24 \<or> b = 3)))) + (d - 1)"
  unfolding days_of_civil_def Let_def prod.case year_arith(2) [OF assms] using year_arith(1) [OF assms, of a] by simp

lemma new_years_eve:
  assumes "b \<le> 3" "c \<le> 24" "c \<noteq> 24 \<or> b = 3"
  shows "days_of_civil (400 * a + 100 * b + 4 * c + 3 + 1, 12, 31) = 146097 * a + 36524 * b + 1461 * c + 1460"
  using days_of_civil_year [OF assms(1,2), of 3 a 12 31] assms(3) by (simp add: month_lengths_def)

lemma civil_date_inverse:
  "days_of_civil (civil_date n) = n"
  "civil_date n = (y, m, d) \<Longrightarrow> m \<le> 12 \<and> 1 \<le> d \<and> d \<le> 31 \<and> (n < 3652059 \<longrightarrow> y < 10000)"
proof -
  obtain a b c e r where n: "n = 146097 * a + 36524 * b + 1461 * c + 365 * e + r"
    and def: "a = n div 146097" "b = n mod 146097 div 36524" "c = n mod 146097 mod 36524 div 1461"
      "e = n mod 146097 mod 36524 mod 1461 div 365" "r = n mod 146097 mod 36524 mod 1461 mod 365"
    and le: "b \<le> 4" "c \<le> 24" "e \<le> 4" "r < 365" "b = 4 \<longrightarrow> c = 0 \<and> e = 0 \<and> r = 0" "e = 4 \<longrightarrow> r = 0"
    and lt: "1461 * c + 365 * e + r < 36524"
    by (rule cycles [of n])
  let ?p = "400 * a + 100 * b + 4 * c + e"
  let ?leap = "e = 3 \<and> (c \<noteq> 24 \<or> b = 3)"
  have civ: "civil_date n = (if e = 4 \<or> b = 4 then (?p, 12, 31)
      else (case split_days (month_lengths ?leap) 1 r of (m, d) \<Rightarrow> (?p + 1, m, d + 1)))"
    unfolding civil_date_def Let_def def [symmetric] by simp
  have "days_of_civil (civil_date n) = n
    \<and> (\<forall>y m d. civil_date n = (y, m, d) \<longrightarrow> m \<le> 12 \<and> 1 \<le> d \<and> d \<le> 31 \<and> (n < 3652059 \<longrightarrow> y < 10000))"
  proof (cases "e = 4 \<or> b = 4")
    case True
    then consider "b = 4" | "b \<le> 3" "e = 4" using le(1) by linarith
    then show ?thesis
    proof cases
      case 1
      then have z: "c = 0" "e = 0" "r = 0" using le(5) by simp_all
      then have "?p = 400 * a + 100 * 3 + 4 * 24 + 3 + 1" using 1 by simp
      with new_years_eve [of 3 24 a] have "days_of_civil (?p, 12, 31) = n" using 1 z n by (simp add: add.commute)
      moreover have "n < 3652059 \<longrightarrow> ?p < 10000" using 1 z n by linarith
      ultimately show ?thesis using 1 civ by auto
    next
      case 2
      then have r: "r = 0" using le(6) by simp
      have "c \<noteq> 24" using lt 2(2) by auto
      moreover have "?p = 400 * a + 100 * b + 4 * c + 3 + 1" using 2 by simp
      ultimately have "days_of_civil (?p, 12, 31) = n" using new_years_eve [of b c a] 2 le(2) r n by (simp add: ac_simps)
      moreover have "n < 3652059 \<longrightarrow> ?p < 10000" using 2 le(2) r n by linarith
      ultimately show ?thesis using 2 civ by auto
    qed
  next
    case False
    then have le3: "b \<le> 3" "e \<le> 3" using le(1,3) by linarith+
    obtain m d where md: "split_days (month_lengths ?leap) 1 r = (m, d)" by fastforce
    have "r < sum_list (month_lengths ?leap)" using le(4) by (simp add: sum_month_lengths)
    from split_days_sum [OF md this] have s: "1 \<le> m" "m \<le> 12" "d < month_lengths ?leap ! (m - 1)"
        "sum_list (take (m - 1) (month_lengths ?leap)) + d = r"
      by (simp_all add: month_lengths_def)
    have "month_lengths ?leap ! (m - 1) \<le> 31"
    proof -
      have "month_lengths ?leap ! (m - 1) \<in> set (month_lengths ?leap)"
        using s(1,2) by (intro nth_mem) (auto simp: month_lengths_def)
      then show ?thesis by (auto simp: month_lengths_def split: if_splits)
    qed
    moreover have "days_of_civil (?p + 1, m, d + 1) = n"
      using days_of_civil_year [OF le3(1) le(2) le3(2), of a m "d + 1"] s(4) n by simp
    moreover have "n < 3652059 \<longrightarrow> ?p + 1 < 10000"
    proof
      assume "n < 3652059"
      then have "146097 * a + 36524 * b + 1461 * c + 365 * e < 3652059" using n by linarith
      then show "?p + 1 < 10000" using le3 le(2) by linarith
    qed
    ultimately show ?thesis using False civ md s by auto
  qed
  then show "days_of_civil (civil_date n) = n"
    "civil_date n = (y, m, d) \<Longrightarrow> m \<le> 12 \<and> 1 \<le> d \<and> d \<le> 31 \<and> (n < 3652059 \<longrightarrow> y < 10000)" by blast+
qed

lemma civil_date_eq_iff: "civil_date n = civil_date k \<longleftrightarrow> n = k"
  by (metis civil_date_inverse(1))

definition representable :: "instant \<Rightarrow> bool" where
  "representable at \<longleftrightarrow> - 62135596800000000 \<le> at \<and> at \<le> 253402300799999999"

lemma fixed_width_append: "length a = length b \<Longrightarrow> a @ xs = b @ ys \<longleftrightarrow> a = b \<and> xs = ys"
  by simp

lemma isoformat_tail:
  "fraction < 1000000 \<Longrightarrow> fraction' < 1000000 \<Longrightarrow>
   (if fraction = 0 then [] else 46 # padded 6 fraction) @ ustr ''+00:00''
     = (if fraction' = 0 then [] else 46 # padded 6 fraction') @ ustr ''+00:00'' \<longleftrightarrow> fraction = fraction'"
  using padded_eq_iff [of fraction 6 fraction'] by auto

lemma length_padded_eq: "length (padded w n) = length (padded w m)"
  by simp

lemma iso_fields:
  assumes "length a = length a'" "length b = length b'" "length c = length c'" "length e = length e'"
    "length f = length f'" "length g = length g'"
  shows "a @ 45 # b @ 45 # c @ 84 # e @ 58 # f @ 58 # g @ t = a' @ 45 # b' @ 45 # c' @ (84 :: nat) # e' @ 58 # f' @ 58 # g' @ t' \<longleftrightarrow>
    a = a' \<and> b = b' \<and> c = c' \<and> e = e' \<and> f = f' \<and> g = g' \<and> t = t'"
  using assms by simp

lemma clock_eq_iff:
  fixes s t :: nat
  assumes "s < 86400" "t < 86400"
  shows "s div 3600 = t div 3600 \<and> s mod 3600 div 60 = t mod 3600 div 60 \<and> s mod 60 = t mod 60 \<longleftrightarrow> s = t"
proof
  assume a: "s div 3600 = t div 3600 \<and> s mod 3600 div 60 = t mod 3600 div 60 \<and> s mod 60 = t mod 60"
  have m: "k mod 60 = k mod 3600 mod 60" for k :: nat by (simp add: mod_mod_cancel)
  have "s mod 3600 = t mod 3600" using a m [of s] m [of t] by (metis div_mult_mod_eq)
  then show "s = t" using a by (metis div_mult_mod_eq)
qed simp

lemma clock_lt:
  fixes s :: nat
  assumes "s < 86400"
  shows "s div 3600 < 100" "s mod 3600 div 60 < 100" "s mod 60 < 100"
proof -
  show "s div 3600 < 100" using assms by linarith
  have "s mod 3600 < 3600" "s mod 60 < 60" by simp_all
  then show "s mod 3600 div 60 < 100" "s mod 60 < 100" by linarith+
qed

lemma isoformat_eq_iff:
  assumes "representable at" "representable at'"
  shows "isoformat at = isoformat at' \<longleftrightarrow> at = at'"
proof
  assume eq: "isoformat at = isoformat at'"
  define n where "n = nat (at + int epoch_days * 86400000000)"
  define n' where "n' = nat (at' + int epoch_days * 86400000000)"
  have lt: "n < 3652059 * 86400000000" "n' < 3652059 * 86400000000"
    using assms unfolding representable_def n_def n'_def epoch_days_def by linarith+
  then have days: "n div 1000000 div 86400 < 3652059" "n' div 1000000 div 86400 < 3652059"
    by (simp_all add: div_less_iff_less_mult)
  obtain y m d where date: "civil_date (n div 1000000 div 86400) = (y, m, d)" by (metis prod_cases3)
  obtain y' m' d' where date': "civil_date (n' div 1000000 div 86400) = (y', m', d')" by (metis prod_cases3)
  have r: "y < 10000" "m < 100" "d < 100" "y' < 10000" "m' < 100" "d' < 100"
    using civil_date_inverse(2) [OF date] civil_date_inverse(2) [OF date'] days by auto
  let ?s = "n div 1000000 mod 86400" and ?s' = "n' div 1000000 mod 86400"
  have lim: "?s < 86400" "?s' < 86400" by (rule mod_less_divisor, simp)+
  note c = clock_lt [OF lim(1)] clock_lt [OF lim(2)]
  let ?tail = "\<lambda>f. (if f = 0 then [] else 46 # padded 6 f) @ ustr ''+00:00''"
  have f: "n mod 1000000 < 1000000" "n' mod 1000000 < 1000000" by simp_all
  have "padded 4 y @ 45 # padded 2 m @ 45 # padded 2 d @ 84 # padded 2 (?s div 3600) @ 58
      # padded 2 (?s mod 3600 div 60) @ 58 # padded 2 (?s mod 60) @ ?tail (n mod 1000000)
    = padded 4 y' @ 45 # padded 2 m' @ 45 # padded 2 d' @ 84 # padded 2 (?s' div 3600) @ 58
      # padded 2 (?s' mod 3600 div 60) @ 58 # padded 2 (?s' mod 60) @ ?tail (n' mod 1000000)"
    using eq unfolding isoformat_def Let_def n_def [symmetric] n'_def [symmetric] date date' prod.case .
  then have P: "padded 4 y = padded 4 y' \<and> padded 2 m = padded 2 m' \<and> padded 2 d = padded 2 d'
      \<and> padded 2 (?s div 3600) = padded 2 (?s' div 3600) \<and> padded 2 (?s mod 3600 div 60) = padded 2 (?s' mod 3600 div 60)
      \<and> padded 2 (?s mod 60) = padded 2 (?s' mod 60) \<and> ?tail (n mod 1000000) = ?tail (n' mod 1000000)"
    by (rule iffD1 [OF iso_fields [OF length_padded_eq length_padded_eq length_padded_eq length_padded_eq length_padded_eq
        length_padded_eq]])
  note p = conjunct1 [OF P]
    conjunct1 [OF conjunct2 [OF P]]
    conjunct1 [OF conjunct2 [OF conjunct2 [OF P]]]
    conjunct1 [OF conjunct2 [OF conjunct2 [OF conjunct2 [OF P]]]]
    conjunct1 [OF conjunct2 [OF conjunct2 [OF conjunct2 [OF conjunct2 [OF P]]]]]
    conjunct1 [OF conjunct2 [OF conjunct2 [OF conjunct2 [OF conjunct2 [OF conjunct2 [OF P]]]]]]
    conjunct2 [OF conjunct2 [OF conjunct2 [OF conjunct2 [OF conjunct2 [OF conjunct2 [OF P]]]]]]
  have w: "(10::nat) ^ 4 = 10000" "(10::nat) ^ 2 = 100" by simp_all
  have ymd: "(y, m, d) = (y', m', d')"
    using p(1-3) padded_eq_iff [of y 4 y'] padded_eq_iff [of m 2 m'] padded_eq_iff [of d 2 d'] r unfolding w by blast
  have clock: "?s div 3600 = ?s' div 3600" "?s mod 3600 div 60 = ?s' mod 3600 div 60" "?s mod 60 = ?s' mod 60"
    using p(4) p(5) p(6) padded_eq_iff [of "?s div 3600" 2 "?s' div 3600"] padded_eq_iff [of "?s mod 3600 div 60" 2 "?s' mod 3600 div 60"]
      padded_eq_iff [of "?s mod 60" 2 "?s' mod 60"] c unfolding w by blast+
  have frac: "n mod 1000000 = n' mod 1000000" using isoformat_tail [OF f] p(7) by blast
  from ymd have "n div 1000000 div 86400 = n' div 1000000 div 86400" using date date' civil_date_eq_iff by metis
  moreover have "?s = ?s'" using clock clock_eq_iff [of ?s ?s'] by simp
  ultimately have "n div 1000000 = n' div 1000000" by (metis div_mult_mod_eq)
  with frac have "n = n'" by (metis div_mult_mod_eq)
  moreover have "0 \<le> at + int epoch_days * 86400000000" "0 \<le> at' + int epoch_days * 86400000000"
    using assms by (simp_all add: representable_def epoch_days_def)
  ultimately show "at = at'" by (simp add: n_def n'_def eq_nat_nat_iff)
qed simp

end
