(* ===== verification/Payme_Rules.thy ===== *)
theory Payme_Rules
  imports Wire_Clock Py_Text
begin

text \<open>
  The wire vocabulary of the Payme Merchant API (\<^verbatim>\<open>src/src/bayram/payme/protocol.py\<close>) and the pure
  rules over it (\<^verbatim>\<open>payme/rules.py\<close>, \<^verbatim>\<open>payme/errors.py\<close>): methods, error codes, states and reasons with
  their numbers, the two JSON-RPC envelopes, the localised account messages, when a transaction has
  expired, and which account fault a finished intent answers with.
\<close>

section \<open>Methods, codes and states\<close>

datatype payme_method =
    CheckPerformTransaction | CreateTransaction | PerformTransaction | CancelTransaction
  | CheckTransaction | GetStatement | ChangePassword

fun method_name :: "payme_method \<Rightarrow> pystr" where
  "method_name CheckPerformTransaction = ustr ''CheckPerformTransaction''"
| "method_name CreateTransaction = ustr ''CreateTransaction''"
| "method_name PerformTransaction = ustr ''PerformTransaction''"
| "method_name CancelTransaction = ustr ''CancelTransaction''"
| "method_name CheckTransaction = ustr ''CheckTransaction''"
| "method_name GetStatement = ustr ''GetStatement''"
| "method_name ChangePassword = ustr ''ChangePassword''"

definition payme_methods :: "payme_method list" where
  "payme_methods = [CheckPerformTransaction, CreateTransaction, PerformTransaction, CancelTransaction,
     CheckTransaction, GetStatement, ChangePassword]"

text \<open>\<^verbatim>\<open>PaymeMethod(name)\<close> for a name of \<^verbatim>\<open>_METHOD_NAMES\<close>.\<close>

definition method_of_name :: "pystr \<Rightarrow> payme_method option" where
  "method_of_name name = find (\<lambda>m. method_name m = name) payme_methods"

datatype payme_error_code =
    Transport | Parse | Envelope | Method_Not_Found | Internal | Unauthorised
  | Wrong_Amount | Transaction_Not_Found | Order_Delivered | State_Refusal
  | Account_Unknown | Account_Already_Paid | Account_Cancelled | Account_Expired | Account_Wrong_Merchant

fun error_code :: "payme_error_code \<Rightarrow> int" where
  "error_code Transport = -32300"
| "error_code Parse = -32700"
| "error_code Envelope = -32600"
| "error_code Method_Not_Found = -32601"
| "error_code Internal = -32400"
| "error_code Unauthorised = -32504"
| "error_code Wrong_Amount = -31001"
| "error_code Transaction_Not_Found = -31003"
| "error_code Order_Delivered = -31007"
| "error_code State_Refusal = -31008"
| "error_code Account_Unknown = -31050"
| "error_code Account_Already_Paid = -31051"
| "error_code Account_Cancelled = -31052"
| "error_code Account_Expired = -31053"
| "error_code Account_Wrong_Merchant = -31055"

fun wire_state :: "payme_state \<Rightarrow> int" where
  "wire_state Payme_CREATED = 1"
| "wire_state Payme_PERFORMED = 2"
| "wire_state Payme_CANCELLED = -1"
| "wire_state Payme_CANCELLED_AFTER_PERFORM = -2"

datatype cancel_reason =
    Receiver_Missing | Debit_Error | Execution_Error | Timeout | Refund | Unknown

fun reason_code :: "cancel_reason \<Rightarrow> int" where
  "reason_code Receiver_Missing = 1"
| "reason_code Debit_Error = 2"
| "reason_code Execution_Error = 3"
| "reason_code Timeout = 4"
| "reason_code Refund = 5"
| "reason_code Unknown = 10"

definition default_account_field :: pystr where "default_account_field = ustr ''order_id''"

section \<open>JSON and the two envelopes\<close>

record rpc_request =
  rq_method :: pystr
  rq_params :: "(pystr \<times> json) list"
  rq_id :: int

definition json_id :: "int option \<Rightarrow> json" where
  "json_id i = (case i of None \<Rightarrow> JNull | Some n \<Rightarrow> JInt n)"

definition render_success :: "(pystr \<times> json) list \<Rightarrow> int option \<Rightarrow> json" where
  "render_success result request_id =
     JObject [(ustr ''jsonrpc'', JString (ustr ''2.0'')), (ustr ''id'', json_id request_id),
       (ustr ''result'', JObject result)]"

text \<open>A message is text, or one text per language.\<close>

datatype rpc_message = Plain pystr | Localised "(pystr \<times> pystr) list"

definition message_payload :: "rpc_message \<Rightarrow> json" where
  "message_payload m =
     (case m of Plain s \<Rightarrow> JString s | Localised xs \<Rightarrow> JObject (map (\<lambda>(k, s). (k, JString s)) xs))"

definition render_fault :: "int \<Rightarrow> rpc_message \<Rightarrow> int option \<Rightarrow> pystr option \<Rightarrow> json" where
  "render_fault code message request_id payload =
     JObject [(ustr ''jsonrpc'', JString (ustr ''2.0'')), (ustr ''id'', json_id request_id),
       (ustr ''error'', JObject
          ([(ustr ''code'', JInt code), (ustr ''message'', message_payload message)]
           @ (case payload of None \<Rightarrow> [] | Some s \<Rightarrow> [(ustr ''data'', JString s)])))]"

definition localised :: "pystr \<Rightarrow> pystr \<Rightarrow> pystr \<Rightarrow> rpc_message" where
  "localised ru uz en = Localised [(ustr ''ru'', ru), (ustr ''uz'', uz), (ustr ''en'', en)]"

fun account_messages :: "payme_error_code \<Rightarrow> rpc_message option" where
  "account_messages Account_Unknown = Some (localised
     ([1047, 1072, 1082, 1072, 1079, 32, 1085, 1077, 32, 1085, 1072, 1081, 1076, 1077, 1085])
     (ustr ''Buyurtma topilmadi'')
     (ustr ''Order not found''))"
| "account_messages Account_Already_Paid = Some (localised
     ([1047, 1072, 1082, 1072, 1079, 32, 1091, 1078, 1077, 32, 1086, 1087, 1083, 1072, 1095, 1077,
       1085])
     (ustr ''Buyurtma allaqachon to'' @ [699] @ ustr ''langan'')
     (ustr ''This order has already been paid''))"
| "account_messages Account_Cancelled = Some (localised
     ([1047, 1072, 1082, 1072, 1079, 32, 1086, 1090, 1084, 1077, 1085, 1105, 1085])
     (ustr ''Buyurtma bekor qilingan'')
     (ustr ''This order was cancelled''))"
| "account_messages Account_Expired = Some (localised
     ([1057, 1088, 1086, 1082, 32, 1076, 1077, 1081, 1089, 1090, 1074, 1080, 1103, 32, 1079, 1072,
       1082, 1072, 1079, 1072, 32, 1080, 1089, 1090, 1105, 1082])
     (ustr ''Buyurtma muddati tugagan'')
     (ustr ''This order has expired''))"
| "account_messages Account_Wrong_Merchant = Some (localised
     ([1047, 1072, 1082, 1072, 1079, 32, 1086, 1092, 1086, 1088, 1084, 1083, 1077, 1085, 32, 1076,
       1083, 1103, 32, 1076, 1088, 1091, 1075, 1086, 1081, 32, 1082, 1072, 1089, 1089, 1099])
     (ustr ''Buyurtma boshqa kassa uchun rasmiylashtirilgan'')
     (ustr ''This order was issued for a different cashbox''))"
| "account_messages _ = None"

section \<open>The rules\<close>

definition default_transaction_timeout_ms :: int where "default_transaction_timeout_ms = 43200000"

definition is_expired :: "instant \<Rightarrow> instant \<Rightarrow> int \<Rightarrow> bool" where
  "is_expired payme_time now timeout_ms = (to_ms now - to_ms payme_time > timeout_ms)"

definition missing_time :: int where "missing_time = 0"

definition wire_time :: "instant option \<Rightarrow> int" where
  "wire_time moment = (case moment of None \<Rightarrow> missing_time | Some t \<Rightarrow> to_ms t)"

fun account_fault_for :: "payment_intent_state \<Rightarrow> payme_error_code option" where
  "account_fault_for Intent_PAID = Some Account_Already_Paid"
| "account_fault_for Intent_CANCELLED = Some Account_Cancelled"
| "account_fault_for Intent_EXPIRED = Some Account_Expired"
| "account_fault_for Intent_PENDING = None"
| "account_fault_for Intent_AWAITING = None"

section \<open>Errors of the rail\<close>

text \<open>\<^verbatim>\<open>rpc_code\<close> of a \<^verbatim>\<open>PaymeFault\<close>; an error of another family has none.\<close>

fun rpc_code :: "bayram_error \<Rightarrow> int option" where
  "rpc_code (PaymeAmountMismatch _) = Some (error_code Wrong_Amount)"
| "rpc_code (PaymeTransactionNotFound _) = Some (error_code Transaction_Not_Found)"
| "rpc_code (PaymeOrderDelivered _) = Some (error_code Order_Delivered)"
| "rpc_code (PaymeStateRefusal _ c) = Some c"
| "rpc_code (PaymeAccountFault _ c _) = Some c"
| "rpc_code _ = None"

section \<open>What the rules give\<close>

lemma method_of_name_Some: "method_of_name name = Some m \<longleftrightarrow> name = method_name m"
  by (cases m) (auto simp: method_of_name_def payme_methods_def split: if_splits)

text \<open>The window closes strictly after its last millisecond, and stays closed.\<close>

lemma is_expired_window:
  assumes "in_clock_window p" "in_clock_window now" "1000 dvd p"
  shows "is_expired p now timeout \<longleftrightarrow> now \<ge> p + 1000 * (timeout + 1)"
proof -
  have "to_ms now = now div 1000" "to_ms p = p div 1000"
    using assms(1,2) by (simp_all add: to_ms_exact)
  moreover obtain q where "p = 1000 * q" using assms(3) by (auto simp: dvd_def)
  ultimately show ?thesis by (simp add: is_expired_def) linarith
qed

lemma is_expired_mono:
  assumes "in_clock_window now" "in_clock_window later" "now \<le> later" "is_expired p now timeout"
  shows "is_expired p later timeout"
proof -
  have "to_ms now \<le> to_ms later" using assms(1-3) by (simp add: to_ms_exact zdiv_mono1)
  then show ?thesis using assms(4) by (simp add: is_expired_def)
qed

lemma account_fault_for_None: "account_fault_for s = None \<longleftrightarrow> s = Intent_PENDING \<or> s = Intent_AWAITING"
  by (cases s) simp_all

end
