(* ===== verification/Entitlements.thy ===== *)
theory Entitlements
  imports Db_Tables
begin

text \<open>
  The credit policy and its clock (\<^verbatim>\<open>src/src/bayram/entitlements.py\<close>): the policy value object and
  its constructor's refusals, the derivation of a policy from a settings object, the settlement
  grace, and the fixed allowance windows counted from the epoch.
\<close>

section \<open>Policy\<close>

record entitlement_policy =
  allowance_credits :: int
  allowance_period_days :: int
  max_orders_in_flight :: int
  settlement_grace_s :: int
  is_balance_enforced :: bool

definition policy_post_init :: "entitlement_policy \<Rightarrow> string + entitlement_policy" where
  "policy_post_init p =
     (if allowance_period_days p < 1 then Inl ''allowance_period_days must be at least 1 day''
      else if allowance_credits p < 0 \<or> max_orders_in_flight p < 1
        then Inl ''an allowance cannot be negative and at least one order must be permitted''
      else if settlement_grace_s p < 1 then Inl ''settlement_grace_s must be positive''
      else Inr p)"

text \<open>
  \<^verbatim>\<open>derive_settlement_grace_s\<close>: the ladder's worst case, \<open>max_tries\<close> timeouts and the growing
  deferrals between them, rounded up. The two float parameters are exact rationals here, given as
  a numerator over the common denominator \<open>den\<close>.
\<close>

definition derive_settlement_grace_s :: "int \<Rightarrow> int \<Rightarrow> int \<Rightarrow> int \<Rightarrow> int" where
  "derive_settlement_grace_s den job_timeout max_tries backoff_base =
     - ((- (2 * job_timeout * max_tries + backoff_base * (max_tries - 1) * max_tries)) div (2 * den))"

definition default_settlement_grace_s :: int where
  "default_settlement_grace_s = derive_settlement_grace_s 1 900 5 5"

definition default_entitlement_policy :: entitlement_policy where
  "default_entitlement_policy = \<lparr>allowance_credits = 3, allowance_period_days = 30,
     max_orders_in_flight = 1, settlement_grace_s = default_settlement_grace_s,
     is_balance_enforced = True\<rparr>"

text \<open>
  A settings attribute as \<^verbatim>\<open>getattr(settings, name, None)\<close> delivers it: a float is a numerator over
  the model's denominator, and everything else is \<open>OtherValue\<close>.
\<close>

datatype attr = Absent | BoolValue bool | IntValue int | FloatValue int | OtherValue

fun flag_attr :: "attr \<Rightarrow> bool" where
  "flag_attr (BoolValue b) = b"
| "flag_attr _ = True"

fun positive_number_attr :: "int \<Rightarrow> attr \<Rightarrow> int option" where
  "positive_number_attr den (IntValue i) = (if i \<le> 0 then None else Some (i * den))"
| "positive_number_attr den (FloatValue n) = (if n \<le> 0 then None else Some n)"
| "positive_number_attr den _ = None"

fun positive_int_attr :: "attr \<Rightarrow> int option" where
  "positive_int_attr (IntValue i) = (if i < 1 then None else Some i)"
| "positive_int_attr _ = None"

fun non_negative_int_attr :: "attr \<Rightarrow> int option" where
  "non_negative_int_attr (IntValue i) = (if i < 0 then None else Some i)"
| "non_negative_int_attr _ = None"

record entitlement_settings =
  se_credits_enforced :: attr
  se_free_allowance_credits :: attr
  se_settlement_grace_s :: attr
  se_queue_job_timeout_s :: attr
  se_provider_backoff_base_s :: attr
  se_queue_max_tries :: attr

definition resolve_entitlement_policy :: "int \<Rightarrow> entitlement_settings option \<Rightarrow> entitlement_policy" where
  "resolve_entitlement_policy den settings =
     (case settings of
        None \<Rightarrow> default_entitlement_policy
      | Some s \<Rightarrow>
         (let base = default_entitlement_policy
                       \<lparr>is_balance_enforced := flag_attr (se_credits_enforced s)\<rparr>;
              base = (case non_negative_int_attr (se_free_allowance_credits s) of
                        None \<Rightarrow> base | Some a \<Rightarrow> base\<lparr>allowance_credits := a\<rparr>)
          in case positive_int_attr (se_settlement_grace_s s) of
               Some override \<Rightarrow> base\<lparr>settlement_grace_s := override\<rparr>
             | None \<Rightarrow>
                (case (positive_number_attr den (se_queue_job_timeout_s s),
                       positive_number_attr den (se_provider_backoff_base_s s),
                       positive_int_attr (se_queue_max_tries s)) of
                   (Some timeout, Some backoff, Some tries) \<Rightarrow>
                     base\<lparr>settlement_grace_s := derive_settlement_grace_s den timeout tries backoff\<rparr>
                 | _ \<Rightarrow> base)))"

section \<open>Allowance windows\<close>

definition us_per_day :: int where
  "us_per_day = 86400000000"

definition us_per_second :: int where
  "us_per_second = 1000000"

definition period_index_for :: "instant \<Rightarrow> int \<Rightarrow> int" where
  "period_index_for now period_days = (now div us_per_day) div period_days"

definition period_start :: "int \<Rightarrow> int \<Rightarrow> instant" where
  "period_start index period_days = index * period_days * us_per_day"

section \<open>Properties\<close>

lemma policy_post_init_Inr:
  "policy_post_init p = Inr q \<longleftrightarrow> q = p \<and> 1 \<le> allowance_period_days p \<and> 0 \<le> allowance_credits p
     \<and> 1 \<le> max_orders_in_flight p \<and> 1 \<le> settlement_grace_s p"
  by (auto simp: policy_post_init_def)

lemma neg_div_pos: "0 < b \<Longrightarrow> 0 < (a::int) \<Longrightarrow> 1 \<le> - (- a div b)"
  using div_neg_pos_less0 [of "- a" b] by linarith

lemma derive_settlement_grace_pos:
  assumes "0 < den" "0 < t" "0 < n" "0 < b"
  shows "1 \<le> derive_settlement_grace_s den t n b"
proof -
  have "0 < 2 * t * n + b * (n - 1) * n"
    using assms by (simp add: add_pos_nonneg)
  then show ?thesis
    unfolding derive_settlement_grace_s_def using assms(1) by (intro neg_div_pos) auto
qed

text \<open>
  The grace covers the whole retry ladder: scaled back, it is never below the sum of the timeouts
  and the deferrals \<open>backoff * k\<close> before retry \<open>k\<close>.
\<close>

lemma derive_settlement_grace_covers:
  assumes "0 < den"
  shows "2 * t * n + b * (n - 1) * n \<le> 2 * den * derive_settlement_grace_s den t n b"
proof -
  define x where "x = 2 * t * n + b * (n - 1) * n"
  have "(- x) div (2 * den) * (2 * den) \<le> - x"
    using assms by (metis div_times_less_eq_dividend mult.commute mult_pos_pos zero_less_numeral
        div_mult_mod_eq le_add_same_cancel1 pos_mod_sign)
  then show ?thesis
    unfolding derive_settlement_grace_s_def x_def by (simp add: algebra_simps)
qed

lemma resolve_policy_accepted:
  assumes "0 < den"
  shows "policy_post_init (resolve_entitlement_policy den settings)
    = Inr (resolve_entitlement_policy den settings)"
proof -
  have d: "1 \<le> default_settlement_grace_s"
    unfolding default_settlement_grace_s_def by (rule derive_settlement_grace_pos) simp_all
  have i: "\<And>a v. positive_int_attr a = Some v \<Longrightarrow> 1 \<le> v"
    by (case_tac a) (auto split: if_splits)
  have n: "\<And>a v. positive_number_attr den a = Some v \<Longrightarrow> 0 < v"
    using assms by (case_tac a) (auto split: if_splits)
  have z: "\<And>a v. non_negative_int_attr a = Some v \<Longrightarrow> 0 \<le> v"
    by (case_tac a) (auto split: if_splits)
  show ?thesis
    by (auto simp: resolve_entitlement_policy_def policy_post_init_Inr default_entitlement_policy_def
        Let_def d dest: i n z split: option.splits
        intro!: derive_settlement_grace_pos assms)
qed

text \<open>A window starts at its own start and holds every moment up to the next one.\<close>

lemma period_window:
  assumes "1 \<le> days"
  shows "period_index_for now days = index
    \<longleftrightarrow> period_start index days \<le> now \<and> now < period_start (index + 1) days"
proof -
  have pos: "0 < us_per_day * days" using assms by (simp add: us_per_day_def)
  have eq: "period_index_for now days = now div (us_per_day * days)"
    unfolding period_index_for_def using assms by (simp add: zdiv_zmult2_eq us_per_day_def)
  have s: "\<And>k. period_start k days = k * (us_per_day * days)"
    by (simp add: period_start_def algebra_simps)
  show ?thesis
  proof
    assume "period_index_for now days = index"
    then have "index = now div (us_per_day * days)" by (simp add: eq)
    moreover have "now = now div (us_per_day * days) * (us_per_day * days) + now mod (us_per_day * days)"
      by (rule div_mult_mod_eq [symmetric])
    ultimately show "period_start index days \<le> now \<and> now < period_start (index + 1) days"
      using pos_mod_sign [OF pos, of now] pos_mod_bound [OF pos, of now]
      unfolding s by (simp add: distrib_right)
  next
    assume a: "period_start index days \<le> now \<and> now < period_start (index + 1) days"
    then have "now = index * (us_per_day * days) + (now - index * (us_per_day * days))"
      and "0 \<le> now - index * (us_per_day * days)"
      and "now - index * (us_per_day * days) < us_per_day * days"
      unfolding s by (simp_all add: distrib_right)
    then show "period_index_for now days = index"
      unfolding eq by (metis int_div_pos_eq mult.commute)
  qed
qed

lemma period_index_mono:
  "1 \<le> days \<Longrightarrow> now \<le> later \<Longrightarrow> period_index_for now days \<le> period_index_for later days"
  by (simp add: period_index_for_def zdiv_mono1 us_per_day_def)

end
