(* ===== verification/Credit_Sql.thy ===== *)
theory Credit_Sql
  imports Entitlements
begin

text \<open>
  The statements of \<^verbatim>\<open>src/src/bayram/db/credit_sql.py\<close> and \<^verbatim>\<open>db/plan_sql.py\<close> over the tables: reading
  an account, an order's net position and generation, the in-flight count, the balance the customer
  is shown, writing a ledger entry, moving a balance, the stale debits the sweep closes and the
  audit \<open>verify_balances\<close>; then how each of them moves the balance and the ledger total.
\<close>

section \<open>Reads\<close>

definition account_row :: "db \<Rightarrow> int \<Rightarrow> credit_account_row option" where
  "account_row d uid = select_one ac_telegram_user_id uid (accounts d)"

definition account_state :: "db \<Rightarrow> int \<Rightarrow> int \<times> int option" where
  "account_state d uid =
     (case account_row d uid of
        None \<Rightarrow> (0, None)
      | Some a \<Rightarrow> (ac_balance a, ac_allowance_period_index a))"

definition account_exists :: "db \<Rightarrow> int \<Rightarrow> bool" where
  "account_exists d uid = (account_row d uid \<noteq> None)"

definition period_grant_key :: "int \<Rightarrow> int \<Rightarrow> pystr" where
  "period_grant_key uid index = ustr ''grant:period:'' @ str_int uid @ ustr '':'' @ str_int index"

definition ledger_by_key :: "db \<Rightarrow> pystr \<Rightarrow> credit_ledger_row option" where
  "ledger_by_key d key = select_one cl_idempotency_key key (ledger d)"

definition has_period_grant :: "db \<Rightarrow> int \<Rightarrow> int \<Rightarrow> bool" where
  "has_period_grant d uid index = (ledger_by_key d (period_grant_key uid index) \<noteq> None)"

definition is_blocked :: "db \<Rightarrow> int \<Rightarrow> bool" where
  "is_blocked d uid =
     (case select_one us_telegram_user_id uid (users d) of None \<Rightarrow> False | Some r \<Rightarrow> us_is_blocked r)"

definition net_position :: "db \<Rightarrow> uuid \<Rightarrow> int" where
  "net_position d order = sum_list (map cl_delta (filter (\<lambda>r. cl_order_id r = Some order) (ledger d)))"

definition generation_for :: "db \<Rightarrow> uuid \<Rightarrow> nat" where
  "generation_for d order = rowcount (\<lambda>r. cl_order_id r = Some order \<and> cl_kind r = REFUND) (ledger d)"

definition settling_kinds :: "credit_entry_kind list" where
  "settling_kinds = [CONSUME, REFUND]"

text \<open>\<^verbatim>\<open>is_settled\<close>: an entry of the same order and generation closes the debit; \<^verbatim>\<open>NULL\<close> equals nothing.\<close>

definition is_settled :: "db \<Rightarrow> credit_ledger_row \<Rightarrow> bool" where
  "is_settled d debit \<longleftrightarrow>
     list_ex (\<lambda>s. cl_order_id s \<noteq> None \<and> cl_order_id s = cl_order_id debit
        \<and> cl_generation s = cl_generation debit \<and> cl_kind s \<in> set settling_kinds) (ledger d)"

definition count_in_flight :: "db \<Rightarrow> int \<Rightarrow> instant \<Rightarrow> uuid option \<Rightarrow> int" where
  "count_in_flight d uid cutoff exclude =
     int (rowcount (\<lambda>r. cl_telegram_user_id r = Some uid \<and> cl_kind r = DEBIT \<and> cl_created_at r \<ge> cutoff
        \<and> \<not> is_settled d r
        \<and> (case exclude of None \<Rightarrow> True
           | Some x \<Rightarrow> cl_order_id r \<noteq> None \<and> cl_order_id r \<noteq> Some x)) (ledger d))"

section \<open>Plans\<close>

definition current_plan :: "db \<Rightarrow> int \<Rightarrow> instant \<Rightarrow> plan_purchase_row option" where
  "current_plan d uid now = first_desc pp_plan_ends_at
     (filter (\<lambda>p. pp_telegram_user_id p = Some uid \<and> pp_plan_ends_at p > now) (plans d))"

definition live_plan :: "db \<Rightarrow> int \<Rightarrow> instant \<Rightarrow> plan_purchase_row option" where
  "live_plan d uid now = first_desc pp_plan_ends_at
     (filter (\<lambda>p. pp_telegram_user_id p = Some uid \<and> pp_plan_ends_at p > now
        \<and> pp_songs_used p < pp_songs_included p) (plans d))"

definition plan_by_key :: "db \<Rightarrow> pystr \<Rightarrow> plan_purchase_row option" where
  "plan_by_key d key = select_one pp_idempotency_key key (plans d)"

text \<open>The claim names the count it read, so two renders cannot take the same song.\<close>

definition claim_plan_song :: "db \<Rightarrow> uuid \<Rightarrow> int \<Rightarrow> instant \<Rightarrow> bool \<times> db" where
  "claim_plan_song d plan_id songs_used server_now =
     (let p = (\<lambda>r. pp_id r = plan_id \<and> pp_songs_used r = songs_used)
      in (rowcount p (plans d) = 1,
          d\<lparr>plans := sql_update p
              (\<lambda>r. r\<lparr>pp_songs_used := pp_songs_used r + 1, pp_updated_at := server_now\<rparr>) (plans d)\<rparr>))"

definition insert_plan ::
    "db \<Rightarrow> uuid \<Rightarrow> int \<Rightarrow> plan_kind \<Rightarrow> int \<Rightarrow> int \<Rightarrow> pystr \<Rightarrow> pystr \<Rightarrow> pystr \<Rightarrow> pystr \<Rightarrow> instant \<Rightarrow> instant
      \<Rightarrow> (db, uuid option) outcome" where
  "insert_plan d plan_id uid plan songs_included amount_minor currency provider reference key ends_at now =
     (case insert_or_ignore plan_checks pp_idempotency_key (\<lambda>r s. pp_id s = pp_id r)
        \<lparr>pp_id = plan_id, pp_telegram_user_id = Some uid, pp_plan = plan,
         pp_songs_included = songs_included, pp_songs_used = 0, pp_amount_minor = amount_minor,
         pp_currency = currency, pp_provider = provider, pp_reference = reference,
         pp_idempotency_key = key, pp_plan_ends_at = ends_at, pp_created_at = now,
         pp_updated_at = now\<rparr> (plans d) of
        Inl e \<Rightarrow> Inl e
      | Inr (written, rows) \<Rightarrow> Inr (if written then Some plan_id else None, d\<lparr>plans := rows\<rparr>))"

definition anonymise_plans :: "db \<Rightarrow> int \<Rightarrow> nat \<times> db" where
  "anonymise_plans d uid =
     (rowcount (\<lambda>r. pp_telegram_user_id r = Some uid) (plans d),
      d\<lparr>plans := sql_update (\<lambda>r. pp_telegram_user_id r = Some uid)
          (\<lambda>r. r\<lparr>pp_telegram_user_id := None\<rparr>) (plans d)\<rparr>)"

section \<open>The balance a customer is shown\<close>

record credit_balance =
  cb_telegram_user_id :: int
  cb_credits :: int
  cb_in_flight :: int
  cb_is_blocked :: bool
  cb_plan_songs_left :: int
  cb_plan_ends_at :: "instant option"

definition read_balance ::
    "db \<Rightarrow> int \<Rightarrow> instant \<Rightarrow> entitlement_policy \<Rightarrow> uuid option \<Rightarrow> credit_balance" where
  "read_balance d uid now policy exclude =
     (let (balance, minted_index) = account_state d uid;
          current_index = period_index_for now (allowance_period_days policy);
          is_due = (case minted_index of None \<Rightarrow> True | Some m \<Rightarrow> m < current_index)
                     \<and> \<not> has_period_grant d uid current_index;
          (plan_songs_left, plan_ends_at) =
            (case live_plan d uid now of
               None \<Rightarrow> (0, map_option pp_plan_ends_at (current_plan d uid now))
             | Some plan \<Rightarrow> (pp_songs_included plan - pp_songs_used plan, Some (pp_plan_ends_at plan)))
      in \<lparr>cb_telegram_user_id = uid,
          cb_credits = balance + (if is_due then allowance_credits policy else 0) + plan_songs_left,
          cb_in_flight = count_in_flight d uid (now - settlement_grace_s policy * us_per_second) exclude,
          cb_is_blocked = is_blocked d uid,
          cb_plan_songs_left = plan_songs_left,
          cb_plan_ends_at = plan_ends_at\<rparr>)"

section \<open>Writes\<close>

definition actor_length :: nat where "actor_length = 32"

definition write_entry ::
    "db \<Rightarrow> int \<Rightarrow> credit_entry_kind \<Rightarrow> credit_reason \<Rightarrow> int \<Rightarrow> pystr \<Rightarrow> pystr \<Rightarrow> instant
      \<Rightarrow> uuid option \<Rightarrow> nat \<Rightarrow> (db, bool) outcome" where
  "write_entry d uid kind reason delta key actor now order generation =
     (case insert_or_ignore delta_matches_kind cl_idempotency_key no_clash
        \<lparr>cl_telegram_user_id = Some uid, cl_kind = kind, cl_reason = reason, cl_delta = delta,
         cl_order_id = order, cl_generation = generation, cl_idempotency_key = key,
         cl_actor = take actor_length actor, cl_created_at = now\<rparr> (ledger d) of
        Inl e \<Rightarrow> Inl e
      | Inr (written, rows) \<Rightarrow> Inr (written, d\<lparr>ledger := rows\<rparr>))"

text \<open>An update of the accounts is refused by the table when a row it wrote has a negative balance.\<close>

definition update_accounts ::
    "(credit_account_row \<Rightarrow> bool) \<Rightarrow> (credit_account_row \<Rightarrow> credit_account_row) \<Rightarrow> db \<Rightarrow> (db, bool) outcome" where
  "update_accounts p f d =
     (if list_ex (\<lambda>a. p a \<and> \<not> balance_not_negative (f a)) (accounts d) then Inl IntegrityError
      else Inr (rowcount p (accounts d) = 1, d\<lparr>accounts := sql_update p f (accounts d)\<rparr>))"

definition debit_balance :: "db \<Rightarrow> int \<Rightarrow> int \<Rightarrow> instant \<Rightarrow> (db, bool) outcome" where
  "debit_balance d uid cost now =
     update_accounts (\<lambda>a. ac_telegram_user_id a = uid \<and> ac_balance a \<ge> cost)
       (\<lambda>a. a\<lparr>ac_balance := ac_balance a - cost, ac_updated_at := now\<rparr>) d"

definition add_credits ::
    "db \<Rightarrow> int \<Rightarrow> int \<Rightarrow> int \<Rightarrow> instant \<Rightarrow> int option \<Rightarrow> (db, unit) outcome" where
  "add_credits d uid credits lifetime now period_index =
     tx_then
       (update_accounts (\<lambda>a. ac_telegram_user_id a = uid)
          (\<lambda>a. a\<lparr>ac_balance := ac_balance a + credits,
                 ac_lifetime_granted := ac_lifetime_granted a + lifetime,
                 ac_allowance_period_index :=
                   (case period_index of None \<Rightarrow> ac_allowance_period_index a | Some i \<Rightarrow> Some i),
                 ac_updated_at := now\<rparr>) d)
       (\<lambda>moved d. if moved then Inr ((), d)
          else Inl (Raised (StorageError ''credit account disappeared while being credited'')))"

definition open_account :: "db \<Rightarrow> int \<Rightarrow> instant \<Rightarrow> (db, bool) outcome" where
  "open_account d uid now =
     (case insert_or_ignore balance_not_negative ac_telegram_user_id no_clash
        \<lparr>ac_telegram_user_id = uid, ac_balance = 0, ac_lifetime_granted = 0,
         ac_allowance_period_index = None, ac_created_at = now, ac_updated_at = now\<rparr> (accounts d) of
        Inl e \<Rightarrow> Inl e
      | Inr (written, rows) \<Rightarrow> Inr (written, d\<lparr>accounts := rows\<rparr>))"

section \<open>The sweep's query and the audit\<close>

record stale_debit =
  sd_telegram_user_id :: int
  sd_order_id :: uuid
  sd_order_state :: "order_state option"

definition dead_order_states :: "order_state list" where
  "dead_order_states = [CANCELLED]"

definition order_row_of :: "db \<Rightarrow> uuid \<Rightarrow> order_row option" where
  "order_row_of d oid = select_one or_id oid (orders d)"

definition is_stale :: "db \<Rightarrow> instant \<Rightarrow> credit_ledger_row \<Rightarrow> bool" where
  "is_stale d cutoff r \<longleftrightarrow> cl_kind r = DEBIT \<and> cl_telegram_user_id r \<noteq> None \<and> \<not> is_settled d r
     \<and> (case cl_order_id r of
          None \<Rightarrow> False
        | Some oid \<Rightarrow>
            (case order_row_of d oid of
               None \<Rightarrow> cl_created_at r \<le> cutoff
             | Some ord \<Rightarrow> or_state ord \<in> set dead_order_states
                 \<or> (cl_created_at r \<le> cutoff \<and> or_updated_at ord \<le> cutoff)))"

text \<open>Ties in \<^verbatim>\<open>created_at\<close> are broken by the key; the table order stands for that tie-break here.\<close>

definition stale_debits :: "db \<Rightarrow> instant \<Rightarrow> nat \<Rightarrow> stale_debit list" where
  "stale_debits d cutoff limit =
     map (\<lambda>r. \<lparr>sd_telegram_user_id = the (cl_telegram_user_id r), sd_order_id = the (cl_order_id r),
               sd_order_state = map_option or_state (order_row_of d (the (cl_order_id r)))\<rparr>)
       (limit_asc cl_created_at limit (filter (is_stale d cutoff) (ledger d)))"

record balance_drift =
  bd_telegram_user_id :: int
  bd_balance :: int
  bd_ledger_total :: int

definition ledger_total :: "db \<Rightarrow> int \<Rightarrow> int" where
  "ledger_total d uid =
     sum_list (map cl_delta (filter (\<lambda>r. cl_telegram_user_id r = Some uid) (ledger d)))"

definition ledger_only_drifts :: "db \<Rightarrow> balance_drift list" where
  "ledger_only_drifts d =
     map (\<lambda>uid. \<lparr>bd_telegram_user_id = uid, bd_balance = 0, bd_ledger_total = ledger_total d uid\<rparr>)
       (filter (\<lambda>uid. \<not> account_exists d uid \<and> ledger_total d uid \<noteq> 0)
         (remdups (List.map_filter cl_telegram_user_id (ledger d))))"

definition verify_balances :: "db \<Rightarrow> balance_drift list" where
  "verify_balances d =
     sort_key bd_telegram_user_id
       (map (\<lambda>a. \<lparr>bd_telegram_user_id = ac_telegram_user_id a, bd_balance = ac_balance a,
                  bd_ledger_total = ledger_total d (ac_telegram_user_id a)\<rparr>)
          (filter (\<lambda>a. ac_balance a \<noteq> ledger_total d (ac_telegram_user_id a)) (accounts d))
        @ ledger_only_drifts d)"

end
