(* ===== verification/Payme_Sql.thy ===== *)
theory Payme_Sql
  imports Payme_Rules Credit_Sql "HOL-Library.List_Lexorder" "HOL-Library.Product_Lexorder"
begin

text \<open>
  The statements of the Payme rail over the two tables (\<^verbatim>\<open>src/src/bayram/db/payme_sql.py\<close>): reads by
  each unique column, the sweeps' selections, the insert of an intent and of a transaction, and the
  conditional updates whose row count decides a race. No update of an intent can break the table's
  checks: amount and product are never written, and \<open>AWAITING\<close> is written with its holder.
\<close>

section \<open>Reads\<close>

definition intent_by_ref :: "db \<Rightarrow> pystr \<Rightarrow> payment_intent_row option" where
  "intent_by_ref d public_ref = select_one pi_public_ref public_ref (intents d)"

definition intent_by_key :: "db \<Rightarrow> pystr \<Rightarrow> payment_intent_row option" where
  "intent_by_key d key = select_one pi_idempotency_key key (intents d)"

definition intent_by_id :: "db \<Rightarrow> uuid \<Rightarrow> payment_intent_row option" where
  "intent_by_id d intent_id = select_one pi_id intent_id (intents d)"

definition transaction_by_payme_id :: "db \<Rightarrow> pystr \<Rightarrow> payme_transaction_row option" where
  "transaction_by_payme_id d payme_id = select_one pt_payme_transaction_id payme_id (transactions d)"

text \<open>\<^verbatim>\<open>GetStatement\<close>: the period is closed at both ends, ordered by the rail's clock, then by id.\<close>

definition transactions_in_period ::
    "db \<Rightarrow> instant \<Rightarrow> instant \<Rightarrow> (payme_transaction_row \<times> pystr \<times> product) list" where
  "transactions_in_period d frm to =
     concat (map (\<lambda>t. map (\<lambda>i. (t, pi_public_ref i, pi_product i))
                        (filter (\<lambda>i. pi_id i = pt_intent_id t) (intents d)))
       (sort_key (\<lambda>t. (pt_payme_time t, pt_id t))
         (filter (\<lambda>t. frm \<le> pt_payme_time t \<and> pt_payme_time t \<le> to) (transactions d))))"

definition transaction_count_for_intent :: "db \<Rightarrow> uuid \<Rightarrow> nat" where
  "transaction_count_for_intent d intent_id = rowcount (\<lambda>t. pt_intent_id t = intent_id) (transactions d)"

text \<open>A comparison with \<^verbatim>\<open>NULL\<close> is not true.\<close>

definition at_most :: "instant option \<Rightarrow> instant \<Rightarrow> bool" where
  "at_most t bound = (case t of None \<Rightarrow> False | Some x \<Rightarrow> x \<le> bound)"

definition at_least :: "instant option \<Rightarrow> instant \<Rightarrow> bool" where
  "at_least t bound = (case t of None \<Rightarrow> False | Some x \<Rightarrow> bound \<le> x)"

definition unnotified_settled_intents :: "db \<Rightarrow> instant \<Rightarrow> nat \<Rightarrow> payment_intent_row list" where
  "unnotified_settled_intents d older_than limit =
     limit_asc (\<lambda>i. case pi_settled_at i of Some t \<Rightarrow> t | None \<Rightarrow> 0) limit
       (filter (\<lambda>i. pi_state i = Intent_PAID \<and> pi_notified_at i = None
          \<and> pi_telegram_user_id i \<noteq> None \<and> at_most (pi_settled_at i) older_than) (intents d))"

definition lapsed_pending_intents :: "db \<Rightarrow> instant \<Rightarrow> nat \<Rightarrow> payment_intent_row list" where
  "lapsed_pending_intents d now limit =
     limit_asc pi_valid_until limit
       (filter (\<lambda>i. pi_state i = Intent_PENDING \<and> pi_valid_until i \<le> now) (intents d))"

definition stale_created_transactions :: "db \<Rightarrow> instant \<Rightarrow> nat \<Rightarrow> payme_transaction_row list" where
  "stale_created_transactions d cutoff limit =
     limit_asc pt_payme_time limit
       (filter (\<lambda>t. pt_state t = Payme_CREATED \<and> pt_payme_time t \<le> cutoff) (transactions d))"

definition settlement_counts :: "db \<Rightarrow> instant \<Rightarrow> instant \<Rightarrow> nat \<times> nat \<times> nat" where
  "settlement_counts d frm to =
     (let settled_keys = map pi_idempotency_key
            (filter (\<lambda>i. pi_state i = Intent_PAID \<and> at_least (pi_settled_at i) frm
               \<and> at_most (pi_settled_at i) to) (intents d));
          performed = rowcount (\<lambda>t. pt_state t = Payme_PERFORMED \<and> at_least (pt_perform_time t) frm
               \<and> at_most (pt_perform_time t) to) (transactions d);
          topups_n = rowcount (\<lambda>r. tp_idempotency_key r \<in> set settled_keys) (topups d);
          plans_n = rowcount (\<lambda>r. pp_idempotency_key r \<in> set settled_keys) (plans d);
          grants_n = rowcount (\<lambda>r. cl_kind r = GRANT \<and> cl_idempotency_key r \<in> set settled_keys) (ledger d)
      in (performed, topups_n + plans_n, grants_n))"

section \<open>Inserts\<close>

record intent_request =
  ir_telegram_user_id :: int
  ir_product :: product
  ir_amount_minor :: int
  ir_currency :: pystr
  ir_idempotency_key :: pystr
  ir_language :: pystr
  ir_merchant_id :: pystr
  ir_is_sandbox :: bool
  ir_plan_songs :: "int option"
  ir_plan_days :: "int option"
  ir_resume_order_id :: "uuid option"

definition intent_row ::
    "uuid \<Rightarrow> pystr \<Rightarrow> intent_request \<Rightarrow> pystr \<Rightarrow> instant \<Rightarrow> instant \<Rightarrow> payment_intent_row" where
  "intent_row intent_id public_ref r provider valid_until now =
     \<lparr>pi_id = intent_id, pi_public_ref = public_ref, pi_idempotency_key = ir_idempotency_key r,
      pi_telegram_user_id = Some (ir_telegram_user_id r), pi_product = ir_product r,
      pi_amount_minor = ir_amount_minor r, pi_currency = ir_currency r,
      pi_plan_songs = ir_plan_songs r, pi_plan_days = ir_plan_days r, pi_provider = provider,
      pi_merchant_id = ir_merchant_id r, pi_is_sandbox = ir_is_sandbox r,
      pi_language = ir_language r, pi_state = Intent_PENDING, pi_active_transaction_id = None,
      pi_valid_until = valid_until, pi_settled_at = None, pi_notified_at = None,
      pi_settle_note = None, pi_resume_order_id = ir_resume_order_id r, pi_resumed_at = None,
      pi_created_at = now, pi_updated_at = now\<rparr>"

definition insert_intent ::
    "db \<Rightarrow> uuid \<Rightarrow> pystr \<Rightarrow> intent_request \<Rightarrow> pystr \<Rightarrow> instant \<Rightarrow> instant \<Rightarrow> (db, bool) outcome" where
  "insert_intent d intent_id public_ref r provider valid_until now =
     (case insert_or_ignore intent_checks pi_idempotency_key
        (\<lambda>i j. pi_id j = pi_id i \<or> pi_public_ref j = pi_public_ref i)
        (intent_row intent_id public_ref r provider valid_until now) (intents d) of
        Inl e \<Rightarrow> Inl e
      | Inr (written, rows) \<Rightarrow> Inr (written, d\<lparr>intents := rows\<rparr>))"

definition insert_transaction ::
    "db \<Rightarrow> uuid \<Rightarrow> pystr \<Rightarrow> uuid \<Rightarrow> instant \<Rightarrow> int \<Rightarrow> instant \<Rightarrow> instant \<Rightarrow> (db, bool) outcome" where
  "insert_transaction d transaction_id payme_id intent_id payme_time amount create_time now =
     (case insert_or_ignore transaction_checks pt_payme_transaction_id (\<lambda>t u. pt_id u = pt_id t)
        \<lparr>pt_id = transaction_id, pt_payme_transaction_id = payme_id, pt_intent_id = intent_id,
         pt_payme_time = payme_time, pt_amount_minor = amount, pt_state = Payme_CREATED,
         pt_cancel_reason = None, pt_create_time = create_time, pt_perform_time = None,
         pt_cancel_time = None, pt_created_at = now, pt_updated_at = now\<rparr> (transactions d) of
        Inl e \<Rightarrow> Inl e
      | Inr (written, rows) \<Rightarrow> Inr (written, d\<lparr>transactions := rows\<rparr>))"

section \<open>Conditional updates\<close>

text \<open>An update of one table with the count it answers.\<close>

definition update_intents ::
    "(payment_intent_row \<Rightarrow> bool) \<Rightarrow> (payment_intent_row \<Rightarrow> payment_intent_row) \<Rightarrow> db \<Rightarrow> bool \<times> db" where
  "update_intents p f d = (rowcount p (intents d) = 1, d\<lparr>intents := sql_update p f (intents d)\<rparr>)"

definition update_transactions ::
    "(payme_transaction_row \<Rightarrow> bool) \<Rightarrow> (payme_transaction_row \<Rightarrow> payme_transaction_row) \<Rightarrow> db \<Rightarrow> bool \<times> db" where
  "update_transactions p f d =
     (rowcount p (transactions d) = 1, d\<lparr>transactions := sql_update p f (transactions d)\<rparr>)"

definition hold_intent :: "db \<Rightarrow> uuid \<Rightarrow> uuid \<Rightarrow> instant \<Rightarrow> bool \<times> db" where
  "hold_intent d intent_id transaction_id now =
     update_intents (\<lambda>i. pi_id i = intent_id \<and> pi_state i = Intent_PENDING)
       (\<lambda>i. i\<lparr>pi_state := Intent_AWAITING, pi_active_transaction_id := Some transaction_id,
              pi_updated_at := now\<rparr>) d"

definition release_intent :: "db \<Rightarrow> uuid \<Rightarrow> uuid \<Rightarrow> instant \<Rightarrow> bool \<times> db" where
  "release_intent d intent_id transaction_id now =
     update_intents (\<lambda>i. pi_id i = intent_id \<and> pi_state i = Intent_AWAITING
         \<and> pi_active_transaction_id i = Some transaction_id)
       (\<lambda>i. i\<lparr>pi_state := Intent_PENDING, pi_active_transaction_id := None, pi_updated_at := now\<rparr>) d"

definition claim_intent :: "db \<Rightarrow> uuid \<Rightarrow> uuid \<Rightarrow> instant \<Rightarrow> pystr \<Rightarrow> bool \<times> db" where
  "claim_intent d intent_id transaction_id now note =
     update_intents (\<lambda>i. pi_id i = intent_id \<and> pi_state i = Intent_AWAITING
         \<and> pi_active_transaction_id i = Some transaction_id)
       (\<lambda>i. i\<lparr>pi_state := Intent_PAID, pi_settled_at := Some now, pi_settle_note := Some note,
              pi_updated_at := now\<rparr>) d"

definition claim_intent_for_operator :: "db \<Rightarrow> uuid \<Rightarrow> instant \<Rightarrow> pystr \<Rightarrow> bool \<times> db" where
  "claim_intent_for_operator d intent_id now note =
     update_intents (\<lambda>i. pi_id i = intent_id \<and> (pi_state i = Intent_PENDING \<or> pi_state i = Intent_AWAITING))
       (\<lambda>i. i\<lparr>pi_state := Intent_PAID, pi_settled_at := Some now, pi_settle_note := Some note,
              pi_updated_at := now\<rparr>) d"

definition expire_intent :: "db \<Rightarrow> uuid \<Rightarrow> instant \<Rightarrow> bool \<times> db" where
  "expire_intent d intent_id now =
     update_intents (\<lambda>i. pi_id i = intent_id \<and> pi_state i = Intent_PENDING \<and> pi_valid_until i \<le> now)
       (\<lambda>i. i\<lparr>pi_state := Intent_EXPIRED, pi_updated_at := now\<rparr>) d"

definition mark_performed :: "db \<Rightarrow> uuid \<Rightarrow> instant \<Rightarrow> bool \<times> db" where
  "mark_performed d transaction_id now =
     update_transactions (\<lambda>t. pt_id t = transaction_id \<and> pt_state t = Payme_CREATED)
       (\<lambda>t. t\<lparr>pt_state := Payme_PERFORMED, pt_perform_time := Some now, pt_updated_at := now\<rparr>) d"

definition mark_cancelled ::
    "db \<Rightarrow> uuid \<Rightarrow> instant \<Rightarrow> int \<Rightarrow> payme_state \<Rightarrow> payme_state \<Rightarrow> bool \<times> db" where
  "mark_cancelled d transaction_id now reason from_state to_state =
     update_transactions (\<lambda>t. pt_id t = transaction_id \<and> pt_state t = from_state)
       (\<lambda>t. t\<lparr>pt_state := to_state, pt_cancel_reason := Some reason, pt_cancel_time := Some now,
              pt_updated_at := now\<rparr>) d"

definition mark_intent_notified :: "db \<Rightarrow> uuid \<Rightarrow> instant \<Rightarrow> bool \<times> db" where
  "mark_intent_notified d intent_id now =
     update_intents (\<lambda>i. pi_id i = intent_id \<and> pi_notified_at i = None)
       (\<lambda>i. i\<lparr>pi_notified_at := Some now, pi_updated_at := now\<rparr>) d"

definition claim_intent_resume :: "db \<Rightarrow> uuid \<Rightarrow> instant \<Rightarrow> bool \<times> db" where
  "claim_intent_resume d intent_id now =
     update_intents (\<lambda>i. pi_id i = intent_id \<and> pi_state i = Intent_PAID \<and> pi_resumed_at i = None)
       (\<lambda>i. i\<lparr>pi_resumed_at := Some now, pi_updated_at := now\<rparr>) d"

definition anonymise_intents :: "db \<Rightarrow> int \<Rightarrow> nat \<times> db" where
  "anonymise_intents d uid =
     (rowcount (\<lambda>i. pi_telegram_user_id i = Some uid) (intents d),
      d\<lparr>intents := sql_update (\<lambda>i. pi_telegram_user_id i = Some uid)
          (\<lambda>i. i\<lparr>pi_telegram_user_id := None\<rparr>) (intents d)\<rparr>)"

definition rpc_method_length :: nat where "rpc_method_length = 32"

definition insert_rpc_log ::
    "db \<Rightarrow> instant \<Rightarrow> pystr \<Rightarrow> pystr option \<Rightarrow> pystr option \<Rightarrow> int \<Rightarrow> pystr option \<Rightarrow> int \<Rightarrow> db" where
  "insert_rpc_log d at called payme_id public_ref reply_code peer_ip duration_ms =
     d\<lparr>rpc_log := rpc_log d @ [\<lparr>rl_at = at, rl_method = take rpc_method_length called,
        rl_payme_transaction_id = payme_id, rl_public_ref = public_ref, rl_reply_code = reply_code,
        rl_peer_ip = peer_ip, rl_duration_ms = duration_ms\<rparr>]\<rparr>"

end
