(* ===== verification/Credits.thy ===== *)
theory Credits
  imports Credit_Sql
begin

text \<open>
  Charging, granting and settling (\<^verbatim>\<open>src/src/bayram/db/credits.py\<close>, \<^verbatim>\<open>db/credit_settlement.py\<close>):
  one definition per function, each a transaction step over the database. The \<^verbatim>\<open>server_now\<close>
  argument is the database clock that \<^verbatim>\<open>sa.func.now()\<close> reads when a plan song is claimed.
\<close>

section \<open>Keys\<close>

definition unenforced_key_prefix :: "uuid \<Rightarrow> pystr" where
  "unenforced_key_prefix order = ustr ''unenforced:'' @ order @ ustr '':''"

definition debit_key :: "uuid \<Rightarrow> nat \<Rightarrow> pystr" where
  "debit_key order generation = ustr ''debit:'' @ order @ ustr '':'' @ str_nat generation"

definition refund_key :: "uuid \<Rightarrow> nat \<Rightarrow> pystr" where
  "refund_key order generation = ustr ''refund:'' @ order @ ustr '':'' @ str_nat generation"

definition consume_key :: "uuid \<Rightarrow> nat \<Rightarrow> pystr" where
  "consume_key order generation = ustr ''consume:'' @ order @ ustr '':'' @ str_nat generation"

definition plan_grant_key :: "uuid \<Rightarrow> int \<Rightarrow> pystr" where
  "plan_grant_key plan claimed = ustr ''grant:plan:'' @ plan @ ustr '':'' @ str_int claimed"

section \<open>Charging a render\<close>

datatype charge_outcome = CHARGED | ALREADY_PAID

definition default_cost :: int where "default_cost = 1"

definition mint_due_allowance ::
    "db \<Rightarrow> int \<Rightarrow> instant \<Rightarrow> entitlement_policy \<Rightarrow> (db, bool) outcome" where
  "mint_due_allowance d uid now policy =
     (if allowance_credits policy < 1 then Inr (False, d)
      else
        (let minted_index = snd (account_state d uid);
             index = period_index_for now (allowance_period_days policy)
         in if (case minted_index of None \<Rightarrow> False | Some m \<Rightarrow> m \<ge> index) then Inr (False, d)
            else tx_then
              (write_entry d uid GRANT
                 (if minted_index = None then SIGNUP_ALLOWANCE else PERIOD_ALLOWANCE)
                 (allowance_credits policy) (period_grant_key uid index) (ustr ''allowance'') now None 0)
              (\<lambda>written d.
                 if \<not> written then Inr (False, d)
                 else tx_then
                   (add_credits d uid (allowance_credits policy) (allowance_credits policy) now (Some index))
                   (\<lambda>_ d. Inr (True, d)))))"

definition mint_plan_song ::
    "db \<Rightarrow> int \<Rightarrow> instant \<Rightarrow> pystr \<Rightarrow> instant \<Rightarrow> (db, bool) outcome" where
  "mint_plan_song d uid now actor server_now =
     (case live_plan d uid now of
        None \<Rightarrow> Inr (False, d)
      | Some plan \<Rightarrow>
         (let claimed = pp_songs_used plan;
              (won, d) = claim_plan_song d (pp_id plan) claimed server_now
          in if \<not> won then Inr (False, d)
             else tx_then
               (write_entry d uid GRANT PLAN_SONG 1 (plan_grant_key (pp_id plan) claimed) actor now None 0)
               (\<lambda>written d.
                  if \<not> written then Inr (False, d)
                  else tx_then (add_credits d uid 1 1 now None) (\<lambda>_ d. Inr (True, d)))))"

definition refuse_a_blocked_account :: "credit_balance \<Rightarrow> bayram_error option" where
  "refuse_a_blocked_account state =
     (if cb_is_blocked state then Some (EntitlementError ''blocked account attempted a render'') else None)"

definition refuse_a_stacked_account :: "credit_balance \<Rightarrow> entitlement_policy \<Rightarrow> bayram_error option" where
  "refuse_a_stacked_account state policy =
     (if cb_in_flight state \<ge> max_orders_in_flight policy
      then Some (TooManyOrdersInFlightError (cb_in_flight state) (max_orders_in_flight policy)) else None)"

definition insufficient_credits ::
    "credit_balance \<Rightarrow> int \<Rightarrow> instant \<Rightarrow> entitlement_policy \<Rightarrow> bayram_error" where
  "insufficient_credits state cost now policy =
     InsufficientCreditsError (cb_credits state) cost
       (period_start (period_index_for now (allowance_period_days policy) + 1) (allowance_period_days policy))"

definition write_debit ::
    "db \<Rightarrow> int \<Rightarrow> uuid \<Rightarrow> nat \<Rightarrow> int \<Rightarrow> pystr \<Rightarrow> instant \<Rightarrow> (db, bool) outcome" where
  "write_debit d uid order generation cost actor now =
     write_entry d uid DEBIT ORDER_RENDER (- cost) (debit_key order generation) actor now (Some order) generation"

text \<open>With the balance check dark, the missing credits are granted under a key of their own.\<close>

definition cover_the_shortfall ::
    "db \<Rightarrow> int \<Rightarrow> uuid \<Rightarrow> nat \<Rightarrow> int \<Rightarrow> instant \<Rightarrow> (db, unit) outcome" where
  "cover_the_shortfall d uid order generation cost now =
     tx_then
       (write_entry d uid GRANT UNENFORCED_RENDER cost
          (unenforced_key_prefix order @ str_nat generation) (ustr ''unenforced'') now None 0)
       (\<lambda>_ d. tx_then (add_credits d uid cost 0 now None)
         (\<lambda>_ d. tx_then (debit_balance d uid cost now)
           (\<lambda>paid d. if paid then Inr ((), d)
              else Inl (Raised (StorageError ''the covered balance still could not pay for the render'')))))"

definition snapshot :: "db \<Rightarrow> credit_balance \<Rightarrow> instant \<Rightarrow> entitlement_policy \<Rightarrow> credit_balance" where
  "snapshot d state now policy = read_balance d (cb_telegram_user_id state) now policy None"

definition pay_for_render ::
    "db \<Rightarrow> credit_balance \<Rightarrow> uuid \<Rightarrow> nat \<Rightarrow> int \<Rightarrow> instant \<Rightarrow> entitlement_policy
      \<Rightarrow> (db, charge_outcome \<times> credit_balance) outcome" where
  "pay_for_render d state order generation cost now policy =
     (let uid = cb_telegram_user_id state
      in tx_then (debit_balance d uid cost now)
        (\<lambda>paid d.
           if paid then Inr ((CHARGED, snapshot d state now policy), d)
           else if is_balance_enforced policy then Inl (Raised (insufficient_credits state cost now policy))
           else tx_then (cover_the_shortfall d uid order generation cost now)
             (\<lambda>_ d. Inr ((CHARGED, snapshot d state now policy), d))))"

text \<open>The body of \<^verbatim>\<open>charge\<close> from the in-flight check on, for an order that holds no credit yet.\<close>

definition charge_unpaid ::
    "db \<Rightarrow> credit_balance \<Rightarrow> int \<Rightarrow> uuid \<Rightarrow> pystr \<Rightarrow> instant \<Rightarrow> int \<Rightarrow> entitlement_policy \<Rightarrow> instant
      \<Rightarrow> (db, charge_outcome \<times> credit_balance) outcome" where
  "charge_unpaid d state uid order actor now cost policy server_now =
     (case refuse_a_stacked_account state policy of
        Some e \<Rightarrow> Inl (Raised e)
      | None \<Rightarrow>
         tx_then (mint_plan_song d uid now actor server_now) (\<lambda>_ d.
           tx_then (write_debit d uid order (generation_for d order) cost actor now) (\<lambda>written e.
             if \<not> written then Inr ((ALREADY_PAID, snapshot e state now policy), e)
             else pay_for_render e state order (generation_for d order) cost now policy)))"

definition charge ::
    "db \<Rightarrow> int \<Rightarrow> uuid \<Rightarrow> pystr \<Rightarrow> instant \<Rightarrow> int \<Rightarrow> entitlement_policy \<Rightarrow> instant
      \<Rightarrow> (db, charge_outcome \<times> credit_balance) outcome" where
  "charge d uid order actor now cost policy server_now =
     (if cost < 1 then Inl (Raised (ValidationError ''a render must cost at least one credit''))
      else tx_then (open_account d uid now) (\<lambda>_ d.
        tx_then (mint_due_allowance d uid now policy) (\<lambda>_ d.
          let state = read_balance d uid now policy (Some order)
          in case refuse_a_blocked_account state of
               Some e \<Rightarrow> Inl (Raised e)
             | None \<Rightarrow>
                if net_position d order < 0 then Inr ((ALREADY_PAID, snapshot d state now policy), d)
                else charge_unpaid d state uid order actor now cost policy server_now)))"

section \<open>Granting\<close>

definition grant ::
    "db \<Rightarrow> int \<Rightarrow> int \<Rightarrow> pystr \<Rightarrow> pystr \<Rightarrow> instant \<Rightarrow> credit_reason \<Rightarrow> (db, bool) outcome" where
  "grant d uid credits key actor now reason =
     (if credits < 1 then Inl (Raised (ValidationError ''a grant must add at least one credit''))
      else tx_then (open_account d uid now) (\<lambda>_ d.
        tx_then (write_entry d uid GRANT reason credits key actor now None 0) (\<lambda>written d.
          if \<not> written then Inr (False, d)
          else tx_then (add_credits d uid credits credits now None) (\<lambda>_ d. Inr (True, d)))))"

section \<open>Blocking and touching a user\<close>

definition upsert_user :: "(user_row \<Rightarrow> user_row) \<Rightarrow> user_row \<Rightarrow> user_row list \<Rightarrow> user_row list" where
  "upsert_user f row rows =
     (if select_one us_telegram_user_id (us_telegram_user_id row) rows = None then rows @ [row]
      else sql_update (\<lambda>r. us_telegram_user_id r = us_telegram_user_id row) f rows)"

definition set_blocked :: "db \<Rightarrow> uuid \<Rightarrow> int \<Rightarrow> bool \<Rightarrow> instant \<Rightarrow> db" where
  "set_blocked d fresh uid blocked now =
     d\<lparr>users := upsert_user (\<lambda>r. r\<lparr>us_is_blocked := blocked, us_updated_at := now\<rparr>)
        \<lparr>us_id = fresh, us_telegram_user_id = uid, us_ui_language = UZ_LATN, us_is_blocked = blocked,
         us_last_seen_at = now, us_blocked_bot_at = None, us_created_at = now, us_updated_at = now\<rparr> (users d)\<rparr>"

definition touch :: "db \<Rightarrow> uuid \<Rightarrow> int \<Rightarrow> language option \<Rightarrow> instant \<Rightarrow> db" where
  "touch d fresh uid ui_language now =
     d\<lparr>users := upsert_user
        (\<lambda>r. (case ui_language of None \<Rightarrow> r | Some l \<Rightarrow> r\<lparr>us_ui_language := l\<rparr>)
               \<lparr>us_last_seen_at := now, us_updated_at := now\<rparr>)
        \<lparr>us_id = fresh, us_telegram_user_id = uid,
         us_ui_language = (case ui_language of None \<Rightarrow> UZ_LATN | Some l \<Rightarrow> l), us_is_blocked = False,
         us_last_seen_at = now, us_blocked_bot_at = None, us_created_at = now, us_updated_at = now\<rparr> (users d)\<rparr>"

section \<open>Settling a render\<close>

datatype settlement_outcome = Outcome_DELIVERED | Outcome_NOT_DELIVERED | Outcome_FAILED

definition refund ::
    "db \<Rightarrow> int \<Rightarrow> uuid \<Rightarrow> credit_reason \<Rightarrow> pystr \<Rightarrow> instant \<Rightarrow> (db, bool) outcome" where
  "refund d uid order reason actor now =
     (let net = net_position d order
      in if net \<ge> 0 then Inr (False, d)
         else if \<not> account_exists d uid then Inr (False, d)
         else
           (let generation = generation_for d order
            in tx_then
                 (write_entry d uid REFUND reason (- net) (refund_key order generation) actor now
                    (Some order) generation)
                 (\<lambda>written d. if \<not> written then Inr (False, d)
                    else tx_then (add_credits d uid (- net) 0 now None) (\<lambda>_ d. Inr (True, d)))))"

definition consume ::
    "db \<Rightarrow> int \<Rightarrow> uuid \<Rightarrow> credit_reason \<Rightarrow> pystr \<Rightarrow> instant \<Rightarrow> (db, bool) outcome" where
  "consume d uid order reason actor now =
     (if net_position d order \<ge> 0 then Inr (False, d)
      else
        (let generation = generation_for d order
         in write_entry d uid CONSUME reason 0 (consume_key order generation) actor now
              (Some order) generation))"

fun settle ::
    "db \<Rightarrow> int \<Rightarrow> uuid \<Rightarrow> settlement_outcome \<Rightarrow> pystr \<Rightarrow> instant \<Rightarrow> (db, bool) outcome" where
  "settle d uid order Outcome_FAILED actor now = refund d uid order ORDER_FAILED actor now"
| "settle d uid order Outcome_DELIVERED actor now = consume d uid order ORDER_DELIVERED actor now"
| "settle d uid order Outcome_NOT_DELIVERED actor now = consume d uid order ORDER_NOT_DELIVERED actor now"

definition close_one_stale_debit :: "db \<Rightarrow> stale_debit \<Rightarrow> instant \<Rightarrow> (db, bool) outcome" where
  "close_one_stale_debit d stale now =
     (if sd_order_state stale = Some DELIVERED
      then consume d (sd_telegram_user_id stale) (sd_order_id stale) STALE_SETTLEMENT (ustr ''sweep'') now
      else refund d (sd_telegram_user_id stale) (sd_order_id stale) STALE_SETTLEMENT (ustr ''sweep'') now)"

fun close_stale_debits :: "db \<Rightarrow> stale_debit list \<Rightarrow> instant \<Rightarrow> nat \<Rightarrow> (db, nat) outcome" where
  "close_stale_debits d [] now closed = Inr (closed, d)"
| "close_stale_debits d (stale # rest) now closed =
     tx_then (close_one_stale_debit d stale now)
       (\<lambda>done d. close_stale_debits d rest now (if done then closed + 1 else closed))"

definition settle_stale_debits ::
    "db \<Rightarrow> instant \<Rightarrow> nat \<Rightarrow> entitlement_policy \<Rightarrow> (db, nat) outcome" where
  "settle_stale_debits d now limit policy =
     (let cutoff = now - settlement_grace_s policy * us_per_second
      in close_stale_debits d (stale_debits d cutoff limit) now 0)"

end
