(* ===== verification/Credit_Laws.thy ===== *)
theory Credit_Laws
  imports Credits
begin

text \<open>
  The books balance. \<open>drift d uid\<close> is an account's balance less the sum of its ledger entries; every
  operation is described by how it moves that difference (\<open>moved\<close>), and a composite operation by
  adding the moves of its parts. An operation whose moves cancel keeps \<open>ledger_ok\<close>, which is
  exactly the statement that the audit \<^verbatim>\<open>verify_balances\<close> reports nothing.
\<close>

section \<open>Invariant\<close>

definition balance_of :: "db \<Rightarrow> int \<Rightarrow> int" where
  "balance_of d uid = fst (account_state d uid)"

definition drift :: "db \<Rightarrow> int \<Rightarrow> int" where
  "drift d uid = balance_of d uid - ledger_total d uid"

definition tables_ok :: "db \<Rightarrow> bool" where
  "tables_ok d \<longleftrightarrow> distinct (map ac_telegram_user_id (accounts d))
     \<and> distinct (map cl_idempotency_key (ledger d))
     \<and> (\<forall>a \<in> set (accounts d). balance_not_negative a)
     \<and> (\<forall>r \<in> set (ledger d). delta_matches_kind r)"

definition ledger_ok :: "db \<Rightarrow> bool" where
  "ledger_ok d \<longleftrightarrow> tables_ok d \<and> (\<forall>uid. drift d uid = 0)"

text \<open>What a step on the money tables leaves alone: intents, transactions, and the past of the ledger.\<close>

definition ledger_extends :: "db \<Rightarrow> db \<Rightarrow> bool" where
  "ledger_extends d d' \<longleftrightarrow> (\<exists>new. ledger d' = ledger d @ new)
     \<and> intents d' = intents d \<and> transactions d' = transactions d \<and> orders d' = orders d
     \<and> users d' = users d"

definition moved :: "db \<Rightarrow> db \<Rightarrow> int \<Rightarrow> int \<Rightarrow> bool" where
  "moved d d' uid n \<longleftrightarrow> ledger_extends d d' \<and>
     (\<forall>v. v \<noteq> uid \<longrightarrow> balance_of d' v = balance_of d v) \<and>
     (tables_ok d \<longrightarrow> tables_ok d' \<and> (\<forall>v. drift d' v = drift d v + (if v = uid then n else 0)))"

lemma ledger_extends_refl [simp]: "ledger_extends d d"
  by (simp add: ledger_extends_def)

lemma ledger_extends_trans: "ledger_extends d e \<Longrightarrow> ledger_extends e f \<Longrightarrow> ledger_extends d f"
  by (auto simp: ledger_extends_def)

lemma moved_refl [simp]: "moved d d uid 0"
  by (simp add: moved_def)

lemma moved_trans: "moved d e uid n \<Longrightarrow> moved e f uid m \<Longrightarrow> n + m = k \<Longrightarrow> moved d f uid k"
  by (auto simp: moved_def intro: ledger_extends_trans)

lemma moved_extends: "moved d e uid n \<Longrightarrow> ledger_extends d e"
  by (simp add: moved_def)

lemma moved_ledger_ok: "moved d e uid 0 \<Longrightarrow> ledger_ok d \<Longrightarrow> ledger_ok e"
  by (auto simp: moved_def ledger_ok_def)

lemma moved_other: "moved d e uid n \<Longrightarrow> v \<noteq> uid \<Longrightarrow> balance_of e v = balance_of d v"
  by (simp add: moved_def)

lemma moved_tables_ok: "moved d e uid n \<Longrightarrow> tables_ok d \<Longrightarrow> tables_ok e"
  by (simp add: moved_def)

section \<open>Elementary moves\<close>

lemma balance_of_cong: "accounts d' = accounts d \<Longrightarrow> balance_of d' v = balance_of d v"
  by (simp add: balance_of_def account_state_def account_row_def)

lemma ledger_total_cong: "ledger d' = ledger d \<Longrightarrow> ledger_total d' v = ledger_total d v"
  by (simp add: ledger_total_def)

lemma ledger_total_snoc [drift_simps]:
  "ledger d' = ledger d @ [r] \<Longrightarrow>
   ledger_total d' v = ledger_total d v + (if cl_telegram_user_id r = Some v then cl_delta r else 0)"
  by (simp add: ledger_total_def)

lemma write_entry_Inr:
  assumes "write_entry d uid kind reason delta key actor now order generation = Inr (w, d')"
  shows "w \<longleftrightarrow> ledger_by_key d key = None"
    and "\<not> w \<Longrightarrow> d' = d"
    and "w \<Longrightarrow> d' = d\<lparr>ledger := ledger d @
      [\<lparr>cl_telegram_user_id = Some uid, cl_kind = kind, cl_reason = reason, cl_delta = delta,
        cl_order_id = order, cl_generation = generation, cl_idempotency_key = key,
        cl_actor = take actor_length actor, cl_created_at = now\<rparr>]\<rparr>"
    and "delta_matches_kind \<lparr>cl_telegram_user_id = Some uid, cl_kind = kind, cl_reason = reason,
        cl_delta = delta, cl_order_id = order, cl_generation = generation, cl_idempotency_key = key,
        cl_actor = take actor_length actor, cl_created_at = now\<rparr>"
proof -
  let ?r = "\<lparr>cl_telegram_user_id = Some uid, cl_kind = kind, cl_reason = reason, cl_delta = delta,
        cl_order_id = order, cl_generation = generation, cl_idempotency_key = key,
        cl_actor = take actor_length actor, cl_created_at = now\<rparr>"
  from assms obtain rows where
    ins: "insert_or_ignore delta_matches_kind cl_idempotency_key no_clash ?r (ledger d) = Inr (w, rows)"
    and d': "d' = d\<lparr>ledger := rows\<rparr>"
    by (auto simp: write_entry_def split: sum.splits)
  note parts = insert_or_ignore_Inr [OF ins]
  from parts(1) show "delta_matches_kind ?r" .
  from parts(2) show "w \<longleftrightarrow> ledger_by_key d key = None" by (simp add: ledger_by_key_def)
  from parts(3) show "\<not> w \<Longrightarrow> d' = d" by (simp add: d')
  from parts(3) show "w \<Longrightarrow> d' = d\<lparr>ledger := ledger d @ [?r]\<rparr>" by (simp add: d')
qed

lemma write_entry_distinct:
  assumes "write_entry d uid kind reason delta key actor now order generation = Inr (w, d')"
    and "distinct (map cl_idempotency_key (ledger d))"
  shows "distinct (map cl_idempotency_key (ledger d'))"
  using assms by (auto simp: write_entry_def split: sum.splits dest: insert_or_ignore_distinct)

lemma write_entry_moved:
  assumes "write_entry d uid kind reason delta key actor now order generation = Inr (w, d')"
  shows "moved d d' uid (if w then - delta else 0)"
proof (cases w)
  case False
  with write_entry_Inr(2) [OF assms] show ?thesis by simp
next
  case True
  let ?r = "\<lparr>cl_telegram_user_id = Some uid, cl_kind = kind, cl_reason = reason, cl_delta = delta,
        cl_order_id = order, cl_generation = generation, cl_idempotency_key = key,
        cl_actor = take actor_length actor, cl_created_at = now\<rparr>"
  from True write_entry_Inr(3) [OF assms] have d': "d' = d\<lparr>ledger := ledger d @ [?r]\<rparr>" by simp
  have "tables_ok d \<Longrightarrow> tables_ok d'"
    using write_entry_distinct [OF assms] write_entry_Inr(4) [OF assms]
    by (auto simp: tables_ok_def d')
  moreover have "drift d' v = drift d v + (if v = uid then - delta else 0)" for v
    using ledger_total_snoc [of d' d ?r v] balance_of_cong [of d' d v] by (simp add: drift_def d')
  moreover have "ledger_extends d d'" by (simp add: ledger_extends_def d')
  ultimately show ?thesis using True balance_of_cong [of d' d] by (simp add: moved_def d')
qed

lemma update_accounts_Inr:
  assumes "update_accounts p f d = Inr (w, d')"
  shows "d' = d\<lparr>accounts := sql_update p f (accounts d)\<rparr>"
    and "w \<longleftrightarrow> rowcount p (accounts d) = 1"
    and "\<forall>a \<in> set (accounts d). p a \<longrightarrow> balance_not_negative (f a)"
  using assms by (auto simp: update_accounts_def list_ex_iff split: if_splits)

text \<open>An update of one account by \<open>n\<close>, on a condition \<open>q\<close>, moves that account and no other.\<close>

lemma update_account_moved:
  assumes upd: "update_accounts (\<lambda>a. ac_telegram_user_id a = uid \<and> q a) f d = Inr (w, d')"
    and key: "\<And>a. ac_telegram_user_id (f a) = ac_telegram_user_id a"
    and bal: "\<And>a. ac_balance (f a) = ac_balance a + n"
  shows "moved d d' uid (if w then n else 0) \<and> (tables_ok d \<longrightarrow> \<not> w \<longrightarrow> d' = d)"
proof -
  let ?p = "\<lambda>a. ac_telegram_user_id a = uid \<and> q a"
  note d' = update_accounts_Inr(1) [OF upd]
  have ext: "ledger_extends d d'" by (simp add: ledger_extends_def d')
  have row: "account_row d' v = map_option (\<lambda>a. if ?p a then f a else a) (account_row d v)" for v
    unfolding account_row_def d' using key by (simp add: select_one_update)
  { assume ok: "tables_ok d"
    then have dist: "distinct (map ac_telegram_user_id (accounts d))" by (simp add: tables_ok_def)
    have w: "w \<longleftrightarrow> (case account_row d uid of None \<Rightarrow> False | Some a \<Rightarrow> q a)"
      using update_accounts_Inr(2) [OF upd] rowcount_key [OF dist, of uid q]
      by (auto simp: account_row_def split: option.splits if_splits)
    have "tables_ok d'"
      using ok key update_accounts_Inr(3) [OF upd] by (auto simp: tables_ok_def d' set_sql_update)
    moreover have tot: "ledger_total d' v = ledger_total d v" for v
      by (rule ledger_total_cong) (simp add: d')
    moreover have "drift d' v = drift d v + (if v = uid then if w then n else 0 else 0)" for v
    proof -
      have "account_row d v = Some a \<Longrightarrow> ac_telegram_user_id a = v" for a
        by (auto simp: account_row_def dest: select_one_SomeD)
      then show ?thesis
        using w by (auto simp: drift_def balance_of_def account_state_def row bal tot split: option.splits)
    qed
    moreover have "\<not> w \<Longrightarrow> d' = d"
    proof -
      assume "\<not> w"
      then have "\<not> ?p a" if "a \<in> set (accounts d)" for a
        using that w select_one_self [OF dist that] by (auto simp: account_row_def)
      then have "sql_update ?p f (accounts d) = accounts d" by (rule sql_update_none)
      then show "d' = d" by (simp add: d')
    qed
    ultimately have "tables_ok d' \<and> (\<forall>v. drift d' v = drift d v + (if v = uid then if w then n else 0 else 0))
      \<and> (\<not> w \<longrightarrow> d' = d)" by blast }
  moreover have "v \<noteq> uid \<Longrightarrow> balance_of d' v = balance_of d v" for v
  proof -
    assume "v \<noteq> uid"
    moreover have "account_row d v = Some a \<Longrightarrow> ac_telegram_user_id a = v" for a
      by (auto simp: account_row_def dest: select_one_SomeD)
    ultimately show ?thesis
      by (auto simp: balance_of_def account_state_def row split: option.splits)
  qed
  ultimately show ?thesis using ext by (auto simp: moved_def)
qed

lemma debit_balance_moved:
  assumes "debit_balance d uid cost now = Inr (paid, d')"
  shows "moved d d' uid (if paid then - cost else 0)"
  using update_account_moved [OF assms [unfolded debit_balance_def], of "- cost"]
  by auto

lemma add_credits_Inr:
  assumes "add_credits d uid credits lifetime now index = Inr (x, d')"
  shows "moved d d' uid credits" and "ledger d' = ledger d" and "plans d' = plans d"
proof -
  from assms obtain w where
    upd: "update_accounts (\<lambda>a. ac_telegram_user_id a = uid \<and> True)
       (\<lambda>a. a\<lparr>ac_balance := ac_balance a + credits, ac_lifetime_granted := ac_lifetime_granted a + lifetime,
          ac_allowance_period_index := (case index of None \<Rightarrow> ac_allowance_period_index a | Some i \<Rightarrow> Some i),
          ac_updated_at := now\<rparr>) d = Inr (w, d')" and w
    by (auto simp: add_credits_def tx_then_eq_Inr split: if_splits)
  from update_account_moved [OF upd, of credits] \<open>w\<close> show "moved d d' uid credits" by simp
  from update_accounts_Inr(1) [OF upd] show "ledger d' = ledger d" and "plans d' = plans d" by simp_all
qed

lemma open_account_Inr:
  assumes "open_account d uid now = Inr (w, d')"
  shows "moved d d' uid 0" and "ledger d' = ledger d" and "account_exists d' uid" and "plans d' = plans d"
proof -
  let ?a = "\<lparr>ac_telegram_user_id = uid, ac_balance = 0, ac_lifetime_granted = 0,
         ac_allowance_period_index = None, ac_created_at = now, ac_updated_at = now\<rparr>"
  from assms obtain rows where
    ins: "insert_or_ignore balance_not_negative ac_telegram_user_id no_clash ?a (accounts d) = Inr (w, rows)"
    and d': "d' = d\<lparr>accounts := rows\<rparr>"
    by (auto simp: open_account_def split: sum.splits)
  note rows = insert_or_ignore_Inr(3) [OF ins] and w = insert_or_ignore_Inr(2) [OF ins]
  show "ledger d' = ledger d" and "plans d' = plans d" by (simp_all add: d')
  show "account_exists d' uid"
    using insert_or_ignore_present [OF ins] by (simp add: account_exists_def account_row_def d')
  have "balance_of d' v = balance_of d v" for v
    using w rows by (auto simp: balance_of_def account_state_def account_row_def d' select_one_append
        split: option.splits)
  then have same: "balance_of d' v = balance_of d v" for v by blast
  then have "drift d' v = drift d v" for v
    using ledger_total_cong [of d' d v] by (simp add: drift_def d')
  moreover have "tables_ok d \<Longrightarrow> tables_ok d'"
    using insert_or_ignore_distinct [OF ins] rows
    by (auto simp: tables_ok_def d' balance_not_negative_def)
  moreover note same
  ultimately show "moved d d' uid 0" by (auto simp: moved_def ledger_extends_def d')
qed

text \<open>Steps on the plans, top-ups and other tables move no money.\<close>

lemma moved_no_money:
  assumes "accounts d' = accounts d" "ledger d' = ledger d" "intents d' = intents d"
    "transactions d' = transactions d" "orders d' = orders d" "users d' = users d"
  shows "moved d d' uid 0"
  using assms balance_of_cong [OF assms(1)] ledger_total_cong [OF assms(2)]
  by (auto simp: moved_def ledger_extends_def tables_ok_def drift_def)

lemma claim_plan_song_moved: "claim_plan_song d plan claimed now = (w, d') \<Longrightarrow> moved d d' uid 0"
  by (rule moved_no_money) (auto simp: claim_plan_song_def Let_def)

lemma insert_plan_moved:
  "insert_plan d pid who plan songs amount cur prov ref key ends now = Inr (w, d') \<Longrightarrow> moved d d' uid 0"
  by (rule moved_no_money) (auto simp: insert_plan_def split: sum.splits prod.splits)

section \<open>Composite operations\<close>

text \<open>An entry followed by the credits it records: the two moves cancel.\<close>

lemma entry_then_credits_moved:
  assumes "tx_then (write_entry d uid kind reason n key actor now order generation)
      (\<lambda>written d. if \<not> written then Inr (v0, d)
         else tx_then (add_credits d uid n lifetime now index) (\<lambda>_ d. Inr (v1, d))) = Inr (x, d')"
  shows "moved d d' uid 0"
proof -
  from assms obtain w d1 where we: "write_entry d uid kind reason n key actor now order generation = Inr (w, d1)"
    and k: "(if \<not> w then Inr (v0, d1)
         else tx_then (add_credits d1 uid n lifetime now index) (\<lambda>_ d. Inr (v1, d))) = Inr (x, d')"
    by (auto simp: tx_then_eq_Inr)
  show ?thesis
  proof (cases w)
    case False
    with k write_entry_Inr(2) [OF we] show ?thesis by simp
  next
    case True
    with k obtain y where "add_credits d1 uid n lifetime now index = Inr (y, d')"
      by (auto simp: tx_then_eq_Inr)
    from write_entry_moved [OF we] add_credits_Inr(1) [OF this] True
    show ?thesis by (auto intro: moved_trans)
  qed
qed

lemma mint_due_allowance_moved:
  "mint_due_allowance d uid now policy = Inr (x, d') \<Longrightarrow> moved d d' uid 0"
  by (auto simp: mint_due_allowance_def Let_def split: if_splits option.splits
      intro: entry_then_credits_moved)

lemma mint_plan_song_moved:
  assumes "mint_plan_song d uid now actor server_now = Inr (x, d')"
  shows "moved d d' uid 0"
proof (cases "live_plan d uid now")
  case None
  with assms show ?thesis by (simp add: mint_plan_song_def)
next
  case (Some plan)
  obtain won d1 where cl: "claim_plan_song d (pp_id plan) (pp_songs_used plan) server_now = (won, d1)"
    by fastforce
  note m = claim_plan_song_moved [OF cl, of uid]
  show ?thesis
  proof (cases won)
    case False
    with assms Some cl m show ?thesis by (simp add: mint_plan_song_def Let_def)
  next
    case True
    with assms Some cl have "moved d1 d' uid 0"
      by (auto simp: mint_plan_song_def Let_def intro: entry_then_credits_moved)
    with m show ?thesis by (auto intro: moved_trans)
  qed
qed

lemma grant_moved: "grant d uid n key actor now reason = Inr (x, d') \<Longrightarrow> moved d d' uid 0"
  by (auto simp: grant_def tx_then_eq_Inr [where r = "open_account d uid now"] split: if_splits
      intro: moved_trans [OF open_account_Inr(1) entry_then_credits_moved])

lemma cover_the_shortfall_Inr:
  assumes "cover_the_shortfall d uid order generation cost now = Inr (x, d')"
  obtains w d1 y d2 where
    "write_entry d uid GRANT UNENFORCED_RENDER cost (unenforced_key_prefix order @ str_nat generation)
       (ustr ''unenforced'') now None 0 = Inr (w, d1)"
    "add_credits d1 uid cost 0 now None = Inr (y, d2)"
    "debit_balance d2 uid cost now = Inr (True, d')"
proof -
  from assms obtain w d1 y d2 p where
    "write_entry d uid GRANT UNENFORCED_RENDER cost (unenforced_key_prefix order @ str_nat generation)
       (ustr ''unenforced'') now None 0 = Inr (w, d1)"
    and "add_credits d1 uid cost 0 now None = Inr (y, d2)"
    and "debit_balance d2 uid cost now = Inr (p, d')" and p
    unfolding cover_the_shortfall_def tx_then_eq_Inr by (auto split: if_splits)
  then show thesis by (intro that) simp_all
qed

lemma cover_the_shortfall_moved:
  assumes cov: "cover_the_shortfall d uid order generation cost now = Inr (x, d')"
    and new: "ledger_by_key d (unenforced_key_prefix order @ str_nat generation) = None"
  shows "moved d d' uid (- cost)"
  using cov
proof (rule cover_the_shortfall_Inr)
  fix w d1 y d2
  assume we: "write_entry d uid GRANT UNENFORCED_RENDER cost (unenforced_key_prefix order @ str_nat generation)
       (ustr ''unenforced'') now None 0 = Inr (w, d1)"
    and ac: "add_credits d1 uid cost 0 now None = Inr (y, d2)"
    and db: "debit_balance d2 uid cost now = Inr (True, d')"
  from write_entry_Inr(1) [OF we] new have w by simp
  from write_entry_moved [OF we] add_credits_Inr(1) [OF ac] this
  have "moved d d2 uid 0" by (auto intro: moved_trans)
  with debit_balance_moved [OF db] show ?thesis by (auto intro: moved_trans)
qed

end
