(* ===== verification/Credit_Correct.thy ===== *)
theory Credit_Correct
  imports Credit_Laws
begin

text \<open>
  What the credit ledger promises: the audit finds nothing, a render is paid for once, a settlement
  moves what the debit took and nothing else, and nobody else's balance is touched.
\<close>

section \<open>The audit is the invariant\<close>

lemma account_row_in: "tables_ok d \<Longrightarrow> a \<in> set (accounts d) \<Longrightarrow> account_row d (ac_telegram_user_id a) = Some a"
  by (simp add: tables_ok_def account_row_def select_one_self)

lemma ledger_total_absent:
  "uid \<notin> set (List.map_filter cl_telegram_user_id (ledger d)) \<Longrightarrow> ledger_total d uid = 0"
proof -
  assume "uid \<notin> set (List.map_filter cl_telegram_user_id (ledger d))"
  then have "filter (\<lambda>r. cl_telegram_user_id r = Some uid) (ledger d) = []"
    by (force simp: filter_empty_conv List.map_filter_def)
  then show ?thesis by (simp add: ledger_total_def)
qed

lemma verify_balances_Nil:
  assumes "tables_ok d"
  shows "verify_balances d = [] \<longleftrightarrow> (\<forall>uid. drift d uid = 0)"
proof
  assume v: "verify_balances d = []"
  then have acc: "\<And>a. a \<in> set (accounts d) \<Longrightarrow> ac_balance a = ledger_total d (ac_telegram_user_id a)"
    and only: "\<And>uid. uid \<in> set (List.map_filter cl_telegram_user_id (ledger d)) \<Longrightarrow>
        \<not> account_exists d uid \<Longrightarrow> ledger_total d uid = 0"
    by (auto simp: verify_balances_def ledger_only_drifts_def filter_empty_conv
        dest!: arg_cong [where f = set])
  show "\<forall>uid. drift d uid = 0"
  proof
    fix uid
    show "drift d uid = 0"
    proof (cases "account_row d uid")
      case None
      then have "ledger_total d uid = 0"
        using only [of uid] ledger_total_absent [of uid d] by (auto simp: account_exists_def)
      with None show ?thesis by (simp add: drift_def balance_of_def account_state_def)
    next
      case (Some a)
      then have "a \<in> set (accounts d)" "ac_telegram_user_id a = uid"
        by (auto simp: account_row_def dest: select_one_SomeD)
      with acc Some show ?thesis by (auto simp: drift_def balance_of_def account_state_def)
    qed
  qed
next
  assume z: "\<forall>uid. drift d uid = 0"
  have "ac_balance a = ledger_total d (ac_telegram_user_id a)" if "a \<in> set (accounts d)" for a
    using z [rule_format, of "ac_telegram_user_id a"] account_row_in [OF assms that]
    by (simp add: drift_def balance_of_def account_state_def)
  moreover have "ledger_total d uid = 0" if "\<not> account_exists d uid" for uid
    using z [rule_format, of uid] that
    by (simp add: drift_def balance_of_def account_state_def account_exists_def split: option.splits)
  ultimately have
    "filter (\<lambda>a. ac_balance a \<noteq> ledger_total d (ac_telegram_user_id a)) (accounts d) = []"
    "filter (\<lambda>uid. \<not> account_exists d uid \<and> ledger_total d uid \<noteq> 0)
       (remdups (List.map_filter cl_telegram_user_id (ledger d))) = []"
    by (auto simp: filter_empty_conv)
  then show "verify_balances d = []"
    by (simp add: verify_balances_def ledger_only_drifts_def)
qed

section \<open>The shape of ledger entries\<close>

definition unenforced_key :: "uuid \<Rightarrow> nat \<Rightarrow> pystr" where
  "unenforced_key order generation = unenforced_key_prefix order @ str_nat generation"

text \<open>
  Debits, refunds and consumptions belong to an order and carry the key made from it; a grant
  belongs to none; and the cover of a dark render stands beside its debit.
\<close>

definition entry_shape :: "credit_ledger_row \<Rightarrow> bool" where
  "entry_shape r =
     (case (cl_kind r, cl_order_id r) of
        (GRANT, None) \<Rightarrow> True
      | (DEBIT, Some order) \<Rightarrow> cl_idempotency_key r = debit_key order (cl_generation r)
      | (REFUND, Some order) \<Rightarrow> cl_idempotency_key r = refund_key order (cl_generation r)
      | (CONSUME, Some order) \<Rightarrow> cl_idempotency_key r = consume_key order (cl_generation r)
      | _ \<Rightarrow> False)"

definition covers_paired :: "db \<Rightarrow> bool" where
  "covers_paired d \<longleftrightarrow> (\<forall>order generation. ledger_by_key d (unenforced_key order generation) \<noteq> None
      \<longrightarrow> ledger_by_key d (debit_key order generation) \<noteq> None)"

definition books_ok :: "db \<Rightarrow> bool" where
  "books_ok d \<longleftrightarrow> ledger_ok d \<and> covers_paired d \<and> (\<forall>r \<in> set (ledger d). entry_shape r)
     \<and> (\<forall>order. net_position d order \<le> 0)"

lemma key_order_injective:
  assumes "(p :: pystr) @ order @ ustr '':'' @ str_nat n = p @ order' @ ustr '':'' @ str_nat m"
  shows "order = order' \<and> n = m"
proof -
  have nc: "58 \<notin> set (str_nat k)" for k using str_nat_digits [of 58 k] by auto
  have r: "rev (order @ 58 # str_nat n) = rev (str_nat n) @ 58 # rev order" for order n by simp
  from assms have "order @ 58 # str_nat n = order' @ 58 # str_nat m" by simp
  then have "rev (str_nat n) @ 58 # rev order = rev (str_nat m) @ 58 # rev order'"
    by (metis r)
  then have "rev (str_nat n) = rev (str_nat m) \<and> rev order = rev order'"
    using append_colon_eq_iff [of "rev (str_nat n)" "rev (str_nat m)"] nc by simp
  then show ?thesis by (metis read_str_nat rev_rev_ident)
qed

lemma key_order_eq_iff:
  "(p :: pystr) @ order @ ustr '':'' @ str_nat n = p @ order' @ ustr '':'' @ str_nat m
    \<longleftrightarrow> order = order' \<and> n = m"
  using key_order_injective by blast

lemma unenforced_key_eq_iff:
  "unenforced_key order n = unenforced_key order' m \<longleftrightarrow> order = order' \<and> n = m"
  by (simp only: unenforced_key_def unenforced_key_prefix_def append_assoc key_order_eq_iff)

lemma debit_key_eq_iff: "debit_key order n = debit_key order' m \<longleftrightarrow> order = order' \<and> n = m"
  by (simp only: debit_key_def key_order_eq_iff)

text \<open>The namespaces a caller's own key must stay out of.\<close>

definition is_cover_key :: "pystr \<Rightarrow> bool" where
  "is_cover_key key \<longleftrightarrow> take 11 key = ustr ''unenforced:''"

lemma unenforced_key_is_cover [simp]: "is_cover_key (unenforced_key order n)"
  by (simp add: is_cover_key_def unenforced_key_def unenforced_key_prefix_def)

lemma not_cover_keys [simp]:
  "\<not> is_cover_key (debit_key order n)" "\<not> is_cover_key (refund_key order n)"
  "\<not> is_cover_key (consume_key order n)" "\<not> is_cover_key (plan_grant_key plan i)"
  "\<not> is_cover_key (period_grant_key uid i)"
  by (simp_all add: is_cover_key_def debit_key_def refund_key_def consume_key_def plan_grant_key_def
      period_grant_key_def)

section \<open>How the ledger grows\<close>

lemma ledger_by_key_extends:
  "ledger_extends d d' \<Longrightarrow> ledger_by_key d key \<noteq> None \<Longrightarrow> ledger_by_key d' key \<noteq> None"
  by (auto simp: ledger_extends_def ledger_by_key_def select_one_append split: option.splits)

lemma write_entry_by_key:
  assumes "write_entry d uid kind reason delta key actor now order generation = Inr (w, d')"
  shows "ledger_by_key d' k \<noteq> None \<longleftrightarrow> ledger_by_key d k \<noteq> None \<or> k = key"
  using write_entry_Inr [OF assms]
  by (cases w) (auto simp: ledger_by_key_def select_one_append split: option.splits)

lemma write_entry_net:
  assumes "write_entry d uid kind reason delta key actor now order generation = Inr (w, d')"
  shows "net_position d' o' = net_position d o' + (if w \<and> order = Some o' then delta else 0)"
  using write_entry_Inr(2,3) [OF assms] by (cases w) (auto simp: net_position_def)

lemma write_entry_set:
  assumes "write_entry d uid kind reason delta key actor now order generation = Inr (w, d')"
  shows "r \<in> set (ledger d') \<Longrightarrow> r \<in> set (ledger d) \<or>
     (cl_kind r = kind \<and> cl_order_id r = order \<and> cl_idempotency_key r = key \<and> cl_generation r = generation)"
  using write_entry_Inr(2,3) [OF assms] by (cases w) auto

lemma net_position_cong: "ledger d' = ledger d \<Longrightarrow> net_position d' order = net_position d order"
  by (simp add: net_position_def)

lemma debit_balance_ledger:
  "debit_balance d uid cost now = Inr (paid, d') \<Longrightarrow> ledger d' = ledger d \<and> plans d' = plans d"
  by (auto simp: debit_balance_def dest: update_accounts_Inr(1))

text \<open>\<open>grows d d' P\<close>: the ledger only gained grants of no order, under keys that satisfy \<open>P\<close>.\<close>

definition grows :: "db \<Rightarrow> db \<Rightarrow> (pystr \<Rightarrow> bool) \<Rightarrow> bool" where
  "grows d d' P \<longleftrightarrow> (\<exists>new. ledger d' = ledger d @ new
     \<and> (\<forall>r \<in> set new. cl_kind r = GRANT \<and> cl_order_id r = None \<and> P (cl_idempotency_key r)))"

lemma grows_refl [simp]: "grows d d P"
  by (simp add: grows_def)

lemma grows_same: "ledger d' = ledger d \<Longrightarrow> grows d d' P"
  by (simp add: grows_def)

lemma grows_trans: "grows d e P \<Longrightarrow> grows e f P \<Longrightarrow> grows d f P"
  unfolding grows_def by fastforce

lemma grows_write:
  "write_entry d uid GRANT reason delta key actor now None n = Inr (w, d') \<Longrightarrow> P key \<Longrightarrow> grows d d' P"
  using write_entry_Inr(2,3) [of d uid GRANT reason delta key actor now None n w d']
  by (cases w) (auto simp: grows_def)

lemma grows_net: "grows d d' P \<Longrightarrow> net_position d' order = net_position d order"
  by (auto simp: grows_def net_position_def filter_empty_conv)

lemma grows_generation: "grows d d' P \<Longrightarrow> generation_for d' order = generation_for d order"
  by (auto simp: grows_def generation_for_def rowcount_def filter_empty_conv)

lemma grows_key: "grows d d' P \<Longrightarrow> \<not> P k \<Longrightarrow> ledger_by_key d' k \<noteq> None \<Longrightarrow> ledger_by_key d k \<noteq> None"
  by (auto simp: grows_def ledger_by_key_def select_one_append split: option.splits)
    (blast dest: select_one_SomeD)

lemma grows_shape:
  "grows d d' P \<Longrightarrow> \<forall>r \<in> set (ledger d). entry_shape r \<Longrightarrow> \<forall>r \<in> set (ledger d'). entry_shape r"
  by (auto simp: grows_def entry_shape_def)

lemma grows_keeps_pairs:
  assumes "grows d d' (\<lambda>k. \<not> is_cover_key k)" and "covers_paired d"
  shows "covers_paired d'"
proof -
  from assms(1) have "ledger_by_key d k \<noteq> None \<Longrightarrow> ledger_by_key d' k \<noteq> None" for k
    by (auto simp: grows_def ledger_by_key_def select_one_append split: option.splits)
  with grows_key [OF assms(1)] assms(2) show ?thesis
    unfolding covers_paired_def by (metis unenforced_key_is_cover)
qed

text \<open>A step that moves no money and only adds grants keeps the books.\<close>

lemma books_ok_grows:
  assumes "moved d d' uid 0" "grows d d' (\<lambda>k. \<not> is_cover_key k)" "books_ok d"
  shows "books_ok d'"
  using assms moved_ledger_ok grows_keeps_pairs grows_shape grows_net unfolding books_ok_def
  by metis

lemma entry_then_credits_grows:
  assumes "tx_then (write_entry d uid GRANT reason n key actor now None m)
      (\<lambda>written d. if \<not> written then Inr (v0, d)
         else tx_then (add_credits d uid n lifetime now index) (\<lambda>_ d. Inr (v1, d))) = Inr (x, d')"
    and "P key"
  shows "grows d d' P"
proof -
  from assms(1) obtain w d1 where we: "write_entry d uid GRANT reason n key actor now None m = Inr (w, d1)"
    and k: "(if \<not> w then Inr (v0, d1)
         else tx_then (add_credits d1 uid n lifetime now index) (\<lambda>_ d. Inr (v1, d))) = Inr (x, d')"
    by (auto simp: tx_then_eq_Inr)
  from k have "ledger d' = ledger d1"
    by (cases w) (auto simp: tx_then_eq_Inr dest: add_credits_Inr(2))
  with grows_write [OF we, of P] assms(2) show ?thesis by (simp add: grows_def)
qed

lemma mint_due_allowance_adds:
  "mint_due_allowance d uid now policy = Inr (x, d') \<Longrightarrow> (\<And>i. P (period_grant_key uid i)) \<Longrightarrow> grows d d' P"
  by (auto simp: mint_due_allowance_def Let_def split: if_splits option.splits
      intro: entry_then_credits_grows)

lemma mint_plan_song_adds:
  assumes "mint_plan_song d uid now actor server_now = Inr (x, d')" and "\<And>p i. P (plan_grant_key p i)"
  shows "grows d d' P"
proof (cases "live_plan d uid now")
  case None
  with assms show ?thesis by (simp add: mint_plan_song_def)
next
  case (Some plan)
  obtain won d1 where cl: "claim_plan_song d (pp_id plan) (pp_songs_used plan) server_now = (won, d1)"
    by fastforce
  then have l: "grows d d1 P"
    by (intro grows_same) (auto simp: claim_plan_song_def Let_def)
  show ?thesis
  proof (cases won)
    case False
    with assms Some cl l show ?thesis by (simp add: mint_plan_song_def Let_def)
  next
    case True
    with assms Some cl have "grows d1 d' P"
      by (auto simp: mint_plan_song_def Let_def intro: entry_then_credits_grows)
    with l show ?thesis by (rule grows_trans)
  qed
qed

lemma mint_due_allowance_grows:
  "mint_due_allowance d uid now policy = Inr (x, d') \<Longrightarrow> grows d d' (\<lambda>k. \<not> is_cover_key k)"
  by (erule mint_due_allowance_adds) simp

lemma mint_plan_song_grows:
  "mint_plan_song d uid now actor server_now = Inr (x, d') \<Longrightarrow> grows d d' (\<lambda>k. \<not> is_cover_key k)"
  by (erule mint_plan_song_adds) simp

lemma open_account_grows: "open_account d uid now = Inr (w, d') \<Longrightarrow> grows d d' P"
  by (rule grows_same) (rule open_account_Inr(2))

lemma grant_grows:
  "grant d uid n key actor now reason = Inr (x, d') \<Longrightarrow> P key \<Longrightarrow> grows d d' P"
  by (auto simp: grant_def tx_then_eq_Inr [where r = "open_account d uid now"] split: if_splits
      intro: grows_trans [OF open_account_grows entry_then_credits_grows])

end
