(* ===== verification/Credit_Charge.thy ===== *)
theory Credit_Charge
  imports Credit_Correct
begin

text \<open>
  Charging and settling one render: each operation keeps the books, a charge takes exactly its cost
  once, and a settlement gives back exactly what the order holds, or nothing.
\<close>

section \<open>How a charge can go\<close>

lemma read_balance_user [simp]: "cb_telegram_user_id (read_balance d uid now policy ex) = uid"
  by (simp add: read_balance_def Let_def split: prod.splits)

lemma charge_opened:
  assumes "charge d uid order actor now cost policy server_now = Inr (x, d')"
  obtains d2 state where "1 \<le> cost" "moved d d2 uid 0" "grows d d2 (\<lambda>k. \<not> is_cover_key k)"
    "state = read_balance d2 uid now policy (Some order)" "\<not> cb_is_blocked state"
    "(if net_position d2 order < 0 then Inr ((ALREADY_PAID, snapshot d2 state now policy), d2)
      else charge_unpaid d2 state uid order actor now cost policy server_now) = Inr (x, d')"
proof -
  from assms obtain w d1 m d2 where c: "\<not> cost < 1" and op: "open_account d uid now = Inr (w, d1)"
    and mi: "mint_due_allowance d1 uid now policy = Inr (m, d2)"
    and rest: "(case refuse_a_blocked_account (read_balance d2 uid now policy (Some order)) of
         Some e \<Rightarrow> Inl (Raised e)
       | None \<Rightarrow> if net_position d2 order < 0
           then Inr ((ALREADY_PAID, snapshot d2 (read_balance d2 uid now policy (Some order)) now policy), d2)
           else charge_unpaid d2 (read_balance d2 uid now policy (Some order)) uid order actor now cost
                  policy server_now) = Inr (x, d')"
    by (auto simp: charge_def tx_then_eq_Inr Let_def split: if_splits)
  have nb: "\<not> cb_is_blocked (read_balance d2 uid now policy (Some order))"
    using rest by (simp add: refuse_a_blocked_account_def split: if_splits)
  have "moved d d2 uid 0"
    using moved_trans [OF open_account_Inr(1) [OF op] mint_due_allowance_moved [OF mi]] by simp
  moreover have "grows d d2 (\<lambda>k. \<not> is_cover_key k)"
    using grows_trans [OF open_account_grows [OF op] mint_due_allowance_grows [OF mi]] .
  ultimately show ?thesis
    using that [of d2] c rest nb by (simp add: refuse_a_blocked_account_def)
qed

lemma charge_cases:
  assumes "charge d uid order actor now cost policy server_now = Inr (x, d')"
  obtains
    (held) "fst x = ALREADY_PAID" "net_position d order < 0" "moved d d' uid 0"
      "grows d d' (\<lambda>k. \<not> is_cover_key k)"
  | (raced) "fst x = ALREADY_PAID" "0 \<le> net_position d order" "moved d d' uid 0"
      "grows d d' (\<lambda>k. \<not> is_cover_key k)"
      "ledger_by_key d' (debit_key order (generation_for d order)) \<noteq> None"
  | (paid) d3 d4 state where "1 \<le> cost" "0 \<le> net_position d order" "moved d d3 uid 0"
      "grows d d3 (\<lambda>k. \<not> is_cover_key k)" "cb_telegram_user_id state = uid"
      "write_debit d3 uid order (generation_for d order) cost actor now = Inr (True, d4)"
      "pay_for_render d4 state order (generation_for d order) cost now policy = Inr (x, d')"
proof -
  from charge_opened [OF assms] obtain d2 state where c: "1 \<le> cost" and m2: "moved d d2 uid 0"
    and g2: "grows d d2 (\<lambda>k. \<not> is_cover_key k)" and st: "cb_telegram_user_id state = uid"
    and rest: "(if net_position d2 order < 0 then Inr ((ALREADY_PAID, snapshot d2 state now policy), d2)
      else charge_unpaid d2 state uid order actor now cost policy server_now) = Inr (x, d')"
    by (metis read_balance_user)
  show thesis
  proof (cases "net_position d2 order < 0")
    case True
    with rest m2 g2 grows_net [OF g2, of order] show thesis by (auto intro: held)
  next
    case False
    with rest obtain y d3 w d4 where ps: "mint_plan_song d2 uid now actor server_now = Inr (y, d3)"
      and wd: "write_debit d3 uid order (generation_for d3 order) cost actor now = Inr (w, d4)"
      and fin: "(if \<not> w then Inr ((ALREADY_PAID, snapshot d4 state now policy), d4)
           else pay_for_render d4 state order (generation_for d3 order) cost now policy) = Inr (x, d')"
      by (auto simp: charge_unpaid_def tx_then_eq_Inr split: option.splits)
    have m3: "moved d d3 uid 0" using moved_trans [OF m2 mint_plan_song_moved [OF ps]] by simp
    have g3: "grows d d3 (\<lambda>k. \<not> is_cover_key k)" using grows_trans [OF g2 mint_plan_song_grows [OF ps]] .
    note gen = grows_generation [OF g3, of order] and net = grows_net [OF g2, of order]
    show thesis
    proof (cases w)
      case True
      show thesis
        by (rule paid [OF c _ m3 g3 st]) (use True wd fin gen net False in simp_all)
    next
      case w: False
      with fin wd have "d' = d3" "fst x = ALREADY_PAID"
        using write_entry_Inr(2) [OF wd [unfolded write_debit_def]] by auto
      moreover have "ledger_by_key d3 (debit_key order (generation_for d order)) \<noteq> None"
        using write_entry_Inr(1) [OF wd [unfolded write_debit_def]] w gen by simp
      ultimately show thesis using raced m3 g3 net False by auto
    qed
  qed
qed

section \<open>Paying\<close>

lemma pay_for_render_cases:
  assumes "pay_for_render d state order n cost now policy = Inr (x, d')"
  obtains (straight) "debit_balance d (cb_telegram_user_id state) cost now = Inr (True, d')" "fst x = CHARGED"
  | (dark) d1 y where "debit_balance d (cb_telegram_user_id state) cost now = Inr (False, d1)"
      "\<not> is_balance_enforced policy" "fst x = CHARGED"
      "cover_the_shortfall d1 (cb_telegram_user_id state) order n cost now = Inr (y, d')"
  using assms by (auto simp: pay_for_render_def Let_def tx_then_eq_Inr split: if_splits)

lemma pay_for_render_moved:
  assumes "pay_for_render d state order n cost now policy = Inr (x, d')"
    and "ledger_by_key d (unenforced_key order n) = None"
  shows "moved d d' (cb_telegram_user_id state) (- cost)"
  using assms(1)
proof (cases rule: pay_for_render_cases)
  case straight
  then show ?thesis using debit_balance_moved by fastforce
next
  case (dark d1 y)
  note deb = debit_balance_moved [OF dark(1)] debit_balance_ledger [OF dark(1)]
  have "ledger_by_key d1 (unenforced_key order n) = None"
    using deb(2) assms(2) by (simp add: ledger_by_key_def)
  then have "moved d1 d' (cb_telegram_user_id state) (- cost)"
    using cover_the_shortfall_moved [OF dark(4)] by (simp add: unenforced_key_def)
  with deb(1) show ?thesis by (auto intro: moved_trans)
qed

lemma pay_for_render_grows:
  assumes "pay_for_render d state order n cost now policy = Inr (x, d')"
  shows "grows d d' (\<lambda>k. k = unenforced_key order n)"
  using assms
proof (cases rule: pay_for_render_cases)
  case straight
  then show ?thesis using debit_balance_ledger by (blast intro: grows_same)
next
  case (dark d1 y)
  from dark(4) obtain w e y2 d2 where
    we: "write_entry d1 (cb_telegram_user_id state) GRANT UNENFORCED_RENDER cost
      (unenforced_key_prefix order @ str_nat n) (ustr ''unenforced'') now None 0 = Inr (w, e)"
    and ac: "add_credits e (cb_telegram_user_id state) cost 0 now None = Inr (y2, d2)"
    and db: "debit_balance d2 (cb_telegram_user_id state) cost now = Inr (True, d')"
    by (rule cover_the_shortfall_Inr)
  have "ledger d1 = ledger d" using debit_balance_ledger [OF dark(1)] by simp
  moreover have "ledger d' = ledger e" using debit_balance_ledger [OF db] add_credits_Inr(2) [OF ac] by simp
  moreover have "grows d1 e (\<lambda>k. k = unenforced_key order n)"
    by (rule grows_write [OF we]) (simp add: unenforced_key_def)
  ultimately show ?thesis by (simp add: grows_def)
qed

lemma pay_for_render_outcome:
  "pay_for_render d state order n cost now policy = Inr (x, d') \<Longrightarrow> fst x = CHARGED"
  by (erule pay_for_render_cases) simp_all

text \<open>The debit and its payment together: the books stay balanced and the order now holds its cost.\<close>

lemma debit_and_pay_books_ok:
  assumes ok: "books_ok d" and cost: "1 \<le> cost"
    and wd: "write_debit d uid order n cost actor now = Inr (True, d1)"
    and pay: "pay_for_render d1 state order n cost now policy = Inr (x, d')"
    and uid: "cb_telegram_user_id state = uid"
  shows "books_ok d'" and "moved d d' uid 0"
    and "net_position d' order' = net_position d order' + (if order' = order then - cost else 0)"
proof -
  note we = wd [unfolded write_debit_def]
  have nodebit: "ledger_by_key d (debit_key order n) = None" using write_entry_Inr(1) [OF we] by simp
  with ok have "ledger_by_key d (unenforced_key order n) = None"
    unfolding books_ok_def covers_paired_def by blast
  moreover have "unenforced_key order n \<noteq> debit_key order n"
    using unenforced_key_is_cover not_cover_keys(1) by metis
  ultimately have "ledger_by_key d1 (unenforced_key order n) = None"
    using write_entry_by_key [OF we, of "unenforced_key order n"] by blast
  from moved_trans [OF write_entry_moved [OF we] pay_for_render_moved [OF pay this, unfolded uid]]
  show mv: "moved d d' uid 0" by simp
  note gr = pay_for_render_grows [OF pay]
  show net: "net_position d' order' = net_position d order' + (if order' = order then - cost else 0)" for order'
    using grows_net [OF gr] write_entry_net [OF we] by auto
  have "covers_paired d'"
    unfolding covers_paired_def
  proof (intro allI impI)
    fix o' g assume c: "ledger_by_key d' (unenforced_key o' g) \<noteq> None"
    have up: "ledger_by_key d1 k \<noteq> None \<Longrightarrow> ledger_by_key d' k \<noteq> None" for k
      using gr by (auto simp: grows_def ledger_by_key_def select_one_append split: option.splits)
    show "ledger_by_key d' (debit_key o' g) \<noteq> None"
    proof (cases "unenforced_key o' g = unenforced_key order n")
      case True
      then show ?thesis using up write_entry_by_key [OF we, of "debit_key order n"]
        by (simp add: unenforced_key_eq_iff)
    next
      case False
      with c grows_key [OF gr] have "ledger_by_key d1 (unenforced_key o' g) \<noteq> None" by blast
      moreover have "unenforced_key o' g \<noteq> debit_key order n"
        using unenforced_key_is_cover not_cover_keys(1) by metis
      ultimately have "ledger_by_key d (unenforced_key o' g) \<noteq> None"
        using write_entry_by_key [OF we] by blast
      with ok have "ledger_by_key d (debit_key o' g) \<noteq> None"
        unfolding books_ok_def covers_paired_def by blast
      then show ?thesis using up write_entry_by_key [OF we] by blast
    qed
  qed
  moreover have "\<forall>r \<in> set (ledger d1). entry_shape r"
  proof
    fix r assume "r \<in> set (ledger d1)"
    with write_entry_set [OF we, of r] ok show "entry_shape r"
      by (auto simp: books_ok_def entry_shape_def)
  qed
  with grows_shape [OF gr] have "\<forall>r \<in> set (ledger d'). entry_shape r" by blast
  moreover have "ledger_ok d'" using moved_ledger_ok [OF mv] ok by (simp add: books_ok_def)
  moreover have "net_position d' o' \<le> 0" for o'
    using net [of o'] ok cost by (force simp: books_ok_def dest: spec [of _ o'])
  ultimately show "books_ok d'" by (simp add: books_ok_def)
qed

section \<open>Charge\<close>

lemma charge_books_ok:
  assumes "charge d uid order actor now cost policy server_now = Inr (x, d')" and "books_ok d"
  shows "books_ok d' \<and> moved d d' uid 0"
  using assms(1)
proof (cases rule: charge_cases)
  case held
  with assms(2) show ?thesis by (auto intro: books_ok_grows)
next
  case raced
  with assms(2) show ?thesis by (auto intro: books_ok_grows)
next
  case (paid d3 d4 state)
  have "books_ok d3" using books_ok_grows [OF paid(3,4) assms(2)] .
  from debit_and_pay_books_ok [OF this paid(1) paid(6) paid(7) paid(5)] paid(3)
  show ?thesis by (auto intro: moved_trans)
qed

lemma charge_net:
  assumes "charge d uid order actor now cost policy server_now = Inr ((CHARGED, s), d')" and "books_ok d"
  shows "net_position d order = 0 \<and> net_position d' order = - cost \<and> 1 \<le> cost"
  using assms(1)
proof (cases rule: charge_cases)
  case (paid d3 d4 state)
  have ok: "books_ok d3" using books_ok_grows [OF paid(3,4) assms(2)] .
  have z: "net_position d order = 0" using paid(2) assms(2) by (simp add: books_ok_def order_antisym)
  from debit_and_pay_books_ok(3) [OF ok paid(1) paid(6) paid(7) paid(5), of order] grows_net [OF paid(4), of order] z
  show ?thesis using paid(1) by simp
qed auto

text \<open>A render that is already paid for is not charged again: only grants may be appended.\<close>

lemma charge_held:
  assumes "charge d uid order actor now cost policy server_now = Inr (x, d')" and "net_position d order < 0"
  shows "fst x = ALREADY_PAID" and "grows d d' (\<lambda>k. \<not> is_cover_key k)"
  using assms(1) by (cases rule: charge_cases; use assms(2) in simp)+

section \<open>Settlement\<close>

lemma refund_cases:
  assumes "refund d uid order reason actor now = Inr (x, d')"
  obtains (noop) "\<not> x" "d' = d"
  | (paid) "x" "net_position d order < 0" "moved d d' uid 0"
      "net_position d' order = 0" "ledger_total d' uid = ledger_total d uid - net_position d order"
      "\<And>o'. o' \<noteq> order \<Longrightarrow> net_position d' o' = net_position d o'"
      "\<And>r. r \<in> set (ledger d') \<Longrightarrow> r \<in> set (ledger d) \<or> entry_shape r"
      "\<And>k. ledger_by_key d' k \<noteq> None \<longleftrightarrow> ledger_by_key d k \<noteq> None \<or> k = refund_key order (generation_for d order)"
proof -
  let ?net = "net_position d order" and ?n = "generation_for d order"
  consider "\<not> x" "d' = d"
    | "?net < 0" "tx_then (write_entry d uid REFUND reason (- ?net) (refund_key order ?n) actor now (Some order) ?n)
         (\<lambda>written d. if \<not> written then Inr (False, d)
            else tx_then (add_credits d uid (- ?net) 0 now None) (\<lambda>_ d. Inr (True, d))) = Inr (x, d')"
  proof (cases "?net < 0 \<and> account_exists d uid")
    case True
    with assms that(2) show ?thesis by (simp add: refund_def Let_def)
  next
    case False
    with assms have "\<not> x \<and> d' = d"
      by (cases "0 \<le> net_position d order") (simp_all add: refund_def Let_def)
    with that(1) show ?thesis by blast
  qed
  then show thesis
  proof cases
    case 1
    then show thesis by (rule noop)
  next
    case 2
    from 2(2) obtain w d1 where
      we: "write_entry d uid REFUND reason (- ?net) (refund_key order ?n) actor now (Some order) ?n = Inr (w, d1)"
      and rest: "(if \<not> w then Inr (False, d1)
            else tx_then (add_credits d1 uid (- ?net) 0 now None) (\<lambda>_ d. Inr (True, d))) = Inr (x, d')"
      by (auto simp: tx_then_eq_Inr)
    show thesis
    proof (cases w)
      case False
      with rest write_entry_Inr(2) [OF we] show thesis by (intro noop) auto
    next
      case True
      with rest obtain y where ac: "add_credits d1 uid (- ?net) 0 now None = Inr (y, d')" and x
        by (auto simp: tx_then_eq_Inr)
      note led = add_credits_Inr(2) [OF ac]
      have mv: "moved d d' uid 0" using entry_then_credits_moved [OF 2(2)] .
      show thesis
      proof (rule paid)
        show "net_position d' order = 0"
          using write_entry_net [OF we, of order] True by (simp add: net_position_cong [OF led])
        show "ledger_total d' uid = ledger_total d uid - net_position d order"
          using write_entry_Inr(3) [OF we True] by (simp add: ledger_total_def led)
        show "net_position d' o' = net_position d o'" if "o' \<noteq> order" for o'
          using write_entry_net [OF we, of o'] that by (simp add: net_position_cong [OF led])
        show "r \<in> set (ledger d) \<or> entry_shape r" if "r \<in> set (ledger d')" for r
          using write_entry_set [OF we, of r] that by (auto simp: led entry_shape_def)
        show "ledger_by_key d' k \<noteq> None \<longleftrightarrow> ledger_by_key d k \<noteq> None \<or> k = refund_key order ?n" for k
          using write_entry_by_key [OF we, of k] by (simp add: ledger_by_key_def led)
      qed (use \<open>x\<close> 2(1) mv in auto)
    qed
  qed
qed

lemma refund_books_ok:
  assumes "refund d uid order reason actor now = Inr (x, d')" and ok: "books_ok d"
  shows "books_ok d' \<and> moved d d' uid 0"
  using assms(1)
proof (cases rule: refund_cases)
  case noop
  with ok show ?thesis by simp_all
next
  case paid
  have "covers_paired d'"
    using ok paid(8) unfolding books_ok_def covers_paired_def
    by (metis not_cover_keys(2) unenforced_key_is_cover)
  moreover have "net_position d' o' \<le> 0" for o'
    using ok paid(4) paid(6) [of o'] by (cases "o' = order") (auto simp: books_ok_def)
  moreover have "\<forall>r \<in> set (ledger d'). entry_shape r"
    using ok paid(7) unfolding books_ok_def by blast
  ultimately show ?thesis
    using ok paid(3) moved_ledger_ok by (auto simp: books_ok_def)
qed

lemma consume_cases:
  assumes "consume d uid order reason actor now = Inr (x, d')"
  obtains (noop) "\<not> x" "d' = d"
  | (closed) "x" "net_position d order < 0"
      "write_entry d uid CONSUME reason 0 (consume_key order (generation_for d order)) actor now
         (Some order) (generation_for d order) = Inr (True, d')"
proof -
  show thesis
  proof (cases "net_position d order < 0")
    case False
    with assms show thesis by (intro noop) (auto simp: consume_def)
  next
    case True
    with assms have we: "write_entry d uid CONSUME reason 0 (consume_key order (generation_for d order))
        actor now (Some order) (generation_for d order) = Inr (x, d')"
      by (simp add: consume_def Let_def)
    show thesis
    proof (cases x)
      case False
      with write_entry_Inr(2) [OF we] show thesis by (intro noop) auto
    qed (use closed True we in simp)
  qed
qed

lemma consume_books_ok:
  assumes "consume d uid order reason actor now = Inr (x, d')" and ok: "books_ok d"
  shows "books_ok d' \<and> moved d d' uid 0"
  using assms(1)
proof (cases rule: consume_cases)
  case noop
  with ok show ?thesis by simp_all
next
  case closed
  note we = closed(3)
  from write_entry_moved [OF we] have mv: "moved d d' uid 0" by simp
  have "covers_paired d'"
    using ok write_entry_by_key [OF we] unfolding books_ok_def covers_paired_def
    by (metis not_cover_keys(3) unenforced_key_is_cover)
  moreover have "\<forall>r \<in> set (ledger d'). entry_shape r"
  proof
    fix r assume "r \<in> set (ledger d')"
    with write_entry_set [OF we, of r] ok show "entry_shape r"
      by (auto simp: books_ok_def entry_shape_def)
  qed
  ultimately show ?thesis
    using ok mv moved_ledger_ok write_entry_net [OF we] by (auto simp: books_ok_def)
qed

lemma settle_books_ok:
  "settle d uid order outcome actor now = Inr (x, d') \<Longrightarrow> books_ok d \<Longrightarrow> books_ok d'"
  by (cases outcome) (auto intro: refund_books_ok [THEN conjunct1] consume_books_ok [THEN conjunct1])

lemma close_one_stale_debit_books_ok:
  "close_one_stale_debit d stale now = Inr (x, d') \<Longrightarrow> books_ok d \<Longrightarrow> books_ok d'"
  by (auto simp: close_one_stale_debit_def split: if_splits intro: refund_books_ok [THEN conjunct1] consume_books_ok [THEN conjunct1])

lemma close_stale_debits_books_ok:
  "close_stale_debits d debits now n = Inr (x, d') \<Longrightarrow> books_ok d \<Longrightarrow> books_ok d'"
  by (induction d debits now n rule: close_stale_debits.induct)
    (auto simp: tx_then_eq_Inr intro: close_one_stale_debit_books_ok)

lemma settle_stale_debits_books_ok:
  "settle_stale_debits d now limit policy = Inr (x, d') \<Longrightarrow> books_ok d \<Longrightarrow> books_ok d'"
  by (auto simp: settle_stale_debits_def Let_def intro: close_stale_debits_books_ok)

lemma grant_books_ok:
  "grant d uid n key actor now reason = Inr (x, d') \<Longrightarrow> \<not> is_cover_key key \<Longrightarrow> books_ok d \<Longrightarrow> books_ok d'"
  by (blast intro: books_ok_grows grant_moved grant_grows)

end
