(* ===== verification/Fulfilment.thy ===== *)
theory Fulfilment
  imports Credit_Charge
begin

text \<open>
  Writing a sale (\<^verbatim>\<open>src/src/bayram/db/fulfilment.py\<close>, \<^verbatim>\<open>db/topup_sql.py\<close>) and the ledger of purchases
  on top of it (\<^verbatim>\<open>db/purchases.py\<close>): a single song is a receipt and a granted credit under one key, a
  plan is a row of songs and days. The interface the sale relies on, crediting once per key, is the
  locale \<open>keyed_credit\<close>; \<open>grant\<close> provides it.
\<close>

section \<open>Crediting under a key\<close>

locale keyed_credit =
  fixes credit :: "'s \<Rightarrow> int \<Rightarrow> int \<Rightarrow> 'k \<Rightarrow> ('s, bool) outcome"
    and recorded :: "'s \<Rightarrow> 'k \<Rightarrow> bool"
    and bal :: "'s \<Rightarrow> int \<Rightarrow> int"
    and good :: "'s \<Rightarrow> bool"
  assumes credit_good: "credit s uid n k = Inr (w, s') \<Longrightarrow> good s \<Longrightarrow> good s'"
    and credit_once: "credit s uid n k = Inr (w, s') \<Longrightarrow> w \<longleftrightarrow> \<not> recorded s k"
    and credit_records: "credit s uid n k = Inr (w, s') \<Longrightarrow> recorded s' j \<longleftrightarrow> recorded s j \<or> j = k"
    and credit_amount: "credit s uid n k = Inr (w, s') \<Longrightarrow> good s \<Longrightarrow>
          bal s' v = bal s v + (if w \<and> v = uid then n else 0)"
begin

fun credit_all :: "'s \<Rightarrow> (int \<times> int \<times> 'k) list \<Rightarrow> exn + 's" where
  "credit_all s [] = Inr s"
| "credit_all s ((uid, n, k) # rest) =
     (case credit s uid n k of Inl e \<Rightarrow> Inl e | Inr (w, s') \<Rightarrow> credit_all s' rest)"

text \<open>A replay moves nothing, whoever sends it and whatever amount it names.\<close>

lemma replay:
  assumes "credit s uid n k = Inr (w, s1)" "credit s1 uid' n' k = Inr (w', s2)" "good s"
  shows "\<not> w' \<and> bal s2 v = bal s1 v"
  using credit_once [OF assms(2)] credit_records [OF assms(1)]
    credit_amount [OF assms(2) credit_good [OF assms(1,3)]] by simp

lemma credit_all_good: "credit_all s reqs = Inr s' \<Longrightarrow> good s \<Longrightarrow> good s'"
  by (induction s reqs rule: credit_all.induct) (auto split: sum.splits prod.splits dest: credit_good)

text \<open>Any number of deliveries of the same request credit it once.\<close>

lemma credit_all_same_recorded:
  assumes "credit_all s reqs = Inr s'" and "good s" and "recorded s k" and "\<forall>r \<in> set reqs. snd (snd r) = k"
  shows "bal s' v = bal s v"
  using assms
proof (induction s reqs rule: credit_all.induct)
  case (1 s)
  then show ?case by simp
next
  case (2 s uid n j rest)
  then obtain w t where c: "credit s uid n j = Inr (w, t)" and rest: "credit_all t rest = Inr s'"
    by (auto split: sum.splits prod.splits)
  moreover have "recorded t k" using credit_records [OF c] 2(4) by simp
  moreover have "bal t v = bal s v"
    using credit_amount [OF c 2(3)] credit_once [OF c] 2(4,5) by simp
  ultimately show ?case using 2 credit_good [OF c 2(3)] by (auto split: sum.splits prod.splits)
qed

lemma credit_all_once:
  assumes "credit_all s (replicate (Suc m) (uid, n, k)) = Inr s'" "good s" "\<not> recorded s k"
  shows "bal s' v = bal s v + (if v = uid then n else 0)"
proof -
  from assms(1) obtain w t where c: "credit s uid n k = Inr (w, t)"
    and rest: "credit_all t (replicate m (uid, n, k)) = Inr s'"
    by (auto split: sum.splits prod.splits)
  have "bal s' v = bal t v"
    by (rule credit_all_same_recorded [OF rest credit_good [OF c assms(2)], of k])
      (use credit_records [OF c] in auto)
  then show ?thesis using credit_amount [OF c assms(2)] credit_once [OF c] assms(3) by simp
qed

end

lemma grant_Inr:
  assumes "grant d uid n key actor now reason = Inr (w, d')"
  shows "1 \<le> n" and "w \<longleftrightarrow> ledger_by_key d key = None"
    and "ledger_by_key d' k \<noteq> None \<longleftrightarrow> ledger_by_key d k \<noteq> None \<or> k = key"
    and "ledger_total d' v = ledger_total d v + (if w \<and> v = uid then n else 0)"
    and "plans d' = plans d" and "account_exists d' uid"
proof -
  from assms obtain o1 d1 w1 d2 where n: "1 \<le> n" and op: "open_account d uid now = Inr (o1, d1)"
    and we: "write_entry d1 uid GRANT reason n key actor now None 0 = Inr (w1, d2)"
    and fin: "(if \<not> w1 then Inr (False, d2)
       else tx_then (add_credits d2 uid n n now None) (\<lambda>_ d. Inr (True, d))) = Inr (w, d')"
    by (auto simp: grant_def tx_then_eq_Inr split: if_splits)
  note led1 = open_account_Inr(2) [OF op]
  have w: "w = w1" and led2: "ledger d' = ledger d2" and pl: "plans d' = plans d2"
    using fin by (auto simp: tx_then_eq_Inr split: if_splits dest: add_credits_Inr)
  show "1 \<le> n" by (rule n)
  show "w \<longleftrightarrow> ledger_by_key d key = None"
    using write_entry_Inr(1) [OF we] by (simp add: w ledger_by_key_def led1)
  show "ledger_by_key d' k \<noteq> None \<longleftrightarrow> ledger_by_key d k \<noteq> None \<or> k = key"
    using write_entry_by_key [OF we, of k] by (simp add: ledger_by_key_def led1 led2)
  show "ledger_total d' v = ledger_total d v + (if w \<and> v = uid then n else 0)"
    using write_entry_Inr(2,3) [OF we] by (cases w1) (auto simp: ledger_total_def led1 led2 w)
  show "plans d' = plans d"
    using write_entry_Inr(2,3) [OF we] open_account_Inr(4) [OF op] pl by (cases w1) auto
  have "account_exists d2 uid"
    using open_account_Inr(3) [OF op] write_entry_Inr(2,3) [OF we]
    by (cases w1) (auto simp: account_exists_def account_row_def)
  then show "account_exists d' uid"
    using fin by (auto simp: add_credits_def tx_then_eq_Inr account_exists_def account_row_def
        select_one_update split: if_splits dest!: update_accounts_Inr(1))
qed

lemma grant_topups: "grant d uid n key actor now reason = Inr (w, d') \<Longrightarrow> topups d' = topups d"
  by (auto simp: grant_def add_credits_def open_account_def write_entry_def update_accounts_def tx_then_def
      split: if_splits sum.splits prod.splits)

lemma ledger_ok_balance: "ledger_ok d \<Longrightarrow> balance_of d v = ledger_total d v"
  by (simp add: ledger_ok_def drift_def)

interpretation grants: keyed_credit
    "\<lambda>d uid n key. grant d uid n key actor now reason"
    "\<lambda>d key. ledger_by_key d key \<noteq> None" balance_of ledger_ok
  for actor now reason
proof
  fix s s' uid n k w j v
  assume g: "grant s uid n k actor now reason = Inr (w, s')"
  show "ledger_ok s \<Longrightarrow> ledger_ok s'" by (rule moved_ledger_ok [OF grant_moved [OF g]])
  then show "ledger_ok s \<Longrightarrow> balance_of s' v = balance_of s v + (if w \<and> v = uid then n else 0)"
    using grant_Inr(4) [OF g] by (simp add: ledger_ok_balance)
  show "w \<longleftrightarrow> \<not> ledger_by_key s k \<noteq> None" using grant_Inr(2) [OF g] by simp
  show "ledger_by_key s' j \<noteq> None \<longleftrightarrow> ledger_by_key s j \<noteq> None \<or> j = k" by (rule grant_Inr(3) [OF g])
qed

section \<open>Purchases\<close>

record purchase =
  pu_product :: product
  pu_provider :: pystr
  pu_reference :: pystr
  pu_amount_minor :: int
  pu_currency :: pystr
  pu_is_paid :: bool
  pu_checkout_url :: "pystr option"

definition topup_by_key :: "db \<Rightarrow> pystr \<Rightarrow> topup_purchase_row option" where
  "topup_by_key d key = select_one tp_idempotency_key key (topups d)"

definition insert_topup ::
    "db \<Rightarrow> int \<Rightarrow> topup_kind \<Rightarrow> int \<Rightarrow> int \<Rightarrow> pystr \<Rightarrow> pystr \<Rightarrow> pystr \<Rightarrow> pystr \<Rightarrow> instant \<Rightarrow> (db, bool) outcome" where
  "insert_topup d uid product credits_granted amount_minor currency provider reference key now =
     (case insert_or_ignore topup_checks tp_idempotency_key no_clash
        \<lparr>tp_telegram_user_id = Some uid, tp_product = product, tp_credits_granted = credits_granted,
         tp_amount_minor = amount_minor, tp_currency = currency, tp_provider = provider,
         tp_reference = reference, tp_idempotency_key = key, tp_created_at = now\<rparr> (topups d) of
        Inl e \<Rightarrow> Inl e
      | Inr (written, rows) \<Rightarrow> Inr (written, d\<lparr>topups := rows\<rparr>))"

definition anonymise_topups :: "db \<Rightarrow> int \<Rightarrow> nat \<times> db" where
  "anonymise_topups d uid =
     (rowcount (\<lambda>r. tp_telegram_user_id r = Some uid) (topups d),
      d\<lparr>topups := sql_update (\<lambda>r. tp_telegram_user_id r = Some uid)
          (\<lambda>r. r\<lparr>tp_telegram_user_id := None\<rparr>) (topups d)\<rparr>)"

definition refuse_an_unpaid_purchase :: "purchase \<Rightarrow> bayram_error option" where
  "refuse_an_unpaid_purchase p =
     (if \<not> pu_is_paid p
      then Some (PaymentError ''refusing to fulfil a purchase the provider has not reported paid'')
      else None)"

definition refuse_a_product_that_is_not_a_topup :: "purchase \<Rightarrow> bayram_error option" where
  "refuse_a_product_that_is_not_a_topup p =
     (if pu_product p \<noteq> SINGLE
      then Some (PaymentError ''refusing to fulfil a purchase that is not a single-song top-up'')
      else None)"

definition refuse_a_product_that_is_not_a_plan :: "purchase \<Rightarrow> bayram_error option" where
  "refuse_a_product_that_is_not_a_plan p =
     (if pu_product p \<noteq> STARTER
      then Some (PaymentError ''refusing to open a plan for a purchase that is not a plan product'')
      else None)"

definition topup_credits :: int where "topup_credits = 1"

definition checkout_actor :: pystr where "checkout_actor = ustr ''checkout''"

definition write_single_sale :: "db \<Rightarrow> int \<Rightarrow> purchase \<Rightarrow> pystr \<Rightarrow> instant \<Rightarrow> (db, unit) outcome" where
  "write_single_sale d uid p key now =
     (case refuse_an_unpaid_purchase p of
        Some e \<Rightarrow> Inl (Raised e)
      | None \<Rightarrow>
         (case refuse_a_product_that_is_not_a_topup p of
            Some e \<Rightarrow> Inl (Raised e)
          | None \<Rightarrow>
             tx_then (insert_topup d uid TopupKind_SINGLE topup_credits (pu_amount_minor p) (pu_currency p)
                        (pu_provider p) (pu_reference p) key now)
               (\<lambda>_ d. tx_then (grant d uid topup_credits key checkout_actor now TOPUP_PURCHASE)
                 (\<lambda>_ d. Inr ((), d)))))"

text \<open>A plan that is still running answers a second purchase; nothing is opened.\<close>

definition write_plan_sale ::
    "db \<Rightarrow> uuid \<Rightarrow> int \<Rightarrow> purchase \<Rightarrow> int \<Rightarrow> int \<Rightarrow> pystr \<Rightarrow> instant \<Rightarrow> (db, plan_purchase_row) outcome" where
  "write_plan_sale d plan_id uid p songs days key now =
     (case refuse_an_unpaid_purchase p of
        Some e \<Rightarrow> Inl (Raised e)
      | None \<Rightarrow>
         (case refuse_a_product_that_is_not_a_plan p of
            Some e \<Rightarrow> Inl (Raised e)
          | None \<Rightarrow>
             (case current_plan d uid now of
                Some running \<Rightarrow> Inr (running, d)
              | None \<Rightarrow>
                 tx_then (insert_plan d plan_id uid PlanKind_STARTER songs (pu_amount_minor p) (pu_currency p)
                            (pu_provider p) (pu_reference p) key (now + days * us_per_day) now)
                   (\<lambda>written d. case plan_by_key d key of
                      None \<Rightarrow> Inl (Raised (StorageError
                        ''the plan disappeared between being written and being read back''))
                    | Some row \<Rightarrow> Inr (row, d)))))"

section \<open>The purchase ledger\<close>

record plan_state =
  ps_plan :: plan_kind
  ps_songs_included :: int
  ps_songs_used :: int
  ps_ends_at :: instant

definition plan_state_of :: "plan_purchase_row \<Rightarrow> plan_state" where
  "plan_state_of row = \<lparr>ps_plan = pp_plan row, ps_songs_included = pp_songs_included row,
     ps_songs_used = pp_songs_used row, ps_ends_at = pp_plan_ends_at row\<rparr>"

definition songs_left :: "plan_state \<Rightarrow> int" where
  "songs_left s = max 0 (ps_songs_included s - ps_songs_used s)"

definition is_live :: "plan_state \<Rightarrow> instant \<Rightarrow> bool" where
  "is_live s now = (now < ps_ends_at s \<and> songs_left s > 0)"

definition is_current :: "plan_state \<Rightarrow> instant \<Rightarrow> bool" where
  "is_current s now = (now < ps_ends_at s)"

definition fulfil_single ::
    "entitlement_policy \<Rightarrow> int \<Rightarrow> purchase \<Rightarrow> pystr \<Rightarrow> instant \<Rightarrow> db \<Rightarrow> db \<times> (bayram_error + credit_balance)" where
  "fulfil_single policy uid p key now =
     run_guarded ''purchases.fulfil_single''
       (\<lambda>d. returning (tx_then (write_single_sale d uid p key now)
          (\<lambda>_ d. Inr (read_balance d uid now policy None, d))))"

definition start_plan ::
    "uuid \<Rightarrow> int \<Rightarrow> purchase \<Rightarrow> int \<Rightarrow> int \<Rightarrow> pystr \<Rightarrow> instant \<Rightarrow> db \<Rightarrow> db \<times> (bayram_error + plan_state)" where
  "start_plan plan_id uid p songs days key now =
     run_guarded ''purchases.start_plan''
       (\<lambda>d. returning (tx_then (write_plan_sale d plan_id uid p songs days key now)
          (\<lambda>row d. Inr (plan_state_of row, d))))"

definition plan_for :: "int \<Rightarrow> instant \<Rightarrow> db \<Rightarrow> plan_state option" where
  "plan_for uid now d = map_option plan_state_of (current_plan d uid now)"

section \<open>What a sale does\<close>

lemma insert_topup_Inr:
  assumes "insert_topup d uid product n amount cur prov ref key now = Inr (w, d')"
  shows "moved d d' v 0" and "ledger d' = ledger d" and "plans d' = plans d"
    and "topup_by_key d' key \<noteq> None"
    and "distinct (map tp_idempotency_key (topups d)) \<Longrightarrow> distinct (map tp_idempotency_key (topups d'))"
proof -
  let ?r = "\<lparr>tp_telegram_user_id = Some uid, tp_product = product, tp_credits_granted = n,
         tp_amount_minor = amount, tp_currency = cur, tp_provider = prov,
         tp_reference = ref, tp_idempotency_key = key, tp_created_at = now\<rparr>"
  from assms obtain rows where
    ins: "insert_or_ignore topup_checks tp_idempotency_key no_clash ?r (topups d) = Inr (w, rows)"
    and d': "d' = d\<lparr>topups := rows\<rparr>"
    by (auto simp: insert_topup_def split: sum.splits)
  show "moved d d' v 0" by (rule moved_no_money) (simp_all add: d')
  show "ledger d' = ledger d" "plans d' = plans d" by (simp_all add: d')
  show "topup_by_key d' key \<noteq> None"
    using insert_or_ignore_present [OF ins] by (simp add: topup_by_key_def d')
  show "distinct (map tp_idempotency_key (topups d)) \<Longrightarrow> distinct (map tp_idempotency_key (topups d'))"
    using insert_or_ignore_distinct [OF ins] by (simp add: d')
qed

lemma write_single_sale_Inr:
  assumes "write_single_sale d uid p key now = Inr (x, d')"
  obtains w d1 w' where "pu_is_paid p" "pu_product p = SINGLE"
    "insert_topup d uid TopupKind_SINGLE topup_credits (pu_amount_minor p) (pu_currency p)
       (pu_provider p) (pu_reference p) key now = Inr (w, d1)"
    "grant d1 uid topup_credits key checkout_actor now TOPUP_PURCHASE = Inr (w', d')"
proof -
  have paid: "pu_is_paid p" "pu_product p = SINGLE"
    using assms by (auto simp: write_single_sale_def refuse_an_unpaid_purchase_def
        refuse_a_product_that_is_not_a_topup_def split: if_splits)
  then have "tx_then (insert_topup d uid TopupKind_SINGLE topup_credits (pu_amount_minor p) (pu_currency p)
        (pu_provider p) (pu_reference p) key now)
      (\<lambda>_ d. tx_then (grant d uid topup_credits key checkout_actor now TOPUP_PURCHASE)
         (\<lambda>_ d. Inr ((), d))) = Inr (x, d')"
    using assms by (simp add: write_single_sale_def refuse_an_unpaid_purchase_def
        refuse_a_product_that_is_not_a_topup_def)
  with paid show thesis by (elim tx_thenE) (auto intro: that)
qed

lemma write_single_sale_moved:
  assumes "write_single_sale d uid p key now = Inr (x, d')"
  shows "moved d d' uid 0"
  using assms
proof (rule write_single_sale_Inr)
  fix w d1 w'
  assume "insert_topup d uid TopupKind_SINGLE topup_credits (pu_amount_minor p) (pu_currency p)
       (pu_provider p) (pu_reference p) key now = Inr (w, d1)"
    and "grant d1 uid topup_credits key checkout_actor now TOPUP_PURCHASE = Inr (w', d')"
  then show ?thesis using moved_trans [OF insert_topup_Inr(1) grant_moved] by simp
qed

lemma write_single_sale_facts:
  assumes "write_single_sale d uid p key now = Inr (x, d')"
  shows "ledger_by_key d' k \<noteq> None \<longleftrightarrow> ledger_by_key d k \<noteq> None \<or> k = key"
    and "ledger_total d' v = ledger_total d v
       + (if ledger_by_key d key = None \<and> v = uid then topup_credits else 0)"
    and "topup_by_key d' key \<noteq> None"
    and "P key \<Longrightarrow> grows d d' P"
proof -
  from write_single_sale_Inr [OF assms] obtain w d1 w' where
    it: "insert_topup d uid TopupKind_SINGLE topup_credits (pu_amount_minor p) (pu_currency p)
       (pu_provider p) (pu_reference p) key now = Inr (w, d1)"
    and gr: "grant d1 uid topup_credits key checkout_actor now TOPUP_PURCHASE = Inr (w', d')" .
  note led = insert_topup_Inr(2) [OF it]
  show "ledger_by_key d' k \<noteq> None \<longleftrightarrow> ledger_by_key d k \<noteq> None \<or> k = key"
    using grant_Inr(3) [OF gr] by (simp add: ledger_by_key_def led)
  show "ledger_total d' v = ledger_total d v
       + (if ledger_by_key d key = None \<and> v = uid then topup_credits else 0)"
    using grant_Inr(2,4) [OF gr] by (simp add: ledger_total_def ledger_by_key_def led)
  show "topup_by_key d' key \<noteq> None"
    using insert_topup_Inr(4) [OF it] grant_topups [OF gr] by (simp add: topup_by_key_def)
  show "P key \<Longrightarrow> grows d d' P"
    using grows_trans [OF grows_same [OF led] grant_grows [OF gr]] .
qed

lemma write_plan_sale_moved: "write_plan_sale d pid uid p songs days key now = Inr (x, d') \<Longrightarrow> moved d d' v 0"
  by (auto simp: write_plan_sale_def tx_then_eq_Inr split: option.splits intro: insert_plan_moved)

lemma insert_plan_ledger:
  "insert_plan d pid uid plan songs amount cur prov ref key ends now = Inr (w, d') \<Longrightarrow> ledger d' = ledger d"
  by (auto simp: insert_plan_def split: sum.splits)

lemma write_plan_sale_ledger: "write_plan_sale d pid uid p songs days key now = Inr (x, d') \<Longrightarrow> ledger d' = ledger d"
  by (auto simp: write_plan_sale_def tx_then_eq_Inr split: option.splits dest: insert_plan_ledger)

text \<open>Opening a plan leaves its buyer with a plan that is running, or it was running already.\<close>

lemma current_plan_Some:
  "current_plan d uid now = Some p \<Longrightarrow> p \<in> set (plans d) \<and> pp_telegram_user_id p = Some uid \<and> now < pp_plan_ends_at p"
  by (auto simp: current_plan_def dest: first_desc_SomeD)

lemma live_plan_Some:
  "live_plan d uid now = Some p \<Longrightarrow> p \<in> set (plans d) \<and> pp_telegram_user_id p = Some uid
     \<and> now < pp_plan_ends_at p \<and> pp_songs_used p < pp_songs_included p"
  by (auto simp: live_plan_def dest: first_desc_SomeD)

end
