(* ===== verification/Credit_Store.thy ===== *)
theory Credit_Store
  imports Fulfilment
begin

text \<open>
  Erasing an account (\<^verbatim>\<open>src/src/bayram/db/credit_erasure.py\<close>) and the guarded store the bot and the
  worker call (\<^verbatim>\<open>SqlCreditLedger\<close> of \<^verbatim>\<open>db/credits.py\<close>), with the step relation of all its
  operations and the invariant of every reachable database.
\<close>

section \<open>Erasure\<close>

record credit_erasure =
  ce_accounts_deleted :: nat
  ce_entries_anonymised :: nat
  ce_plans_anonymised :: nat
  ce_topups_anonymised :: nat
  ce_membership_events_anonymised :: nat
  ce_intents_anonymised :: nat
  ce_recipients_anonymised :: nat
  ce_tickets_deleted :: nat
  ce_ticket_events_deleted :: nat

definition anonymise_bot_membership_events :: "db \<Rightarrow> int \<Rightarrow> nat \<times> db" where
  "anonymise_bot_membership_events d uid =
     (rowcount (\<lambda>r. me_telegram_user_id r = Some uid) (membership_events d),
      d\<lparr>membership_events := sql_update (\<lambda>r. me_telegram_user_id r = Some uid)
          (\<lambda>r. r\<lparr>me_telegram_user_id := None\<rparr>) (membership_events d)\<rparr>)"

definition forget_account :: "db \<Rightarrow> int \<Rightarrow> credit_erasure \<times> db" where
  "forget_account d uid =
     (let (plans_n, d) = anonymise_plans d uid;
          (topups_n, d) = anonymise_topups d uid;
          (events_n, d) = anonymise_bot_membership_events d uid;
          is_intent = (\<lambda>r. pi_telegram_user_id r = Some uid);
          intents_n = rowcount is_intent (intents d);
          d = d\<lparr>intents := sql_update is_intent
                 (\<lambda>r. r\<lparr>pi_telegram_user_id := None, pi_resume_order_id := None\<rparr>) (intents d)\<rparr>;
          is_recipient = (\<lambda>r. br_telegram_user_id r = Some uid);
          recipients_n = rowcount is_recipient (recipients d);
          d = d\<lparr>recipients := sql_update is_recipient
                 (\<lambda>r. r\<lparr>br_telegram_user_id := None\<rparr>) (recipients d)\<rparr>;
          is_entry = (\<lambda>r. cl_telegram_user_id r = Some uid);
          entries_n = rowcount is_entry (ledger d);
          d = d\<lparr>ledger := sql_update is_entry (\<lambda>r. r\<lparr>cl_telegram_user_id := None\<rparr>) (ledger d)\<rparr>;
          of_ticket = (\<lambda>e. \<exists>t \<in> set (tickets d). st_telegram_user_id t = uid \<and> st_id t = se_ticket_id e);
          ticket_events_n = rowcount of_ticket (ticket_events d);
          d = d\<lparr>ticket_events := filter (\<lambda>e. \<not> of_ticket e) (ticket_events d)\<rparr>;
          is_ticket = (\<lambda>t. st_telegram_user_id t = uid);
          tickets_n = rowcount is_ticket (tickets d);
          d = d\<lparr>tickets := filter (\<lambda>t. \<not> is_ticket t) (tickets d)\<rparr>;
          is_account = (\<lambda>a. ac_telegram_user_id a = uid);
          accounts_n = rowcount is_account (accounts d);
          d = d\<lparr>accounts := filter (\<lambda>a. \<not> is_account a) (accounts d)\<rparr>
      in (\<lparr>ce_accounts_deleted = accounts_n, ce_entries_anonymised = entries_n,
           ce_plans_anonymised = plans_n, ce_topups_anonymised = topups_n,
           ce_membership_events_anonymised = events_n, ce_intents_anonymised = intents_n,
           ce_recipients_anonymised = recipients_n, ce_tickets_deleted = tickets_n,
           ce_ticket_events_deleted = ticket_events_n\<rparr>, d))"

lemma forget_account_tables:
  shows "ledger (snd (forget_account d uid)) =
      sql_update (\<lambda>r. cl_telegram_user_id r = Some uid) (\<lambda>r. r\<lparr>cl_telegram_user_id := None\<rparr>) (ledger d)"
    and "accounts (snd (forget_account d uid)) = filter (\<lambda>a. ac_telegram_user_id a \<noteq> uid) (accounts d)"
    and "plans (snd (forget_account d uid)) =
      sql_update (\<lambda>r. pp_telegram_user_id r = Some uid) (\<lambda>r. r\<lparr>pp_telegram_user_id := None\<rparr>) (plans d)"
    and "topups (snd (forget_account d uid)) =
      sql_update (\<lambda>r. tp_telegram_user_id r = Some uid) (\<lambda>r. r\<lparr>tp_telegram_user_id := None\<rparr>) (topups d)"
    and "intents (snd (forget_account d uid)) =
      sql_update (\<lambda>r. pi_telegram_user_id r = Some uid)
        (\<lambda>r. r\<lparr>pi_telegram_user_id := None, pi_resume_order_id := None\<rparr>) (intents d)"
    and "membership_events (snd (forget_account d uid)) =
      sql_update (\<lambda>r. me_telegram_user_id r = Some uid) (\<lambda>r. r\<lparr>me_telegram_user_id := None\<rparr>)
        (membership_events d)"
    and "recipients (snd (forget_account d uid)) =
      sql_update (\<lambda>r. br_telegram_user_id r = Some uid) (\<lambda>r. r\<lparr>br_telegram_user_id := None\<rparr>) (recipients d)"
    and "tickets (snd (forget_account d uid)) = filter (\<lambda>t. st_telegram_user_id t \<noteq> uid) (tickets d)"
    and "transactions (snd (forget_account d uid)) = transactions d"
    and "ticket_events (snd (forget_account d uid)) =
      filter (\<lambda>e. \<not> (\<exists>t \<in> set (tickets d). st_telegram_user_id t = uid \<and> st_id t = se_ticket_id e))
        (ticket_events d)"
  by (simp_all add: forget_account_def anonymise_plans_def anonymise_topups_def
      anonymise_bot_membership_events_def Let_def)

text \<open>No row of the erased tables names the user any more.\<close>

definition names_user :: "db \<Rightarrow> int \<Rightarrow> bool" where
  "names_user d uid \<longleftrightarrow>
     (\<exists>a \<in> set (accounts d). ac_telegram_user_id a = uid)
   \<or> (\<exists>r \<in> set (ledger d). cl_telegram_user_id r = Some uid)
   \<or> (\<exists>r \<in> set (plans d). pp_telegram_user_id r = Some uid)
   \<or> (\<exists>r \<in> set (topups d). tp_telegram_user_id r = Some uid)
   \<or> (\<exists>r \<in> set (intents d). pi_telegram_user_id r = Some uid)
   \<or> (\<exists>r \<in> set (membership_events d). me_telegram_user_id r = Some uid)
   \<or> (\<exists>r \<in> set (recipients d). br_telegram_user_id r = Some uid)
   \<or> (\<exists>t \<in> set (tickets d). st_telegram_user_id t = uid)"

lemma forget_account_clears: "\<not> names_user (snd (forget_account d uid)) uid"
  unfolding names_user_def forget_account_tables by (auto simp: set_sql_update)

lemma sum_filter_update:
  "sum_list (map cl_delta (filter (\<lambda>r. cl_telegram_user_id r = Some v)
      (sql_update (\<lambda>r. cl_telegram_user_id r = Some uid) (\<lambda>r. r\<lparr>cl_telegram_user_id := None\<rparr>) rows)))
    = (if v = uid then 0 else sum_list (map cl_delta (filter (\<lambda>r. cl_telegram_user_id r = Some v) rows)))"
  by (induction rows) (auto simp: sql_update_def)

lemma select_one_filter_other:
  "v \<noteq> w \<Longrightarrow> select_one k v (filter (\<lambda>r. k r \<noteq> w) rows) = select_one k v rows"
  by (induction rows) auto

lemma forget_account_account_row:
  "account_row (snd (forget_account d uid)) v = (if v = uid then None else account_row d v)"
  unfolding account_row_def forget_account_tables
  by (auto simp: select_one_filter_other select_one_None_iff)

lemma forget_account_total:
  "ledger_total (snd (forget_account d uid)) v = (if v = uid then 0 else ledger_total d v)"
  unfolding ledger_total_def forget_account_tables sum_filter_update by simp

lemma forget_account_drift:
  "drift (snd (forget_account d uid)) v = (if v = uid then 0 else drift d v)"
  by (simp add: drift_def balance_of_def account_state_def forget_account_account_row forget_account_total)

lemma sql_update_filter_keys:
  assumes "\<And>r. g (f r) = g r" "\<And>r. h (f r) = h r"
  shows "map g (filter h (sql_update p f rows)) = map g (filter h rows)"
  using assms by (induction rows) (auto simp: sql_update_def)

lemma anonymous_entry [simp]:
  "delta_matches_kind (r\<lparr>cl_telegram_user_id := x\<rparr>) = delta_matches_kind r"
  "entry_shape (r\<lparr>cl_telegram_user_id := x\<rparr>) = entry_shape r"
  by (auto simp: delta_matches_kind_def entry_shape_def split: credit_entry_kind.split option.split)

lemma forget_account_net: "net_position (snd (forget_account d uid)) order = net_position d order"
  unfolding net_position_def forget_account_tables by (subst sql_update_filter_keys) auto

lemma forget_account_books_ok:
  assumes "books_ok d"
  shows "books_ok (snd (forget_account d uid))"
proof -
  let ?d = "snd (forget_account d uid)"
  have keys: "ledger_by_key ?d k \<noteq> None \<longleftrightarrow> ledger_by_key d k \<noteq> None" for k
    unfolding ledger_by_key_def forget_account_tables
    by (simp add: select_one_update)
  note net = forget_account_net
  have "tables_ok ?d"
    using assms unfolding books_ok_def ledger_ok_def tables_ok_def forget_account_tables
    by (auto simp: set_sql_update distinct_map_filter)
  moreover have "drift ?d v = 0" for v
    using assms forget_account_drift [of d uid v] by (simp add: books_ok_def ledger_ok_def)
  moreover have "\<forall>r \<in> set (ledger ?d). entry_shape r"
    using assms unfolding forget_account_tables books_ok_def
    by (auto simp: set_sql_update)
  ultimately show ?thesis
    using assms net keys by (auto simp: books_ok_def ledger_ok_def covers_paired_def)
qed

section \<open>The guarded store\<close>

definition store_charge where
  "store_charge policy uid order actor now server_now cost =
     run_guarded ''credits.charge''
       (\<lambda>d. returning (charge d uid order actor now cost policy server_now))"

definition store_settle where
  "store_settle uid order outcome actor now =
     run_guarded ''credits.settle'' (\<lambda>d. returning (settle d uid order outcome actor now))"

definition store_grant where
  "store_grant policy uid credits key actor now =
     run_guarded ''credits.grant''
       (\<lambda>d. returning (tx_then (grant d uid credits key actor now ADMIN_GRANT)
          (\<lambda>_ d. Inr (read_balance d uid now policy None, d))))"

definition store_balance_for where
  "store_balance_for policy uid exclude now d = read_balance d uid now policy exclude"

definition store_set_blocked :: "uuid \<Rightarrow> int \<Rightarrow> bool \<Rightarrow> instant \<Rightarrow> db \<Rightarrow> db" where
  "store_set_blocked fresh uid blocked now d = set_blocked d fresh uid blocked now"

definition store_touch :: "uuid \<Rightarrow> int \<Rightarrow> language option \<Rightarrow> instant \<Rightarrow> db \<Rightarrow> db" where
  "store_touch fresh uid ui_language now d = touch d fresh uid ui_language now"

definition store_forget :: "int \<Rightarrow> db \<Rightarrow> db" where
  "store_forget uid d = snd (forget_account d uid)"

section \<open>Every run of the store\<close>

text \<open>
  One rule per operation, the sweep and a sale included; the only hypothesis on callers is that
  their own grant keys stay out of the namespace of the dark-render covers.
\<close>

inductive credit_step :: "db \<Rightarrow> db \<Rightarrow> bool" where
  charge: "credit_step d (fst (store_charge policy uid order actor now server_now cost d))"
| settle: "credit_step d (fst (store_settle uid order outcome actor now d))"
| grant: "\<not> is_cover_key key \<Longrightarrow> credit_step d (fst (store_grant policy uid credits key actor now d))"
| block: "credit_step d (store_set_blocked fresh uid blocked now d)"
| touch: "credit_step d (store_touch fresh uid lang now d)"
| forget: "credit_step d (store_forget uid d)"
| sweep: "settle_stale_debits d now limit policy = Inr (n, d') \<Longrightarrow> credit_step d d'"
| single: "\<not> is_cover_key key \<Longrightarrow> credit_step d (fst (fulfil_single policy uid p key now d))"
| plan: "credit_step d (fst (start_plan plan_id uid p songs days key now d))"

inductive credit_reachable :: "db \<Rightarrow> bool" where
  start: "credit_reachable empty_db"
| step: "credit_reachable d \<Longrightarrow> credit_step d d' \<Longrightarrow> credit_reachable d'"

inductive_cases credit_stepE: "credit_step d d'"

lemma books_ok_frame:
  assumes "books_ok d" "accounts d' = accounts d" "ledger d' = ledger d"
  shows "books_ok d'"
proof -
  have "drift d' v = drift d v" for v
    using balance_of_cong [OF assms(2)] ledger_total_cong [OF assms(3)] by (simp add: drift_def)
  moreover have "tables_ok d' = tables_ok d" using assms(2,3) by (simp add: tables_ok_def)
  moreover have "covers_paired d' = covers_paired d"
    using assms(3) by (simp add: covers_paired_def ledger_by_key_def)
  moreover have "net_position d' order = net_position d order" for order
    by (rule net_position_cong) (rule assms(3))
  ultimately show ?thesis using assms(1,3) unfolding books_ok_def ledger_ok_def by simp
qed

lemma set_blocked_frame [simp]:
  "accounts (set_blocked d fresh uid b now) = accounts d" "ledger (set_blocked d fresh uid b now) = ledger d"
  "accounts (touch d fresh uid l now) = accounts d" "ledger (touch d fresh uid l now) = ledger d"
  by (simp_all add: set_blocked_def touch_def)

lemma guarded_books_ok:
  assumes "books_ok d" and "\<And>a e. f d = Inr (a, e) \<Longrightarrow> books_ok e"
  shows "books_ok (fst (run_guarded op (\<lambda>d. returning (f d)) d))"
proof -
  obtain s v where r: "run_guarded op (\<lambda>d. returning (f d)) d = (s, v)" by fastforce
  then have "books_ok s"
    by (rule run_guarded_keeps [where P = books_ok]) (use assms in \<open>auto simp: returning_eq_Inr\<close>)
  with r show ?thesis by simp
qed

lemma write_single_sale_books_ok:
  "write_single_sale d uid p key now = Inr (x, d') \<Longrightarrow> \<not> is_cover_key key \<Longrightarrow> books_ok d \<Longrightarrow> books_ok d'"
  by (rule books_ok_grows [OF write_single_sale_moved write_single_sale_facts(4)])

lemma write_plan_sale_books_ok:
  "write_plan_sale d pid uid p songs days key now = Inr (x, d') \<Longrightarrow> books_ok d \<Longrightarrow> books_ok d'"
  by (rule books_ok_grows [OF write_plan_sale_moved grows_same [OF write_plan_sale_ledger]])

lemma credit_step_books_ok: "credit_step d d' \<Longrightarrow> books_ok d \<Longrightarrow> books_ok d'"
proof (induction rule: credit_step.induct)
  case (charge d policy uid order actor now server_now cost)
  then show ?case unfolding store_charge_def
    by (intro guarded_books_ok) (auto dest: charge_books_ok)
next
  case (settle d uid order outcome actor now)
  then show ?case unfolding store_settle_def
    by (intro guarded_books_ok) (auto dest: settle_books_ok)
next
  case (grant key d policy uid credits actor now)
  then show ?case unfolding store_grant_def
    by (intro guarded_books_ok) (auto simp: tx_then_eq_Inr dest: grant_books_ok)
next
  case (single key d policy uid p now)
  then show ?case unfolding fulfil_single_def
    by (intro guarded_books_ok) (auto simp: tx_then_eq_Inr dest: write_single_sale_books_ok)
next
  case (plan d plan_id uid p songs days key now)
  then show ?case unfolding start_plan_def
    by (intro guarded_books_ok) (auto simp: tx_then_eq_Inr dest: write_plan_sale_books_ok)
next
  case (sweep d now limit policy n d')
  then show ?case by (blast intro: settle_stale_debits_books_ok)
qed (auto simp: store_set_blocked_def store_touch_def store_forget_def
      intro: books_ok_frame forget_account_books_ok)

lemma books_ok_empty: "books_ok empty_db"
  by (simp add: books_ok_def ledger_ok_def tables_ok_def covers_paired_def drift_def balance_of_def
      account_state_def account_row_def ledger_total_def ledger_by_key_def net_position_def empty_db_def)

lemma credit_reachable_books_ok: "credit_reachable d \<Longrightarrow> books_ok d"
  by (induction rule: credit_reachable.induct) (auto intro: books_ok_empty credit_step_books_ok)

end
