(* ===== verification/Payme_Ledger.thy ===== *)
theory Payme_Ledger
  imports Payme_Sql Credit_Store
begin

text \<open>
  The Payme ledger on the database (\<^verbatim>\<open>SqlPaymeLedger\<close> of \<^verbatim>\<open>src/src/bayram/db/payme.py\<close>): opening an
  intent, the five calls of the rail, the two sweeps, the notification and resume claims and the
  operator's forced settlement. The configuration is the constructor's arguments; the identifiers
  \<^verbatim>\<open>uuid4\<close> and \<^verbatim>\<open>secrets.token_hex\<close> mint are arguments of the operation that uses them, and so is
  the id of a plan a settlement may open. A step that runs inside another operation's session
  takes the row that operation read, which another session may have changed since.
\<close>

record payme_config =
  pc_merchant_id :: pystr
  pc_timeout_ms :: int
  pc_intent_ttl_s :: int
  pc_duplicate_code :: int
  pc_account_field :: pystr

section \<open>Views\<close>

record payment_intent =
  in_public_ref :: pystr
  in_idempotency_key :: pystr
  in_telegram_user_id :: "int option"
  in_product :: product
  in_amount_minor :: int
  in_currency :: pystr
  in_language :: pystr
  in_merchant_id :: pystr
  in_is_sandbox :: bool
  in_plan_songs :: "int option"
  in_plan_days :: "int option"
  in_state :: payment_intent_state
  in_valid_until :: instant
  in_settled_at :: "instant option"
  in_notified_at :: "instant option"
  in_resume_order_id :: "uuid option"

definition intent_view :: "payment_intent_row \<Rightarrow> payment_intent" where
  "intent_view row = \<lparr>in_public_ref = pi_public_ref row, in_idempotency_key = pi_idempotency_key row,
     in_telegram_user_id = pi_telegram_user_id row, in_product = pi_product row,
     in_amount_minor = pi_amount_minor row, in_currency = pi_currency row,
     in_language = pi_language row, in_merchant_id = pi_merchant_id row,
     in_is_sandbox = pi_is_sandbox row, in_plan_songs = pi_plan_songs row,
     in_plan_days = pi_plan_days row, in_state = pi_state row, in_valid_until = pi_valid_until row,
     in_settled_at = pi_settled_at row, in_notified_at = pi_notified_at row,
     in_resume_order_id = pi_resume_order_id row\<rparr>"

record payme_transaction_view =
  tv_payme_transaction_id :: pystr
  tv_our_id :: uuid
  tv_intent_public_ref :: pystr
  tv_payme_time :: instant
  tv_amount_minor :: int
  tv_state :: payme_state
  tv_cancel_reason :: "int option"
  tv_create_time :: instant
  tv_perform_time :: "instant option"
  tv_cancel_time :: "instant option"

definition transaction_view :: "payme_transaction_row \<Rightarrow> pystr \<Rightarrow> payme_transaction_view" where
  "transaction_view row ref = \<lparr>tv_payme_transaction_id = pt_payme_transaction_id row,
     tv_our_id = pt_id row, tv_intent_public_ref = ref, tv_payme_time = pt_payme_time row,
     tv_amount_minor = pt_amount_minor row, tv_state = pt_state row,
     tv_cancel_reason = pt_cancel_reason row, tv_create_time = pt_create_time row,
     tv_perform_time = pt_perform_time row, tv_cancel_time = pt_cancel_time row\<rparr>"

record payme_statement_row =
  sr_transaction :: payme_transaction_view
  sr_account_value :: pystr
  sr_product :: product

definition view_of :: "db \<Rightarrow> payme_transaction_row \<Rightarrow> (db, payme_transaction_view) outcome" where
  "view_of d row =
     (case intent_by_id d (pt_intent_id row) of
        None \<Rightarrow> Inl (Raised (StorageError ''a transaction points at an intent that does not exist''))
      | Some intent \<Rightarrow> Inr (transaction_view row (pi_public_ref intent), d))"

section \<open>The account ladder\<close>

definition payable_intent_or_refuse ::
    "payme_config \<Rightarrow> payment_intent_row option \<Rightarrow> int \<Rightarrow> instant \<Rightarrow> bayram_error + payment_intent_row" where
  "payable_intent_or_refuse cfg found amount_minor now =
     (let fault = (\<lambda>m code. Inl (PaymeAccountFault m (error_code code) (pc_account_field cfg)))
      in case found of
        None \<Rightarrow> fault ''no payable order exists under that reference'' Account_Unknown
      | Some row \<Rightarrow>
         if pi_telegram_user_id row = None
         then fault ''no payable order exists under that reference'' Account_Unknown
         else if pi_merchant_id row \<noteq> pc_merchant_id cfg
         then fault ''that order was issued for a different cashbox'' Account_Wrong_Merchant
         else case account_fault_for (pi_state row) of
           Some terminal \<Rightarrow> fault ''that order is no longer payable'' terminal
         | None \<Rightarrow>
            if pi_state row = Intent_AWAITING
            then Inl (PaymeStateRefusal ''this order already has another active transaction'' (pc_duplicate_code cfg))
            else if pi_valid_until row \<le> now
            then fault ''that order's payment window has closed'' Account_Expired
            else if pi_amount_minor row \<noteq> amount_minor
            then Inl (PaymeAmountMismatch ''the amount quoted does not match the amount the order was opened for'')
            else Inr row)"

section \<open>Steps inside a session\<close>

definition time_out :: "db \<Rightarrow> payme_transaction_row \<Rightarrow> instant \<Rightarrow> db" where
  "time_out d row now =
     (let (_, d) = mark_cancelled d (pt_id row) now (reason_code Timeout) Payme_CREATED Payme_CANCELLED;
          (_, d) = release_intent d (pt_intent_id row) (pt_id row) now
      in d)"

definition open_transaction ::
    "payme_config \<Rightarrow> uuid \<Rightarrow> db \<Rightarrow> payment_intent_row \<Rightarrow> pystr \<Rightarrow> instant \<Rightarrow> int \<Rightarrow> instant
      \<Rightarrow> (db, payme_transaction_view) outcome" where
  "open_transaction cfg transaction_id d intent payme_id payme_time amount_minor now =
     tx_then (insert_transaction d transaction_id payme_id (pi_id intent) payme_time amount_minor now now)
       (\<lambda>written d.
          if \<not> written then
            (case transaction_by_payme_id d payme_id of
               Some raced \<Rightarrow>
                 if pt_state raced = Payme_CREATED then Inr (transaction_view raced (pi_public_ref intent), d)
                 else Inl (Raised (PaymeStateRefusal
                   ''a create lost a race and the winning transaction is no longer open'' (error_code State_Refusal)))
             | None \<Rightarrow> Inl (Raised (PaymeStateRefusal
                   ''a create lost a race and the winning transaction is no longer open'' (error_code State_Refusal))))
          else
            (case hold_intent d (pi_id intent) transaction_id now of
               (held, d) \<Rightarrow>
                 if \<not> held then Inl (Raised (PaymeStateRefusal
                   ''this order already has another active transaction'' (pc_duplicate_code cfg)))
                 else (case transaction_by_payme_id d payme_id of
                    None \<Rightarrow> Inl (Raised (StorageError
                      ''the transaction disappeared between being written and being read back''))
                  | Some row \<Rightarrow> Inr (transaction_view row (pi_public_ref intent), d))))"

definition payme_provider_name :: pystr where "payme_provider_name = ustr ''payme''"

text \<open>The sale of a settled intent, by its own product and under its own key.\<close>

definition write_sale ::
    "uuid \<Rightarrow> db \<Rightarrow> payment_intent_row \<Rightarrow> int \<Rightarrow> pystr \<Rightarrow> instant \<Rightarrow> (db, unit) outcome" where
  "write_sale plan_id d intent uid ref now =
     (let purchase = \<lparr>pu_product = pi_product intent, pu_provider = payme_provider_name,
            pu_reference = ref, pu_amount_minor = pi_amount_minor intent,
            pu_currency = pi_currency intent, pu_is_paid = True, pu_checkout_url = None\<rparr>
      in if pi_product intent = SINGLE
         then write_single_sale d uid purchase (pi_idempotency_key intent) now
         else (case (pi_plan_songs intent, pi_plan_days intent) of
            (Some songs, Some days) \<Rightarrow>
               tx_then (write_plan_sale d plan_id uid purchase songs days (pi_idempotency_key intent) now)
                 (\<lambda>_ d. Inr ((), d))
          | _ \<Rightarrow> Inl (Raised (StorageError ''a plan intent reached settlement without its plan snapshot''))))"

text \<open>A lost claim is the operator's settlement when the intent is paid and still held by this transaction.\<close>

definition already_settled_by_this_transaction_or_refuse ::
    "payment_intent_row option \<Rightarrow> payme_transaction_row \<Rightarrow> bayram_error + payment_intent_row" where
  "already_settled_by_this_transaction_or_refuse found row =
     (case found of
        Some intent \<Rightarrow>
          if pi_state intent = Intent_PAID \<and> pi_active_transaction_id intent = Some (pt_id row)
          then Inr intent
          else Inl (PaymeStateRefusal ''the intent this transaction was holding is no longer claimable by it''
                 (error_code State_Refusal))
      | None \<Rightarrow> Inl (PaymeStateRefusal ''the intent this transaction was holding is no longer claimable by it''
                 (error_code State_Refusal)))"

definition rail_settle_note :: pystr where "rail_settle_note = ustr ''payme''"

definition raising :: "bayram_error + 'a \<Rightarrow> 's \<Rightarrow> ('s, 'a) outcome" where
  "raising r s = (case r of Inl e \<Rightarrow> Inl (Raised e) | Inr a \<Rightarrow> Inr (a, s))"

definition settle_perform ::
    "payme_config \<Rightarrow> uuid \<Rightarrow> db \<Rightarrow> payme_transaction_row \<Rightarrow> instant \<Rightarrow> (db, payme_transaction_view) outcome" where
  "settle_perform cfg plan_id d row now =
     (case mark_performed d (pt_id row) now of (marked, d) \<Rightarrow>
        if \<not> marked then
          (case transaction_by_payme_id d (pt_payme_transaction_id row) of
             Some fresh \<Rightarrow>
               if pt_state fresh = Payme_PERFORMED then view_of d fresh
               else Inl (Raised (PaymeStateRefusal
                 ''the transaction left the created state while it was being performed'' (error_code State_Refusal)))
           | None \<Rightarrow> Inl (Raised (PaymeStateRefusal
                 ''the transaction left the created state while it was being performed'' (error_code State_Refusal))))
        else (case intent_by_id d (pt_intent_id row) of
          None \<Rightarrow> Inl (Raised (StorageError ''a transaction points at an intent that does not exist''))
        | Some intent \<Rightarrow>
           if pi_merchant_id intent \<noteq> pc_merchant_id cfg
           then Inl (Raised (PaymeAccountFault ''a settlement arrived for a link issued by a different cashbox''
                  (error_code Account_Wrong_Merchant) (pc_account_field cfg)))
           else (case claim_intent d (pi_id intent) (pt_id row) now rail_settle_note of (claimed, d) \<Rightarrow>
             tx_then (if claimed then Inr (intent, d)
                      else raising (already_settled_by_this_transaction_or_refuse
                                      (intent_by_id d (pt_intent_id row)) row) d)
               (\<lambda>intent d.
                 tx_then (case pi_telegram_user_id intent of
                            None \<Rightarrow> Inr ((), d)
                          | Some uid \<Rightarrow> write_sale plan_id d intent uid (pt_payme_transaction_id row) now)
                   (\<lambda>_ d. case transaction_by_payme_id d (pt_payme_transaction_id row) of
                       None \<Rightarrow> Inl (Raised (StorageError
                         ''the transaction disappeared between being performed and being read back''))
                     | Some fresh \<Rightarrow> Inr (transaction_view fresh (pi_public_ref intent), d))))))"

section \<open>The operations\<close>

definition ledger_open_intent ::
    "payme_config \<Rightarrow> uuid \<Rightarrow> pystr \<Rightarrow> intent_request \<Rightarrow> instant \<Rightarrow> db \<Rightarrow> db \<times> (bayram_error + payment_intent)" where
  "ledger_open_intent cfg intent_id public_ref r now =
     run_guarded ''payme.open_intent'' (\<lambda>d. returning
       (tx_then (insert_intent d intent_id public_ref r payme_provider_name
                   (now + pc_intent_ttl_s cfg * us_per_second) now)
         (\<lambda>_ d. case intent_by_key d (ir_idempotency_key r) of
            None \<Rightarrow> Inl (Raised (StorageError
              ''the payment intent disappeared between being written and being read back''))
          | Some row \<Rightarrow> Inr (intent_view row, d))))"

definition ledger_intent :: "pystr \<Rightarrow> db \<Rightarrow> payment_intent option" where
  "ledger_intent public_ref d = map_option intent_view (intent_by_ref d public_ref)"

definition ledger_quote ::
    "payme_config \<Rightarrow> pystr \<Rightarrow> int \<Rightarrow> instant \<Rightarrow> db \<Rightarrow> db \<times> (bayram_error + unit)" where
  "ledger_quote cfg public_ref amount_minor now =
     run_guarded ''payme.quote'' (\<lambda>d. returning
       (tx_then (raising (payable_intent_or_refuse cfg (intent_by_ref d public_ref) amount_minor now) d)
         (\<lambda>_ d. Inr ((), d))))"

definition ledger_create ::
    "payme_config \<Rightarrow> uuid \<Rightarrow> pystr \<Rightarrow> instant \<Rightarrow> int \<Rightarrow> pystr \<Rightarrow> instant \<Rightarrow> db
      \<Rightarrow> db \<times> (bayram_error + payme_transaction_view)" where
  "ledger_create cfg transaction_id payme_id payme_time amount_minor public_ref now =
     run_guarded ''payme.create'' (\<lambda>d.
       case transaction_by_payme_id d payme_id of
         Some existing \<Rightarrow>
           if pt_state existing \<noteq> Payme_CREATED
           then Inl (Raised (PaymeStateRefusal ''a create arrived for a transaction that is no longer open''
                  (error_code State_Refusal)))
           else if \<not> is_expired (pt_payme_time existing) now (pc_timeout_ms cfg)
           then returning (view_of d existing)
           else Inr (Inl (PaymeStateRefusal
                  ''a create arrived for a transaction whose twelve-hour window had already closed''
                  (error_code State_Refusal)), time_out d existing now)
       | None \<Rightarrow> returning
           (tx_then (raising (payable_intent_or_refuse cfg (intent_by_ref d public_ref) amount_minor now) d)
             (\<lambda>intent d. open_transaction cfg transaction_id d intent payme_id payme_time amount_minor now)))"

definition ledger_perform ::
    "payme_config \<Rightarrow> uuid \<Rightarrow> pystr \<Rightarrow> instant \<Rightarrow> db \<Rightarrow> db \<times> (bayram_error + payme_transaction_view)" where
  "ledger_perform cfg plan_id payme_id now =
     run_guarded ''payme.perform'' (\<lambda>d.
       case transaction_by_payme_id d payme_id of
         None \<Rightarrow> Inl (Raised (PaymeTransactionNotFound ''a perform arrived for a transaction we never created''))
       | Some row \<Rightarrow>
           if pt_state row = Payme_PERFORMED then returning (view_of d row)
           else if pt_state row \<noteq> Payme_CREATED
           then Inl (Raised (PaymeStateRefusal ''a perform arrived for a transaction that is no longer open''
                  (error_code State_Refusal)))
           else if \<not> is_expired (pt_payme_time row) now (pc_timeout_ms cfg)
           then returning (settle_perform cfg plan_id d row now)
           else Inr (Inl (PaymeStateRefusal
                  ''a perform arrived for a transaction whose twelve-hour window had already closed''
                  (error_code State_Refusal)), time_out d row now))"

definition ledger_cancel ::
    "pystr \<Rightarrow> int \<Rightarrow> instant \<Rightarrow> db \<Rightarrow> db \<times> (bayram_error + payme_transaction_view)" where
  "ledger_cancel payme_id reason now =
     run_guarded ''payme.cancel'' (\<lambda>d. returning
       (case transaction_by_payme_id d payme_id of
         None \<Rightarrow> Inl (Raised (PaymeTransactionNotFound ''a cancel arrived for a transaction we never created''))
       | Some row \<Rightarrow>
           if pt_state row = Payme_CANCELLED \<or> pt_state row = Payme_CANCELLED_AFTER_PERFORM then view_of d row
           else if pt_state row = Payme_PERFORMED
           then Inl (Raised (PaymeOrderDelivered
                  ''a cancel arrived for a transaction whose credit has already been granted''))
           else
             (case mark_cancelled d (pt_id row) now reason Payme_CREATED Payme_CANCELLED of (_, d) \<Rightarrow>
              case release_intent d (pt_intent_id row) (pt_id row) now of (_, d) \<Rightarrow>
              case transaction_by_payme_id d payme_id of
                None \<Rightarrow> Inl (Raised (StorageError
                  ''the transaction disappeared between being cancelled and being read back''))
              | Some fresh \<Rightarrow> view_of d fresh)))"

definition ledger_read :: "pystr \<Rightarrow> db \<Rightarrow> db \<times> (bayram_error + payme_transaction_view)" where
  "ledger_read payme_id =
     run_guarded ''payme.read'' (\<lambda>d. returning
       (case transaction_by_payme_id d payme_id of
         None \<Rightarrow> Inl (Raised (PaymeTransactionNotFound
           ''a status check arrived for a transaction we never created''))
       | Some row \<Rightarrow> view_of d row))"

definition ledger_statement :: "instant \<Rightarrow> instant \<Rightarrow> db \<Rightarrow> payme_statement_row list" where
  "ledger_statement frm to d =
     map (\<lambda>(row, ref, prod). \<lparr>sr_transaction = transaction_view row ref, sr_account_value = ref,
            sr_product = prod\<rparr>) (transactions_in_period d frm to)"

text \<open>The two sweeps: a bounded selection, then one conditional step per row it read.\<close>

definition expire_step :: "instant \<Rightarrow> payment_intent_row \<Rightarrow> nat \<times> db \<Rightarrow> nat \<times> db" where
  "expire_step now row = (\<lambda>(n, d).
     case expire_intent d (pi_id row) now of (hit, d) \<Rightarrow> (if hit then n + 1 else n, d))"

definition ledger_expire_lapsed :: "instant \<Rightarrow> nat \<Rightarrow> db \<Rightarrow> nat \<times> db" where
  "ledger_expire_lapsed now limit d = fold (expire_step now) (lapsed_pending_intents d now limit) (0, d)"

definition stale_step :: "payme_config \<Rightarrow> instant \<Rightarrow> payme_transaction_row \<Rightarrow> nat \<times> db \<Rightarrow> nat \<times> db" where
  "stale_step cfg now row = (\<lambda>(n, d).
     if \<not> is_expired (pt_payme_time row) now (pc_timeout_ms cfg) then (n, d)
     else (n + 1, time_out d row now))"

definition ledger_expire_stale_transactions :: "payme_config \<Rightarrow> instant \<Rightarrow> nat \<Rightarrow> db \<Rightarrow> nat \<times> db" where
  "ledger_expire_stale_transactions cfg now limit d =
     fold (stale_step cfg now) (stale_created_transactions d (now - pc_timeout_ms cfg * 1000) limit) (0, d)"

definition ledger_pending_notifications :: "instant \<Rightarrow> nat \<Rightarrow> db \<Rightarrow> payment_intent list" where
  "ledger_pending_notifications older_than limit d =
     map intent_view (unnotified_settled_intents d older_than limit)"

definition ledger_mark_notified :: "pystr \<Rightarrow> instant \<Rightarrow> db \<Rightarrow> db \<times> (bayram_error + bool)" where
  "ledger_mark_notified public_ref now =
     run_guarded ''payme.mark_notified'' (\<lambda>d. returning
       (case intent_by_ref d public_ref of
          None \<Rightarrow> Inl (Raised (NotFoundError ''payment_intent not found''))
        | Some row \<Rightarrow> Inr (mark_intent_notified d (pi_id row) now)))"

definition ledger_claim_resume :: "pystr \<Rightarrow> instant \<Rightarrow> db \<Rightarrow> db \<times> (bayram_error + bool)" where
  "ledger_claim_resume public_ref now =
     run_guarded ''payme.claim_resume'' (\<lambda>d. returning
       (case intent_by_ref d public_ref of
          None \<Rightarrow> Inl (Raised (NotFoundError ''payment_intent not found''))
        | Some row \<Rightarrow> Inr (claim_intent_resume d (pi_id row) now)))"

definition operator_settle_prefix :: pystr where "operator_settle_prefix = ustr ''operator:''"
definition settle_note_length :: nat where "settle_note_length = 64"

definition ledger_force_settle ::
    "uuid \<Rightarrow> pystr \<Rightarrow> instant \<Rightarrow> pystr \<Rightarrow> db \<Rightarrow> db \<times> (bayram_error + payment_intent)" where
  "ledger_force_settle plan_id public_ref now note =
     run_guarded ''payme.force_settle'' (\<lambda>d. returning
       (case intent_by_ref d public_ref of
          None \<Rightarrow> Inl (Raised (NotFoundError ''payment_intent not found''))
        | Some row \<Rightarrow>
           if pi_state row = Intent_PAID then Inr (intent_view row, d)
           else (case pi_telegram_user_id row of
             None \<Rightarrow> Inl (Raised (PaymentError ''refusing to force-settle an intent whose buyer has been erased''))
           | Some uid \<Rightarrow>
              (case claim_intent_for_operator d (pi_id row) now
                      (take settle_note_length (operator_settle_prefix @ note)) of (claimed, d) \<Rightarrow>
                 if \<not> claimed
                 then Inl (Raised (PaymentError ''refusing to force-settle an intent that is not open''))
                 else tx_then (write_sale plan_id d row uid public_ref now)
                   (\<lambda>_ d. case intent_by_ref d public_ref of
                      None \<Rightarrow> Inl (Raised (StorageError
                        ''the intent disappeared between being settled and being read back''))
                    | Some settled \<Rightarrow> Inr (intent_view settled, d))))))"

record settlement_totals =
  sc_transactions_performed :: nat
  sc_receipts_written :: nat
  sc_grants_written :: nat

definition ledger_settlement_counts :: "instant \<Rightarrow> instant \<Rightarrow> db \<Rightarrow> settlement_totals" where
  "ledger_settlement_counts frm to d =
     (case settlement_counts d frm to of (performed, receipts, grants) \<Rightarrow>
        \<lparr>sc_transactions_performed = performed, sc_receipts_written = receipts,
         sc_grants_written = grants\<rparr>)"

end
