(* ===== verification/Payme_Invariant.thy ===== *)
theory Payme_Invariant
  imports Payme_Ledger
begin

text \<open>
  The well-formedness of the rail's two tables and how each step of the ledger keeps it: a
  transaction belongs to an intent of its amount, an open or performed transaction is the one its
  intent is held by, an intent is held by an open transaction, and a paid single-song intent has its
  credit in the ledger.
\<close>

section \<open>The invariant\<close>

definition tx_at :: "db \<Rightarrow> uuid \<Rightarrow> payme_transaction_row option" where
  "tx_at d x = select_one pt_id x (transactions d)"

definition rail_tables_ok :: "db \<Rightarrow> bool" where
  "rail_tables_ok d \<longleftrightarrow> distinct (map pi_id (intents d)) \<and> distinct (map pi_public_ref (intents d))
     \<and> distinct (map pi_idempotency_key (intents d))
     \<and> distinct (map pt_id (transactions d)) \<and> distinct (map pt_payme_transaction_id (transactions d))"

text \<open>A transaction against the intent it names.\<close>

definition pair_ok :: "payme_transaction_row \<Rightarrow> payment_intent_row \<Rightarrow> bool" where
  "pair_ok t i \<longleftrightarrow> pt_amount_minor t = pi_amount_minor i \<and>
     (case pt_state t of
        Payme_CREATED \<Rightarrow> pt_perform_time t = None \<and> pt_cancel_time t = None \<and> pt_cancel_reason t = None
          \<and> pi_active_transaction_id i = Some (pt_id t) \<and> (pi_state i = Intent_AWAITING \<or> pi_state i = Intent_PAID)
      | Payme_PERFORMED \<Rightarrow> pt_perform_time t \<noteq> None \<and> pt_cancel_time t = None \<and> pt_cancel_reason t = None
          \<and> pi_active_transaction_id i = Some (pt_id t) \<and> pi_state i = Intent_PAID
      | Payme_CANCELLED \<Rightarrow> pt_perform_time t = None \<and> pt_cancel_time t \<noteq> None \<and> pt_cancel_reason t \<noteq> None
      | Payme_CANCELLED_AFTER_PERFORM \<Rightarrow> False)"

text \<open>An intent on its own.\<close>

definition intent_row_ok :: "payment_intent_row \<Rightarrow> bool" where
  "intent_row_ok i \<longleftrightarrow> intent_checks i \<and> \<not> is_cover_key (pi_idempotency_key i) \<and>
     (pi_resumed_at i \<noteq> None \<longrightarrow> pi_state i = Intent_PAID) \<and>
     (case pi_state i of
        Intent_PENDING \<Rightarrow> pi_active_transaction_id i = None \<and> pi_settled_at i = None
      | Intent_AWAITING \<Rightarrow> pi_settled_at i = None
      | Intent_PAID \<Rightarrow> pi_settled_at i \<noteq> None \<and> pi_settle_note i \<noteq> None
      | Intent_EXPIRED \<Rightarrow> pi_active_transaction_id i = None \<and> pi_settled_at i = None
      | Intent_CANCELLED \<Rightarrow> False)"

text \<open>An intent against the rest of the database.\<close>

definition held_ok :: "db \<Rightarrow> payment_intent_row \<Rightarrow> bool" where
  "held_ok d i \<longleftrightarrow> (pi_state i = Intent_AWAITING \<longrightarrow>
     (\<exists>t. pi_active_transaction_id i = Some (pt_id t) \<and> tx_at d (pt_id t) = Some t
        \<and> pt_intent_id t = pi_id i \<and> pt_state t = Payme_CREATED))"

definition paid_ok :: "db \<Rightarrow> payment_intent_row \<Rightarrow> bool" where
  "paid_ok d i \<longleftrightarrow> (pi_state i = Intent_PAID \<and> pi_product i = SINGLE \<and> pi_telegram_user_id i \<noteq> None
     \<longrightarrow> ledger_by_key d (pi_idempotency_key i) \<noteq> None)"

definition payme_ok :: "db \<Rightarrow> bool" where
  "payme_ok d \<longleftrightarrow> rail_tables_ok d
     \<and> (\<forall>x t. tx_at d x = Some t \<longrightarrow> (\<exists>i. intent_by_id d (pt_intent_id t) = Some i \<and> pair_ok t i))
     \<and> (\<forall>k i. intent_by_id d k = Some i \<longrightarrow> intent_row_ok i \<and> held_ok d i \<and> paid_ok d i)"

lemma payme_okI:
  assumes "rail_tables_ok d"
    and "\<And>x t. tx_at d x = Some t \<Longrightarrow> \<exists>i. intent_by_id d (pt_intent_id t) = Some i \<and> pair_ok t i"
    and "\<And>k i. intent_by_id d k = Some i \<Longrightarrow> intent_row_ok i \<and> held_ok d i \<and> paid_ok d i"
  shows "payme_ok d"
  using assms unfolding payme_ok_def by blast

lemma payme_okD:
  assumes "payme_ok d"
  shows "rail_tables_ok d"
    and "tx_at d x = Some t \<Longrightarrow> \<exists>i. intent_by_id d (pt_intent_id t) = Some i \<and> pair_ok t i"
    and "intent_by_id d k = Some i \<Longrightarrow> intent_row_ok i \<and> held_ok d i \<and> paid_ok d i"
  using assms unfolding payme_ok_def by blast+

lemma payme_ok_empty: "payme_ok empty_db"
  by (simp add: payme_ok_def rail_tables_ok_def tx_at_def intent_by_id_def empty_db_def)

section \<open>Lookups\<close>

lemma intent_by_id_Some: "intent_by_id d k = Some i \<Longrightarrow> i \<in> set (intents d) \<and> pi_id i = k"
  by (auto simp: intent_by_id_def dest: select_one_SomeD)

lemma tx_at_Some: "tx_at d x = Some t \<Longrightarrow> t \<in> set (transactions d) \<and> pt_id t = x"
  by (auto simp: tx_at_def dest: select_one_SomeD)

lemma intent_by_ref_id:
  "rail_tables_ok d \<Longrightarrow> intent_by_ref d ref = Some i \<Longrightarrow> intent_by_id d (pi_id i) = Some i \<and> pi_public_ref i = ref"
  by (auto simp: intent_by_ref_def intent_by_id_def rail_tables_ok_def select_one_unique)

lemma tx_by_payme_id_at:
  "rail_tables_ok d \<Longrightarrow> transaction_by_payme_id d p = Some t
     \<Longrightarrow> tx_at d (pt_id t) = Some t \<and> pt_payme_transaction_id t = p"
  by (auto simp: transaction_by_payme_id_def tx_at_def rail_tables_ok_def select_one_unique)

lemma tx_at_by_payme_id:
  "rail_tables_ok d \<Longrightarrow> tx_at d x = Some t \<Longrightarrow> transaction_by_payme_id d (pt_payme_transaction_id t) = Some t"
  by (auto simp: transaction_by_payme_id_def tx_at_def rail_tables_ok_def select_one_unique)

section \<open>Updates\<close>

text \<open>An update that keeps the three unique columns of the intents, and one of the transactions.\<close>

definition keeps_identity :: "(payment_intent_row \<Rightarrow> payment_intent_row) \<Rightarrow> bool" where
  "keeps_identity f \<longleftrightarrow> (\<forall>i. pi_id (f i) = pi_id i \<and> pi_public_ref (f i) = pi_public_ref i
     \<and> pi_idempotency_key (f i) = pi_idempotency_key i)"

lemma update_intents_lookups:
  assumes "update_intents p f d = (w, d')" and "keeps_identity f"
  shows "intent_by_id d' k = map_option (\<lambda>i. if p i then f i else i) (intent_by_id d k)"
    and "intent_by_ref d' r = map_option (\<lambda>i. if p i then f i else i) (intent_by_ref d r)"
    and "tx_at d' x = tx_at d x" and "transaction_by_payme_id d' y = transaction_by_payme_id d y"
    and "transactions d' = transactions d"
    and "ledger_by_key d' key = ledger_by_key d key"
    and "rail_tables_ok d' = rail_tables_ok d"
    and "accounts d' = accounts d" and "ledger d' = ledger d"
  using assms
  by (auto simp: update_intents_def intent_by_id_def intent_by_ref_def tx_at_def transaction_by_payme_id_def
      ledger_by_key_def rail_tables_ok_def keeps_identity_def select_one_update)

lemma update_transactions_lookups:
  assumes "update_transactions p f d = (w, d')"
    and "\<And>t. pt_id (f t) = pt_id t" "\<And>t. pt_payme_transaction_id (f t) = pt_payme_transaction_id t"
  shows "tx_at d' x = map_option (\<lambda>t. if p t then f t else t) (tx_at d x)"
    and "transaction_by_payme_id d' y = map_option (\<lambda>t. if p t then f t else t) (transaction_by_payme_id d y)"
    and "intents d' = intents d"
    and "ledger_by_key d' key = ledger_by_key d key"
    and "rail_tables_ok d' = rail_tables_ok d"
    and "accounts d' = accounts d" and "ledger d' = ledger d"
  using assms
  by (auto simp: update_transactions_def tx_at_def transaction_by_payme_id_def
      ledger_by_key_def rail_tables_ok_def select_one_update)

lemma rowcount_key_1:
  assumes "distinct (map k rows)" "rowcount (\<lambda>r. k r = v \<and> q r) rows = 1"
  shows "\<exists>r. select_one k v rows = Some r \<and> q r"
proof (cases "select_one k v rows")
  case None
  then show ?thesis using assms by (simp add: rowcount_key)
next
  case (Some r)
  then show ?thesis using assms by (cases "q r") (simp_all add: rowcount_key)
qed

lemma update_intents_won:
  assumes "rail_tables_ok d" "update_intents (\<lambda>i. pi_id i = k \<and> q i) f d = (True, d')"
  shows "\<exists>i. intent_by_id d k = Some i \<and> q i"
  unfolding intent_by_id_def
  by (rule rowcount_key_1) (use assms in \<open>simp_all add: update_intents_def rail_tables_ok_def\<close>)

lemma update_transactions_won:
  assumes "rail_tables_ok d" "update_transactions (\<lambda>t. pt_id t = x \<and> q t) f d = (True, d')"
  shows "\<exists>t. tx_at d x = Some t \<and> q t"
  unfolding tx_at_def
  by (rule rowcount_key_1) (use assms in \<open>simp_all add: update_transactions_def rail_tables_ok_def\<close>)

section \<open>Changes outside the rail\<close>

definition rail_frame :: "db \<Rightarrow> db \<Rightarrow> bool" where
  "rail_frame d d' \<longleftrightarrow> intents d' = intents d \<and> transactions d' = transactions d
     \<and> (\<forall>k. ledger_by_key d k \<noteq> None \<longrightarrow> ledger_by_key d' k \<noteq> None)"

lemma rail_frame_refl [simp]: "rail_frame d d"
  by (simp add: rail_frame_def)

lemma rail_frame_extends: "ledger_extends d d' \<Longrightarrow> rail_frame d d'"
  using ledger_by_key_extends by (auto simp: rail_frame_def ledger_extends_def ledger_by_key_def select_one_append split: option.splits)

lemma rail_frame_moved: "moved d d' uid n \<Longrightarrow> rail_frame d d'"
  by (rule rail_frame_extends) (rule moved_extends)

lemma rail_frame_lookups:
  assumes "rail_frame d d'"
  shows "intent_by_id d' k = intent_by_id d k" and "intent_by_ref d' r = intent_by_ref d r"
    and "tx_at d' x = tx_at d x" and "transaction_by_payme_id d' y = transaction_by_payme_id d y"
    and "rail_tables_ok d' = rail_tables_ok d" and "held_ok d' i = held_ok d i"
  using assms by (simp_all add: rail_frame_def intent_by_id_def intent_by_ref_def tx_at_def
      transaction_by_payme_id_def rail_tables_ok_def held_ok_def)

lemma rail_frame_payme_ok: "rail_frame d d' \<Longrightarrow> payme_ok d \<Longrightarrow> payme_ok d'"
  unfolding payme_ok_def using rail_frame_lookups [of d d']
  by (auto simp: paid_ok_def rail_frame_def)

section \<open>Updates of the intents alone\<close>

text \<open>
  An update of the intents, with or without money moved after it, keeps the invariant when it keeps
  it row by row.
\<close>

lemma update_intents_frame_payme_ok:
  assumes ok: "payme_ok d" and up: "update_intents p f d = (w, d')" and id: "keeps_identity f"
    and frame: "rail_frame d' e"
    and row: "\<And>i. p i \<Longrightarrow> intent_row_ok i \<Longrightarrow> intent_row_ok (f i)"
    and pair: "\<And>i t. p i \<Longrightarrow> intent_row_ok i \<Longrightarrow> pair_ok t i \<Longrightarrow> pair_ok t (f i)"
    and held: "\<And>i. p i \<Longrightarrow> held_ok d i \<Longrightarrow> held_ok d (f i)"
    and paid: "\<And>i. p i \<Longrightarrow> intent_by_id d (pi_id i) = Some i \<Longrightarrow> paid_ok d i \<Longrightarrow> paid_ok e (f i)"
  shows "payme_ok e"
proof (rule payme_okI)
  note look = update_intents_lookups [OF up id]
  note f = rail_frame_lookups [OF frame]
  have held': "held_ok e i = held_ok d i" for i
    by (simp add: held_ok_def look f)
  have paid': "paid_ok d i \<Longrightarrow> paid_ok e i" for i
    using frame look(6) by (auto simp: paid_ok_def rail_frame_def)
  show "rail_tables_ok e" using payme_okD(1) [OF ok] look f by simp
  show "\<exists>i. intent_by_id e (pt_intent_id t) = Some i \<and> pair_ok t i" if t: "tx_at e x = Some t" for x t
  proof -
    have "tx_at d x = Some t" using t by (simp add: look f)
    then obtain i where i: "intent_by_id d (pt_intent_id t) = Some i" "pair_ok t i"
      using payme_okD(2) [OF ok] by blast
    then show ?thesis
      using pair [of i t] payme_okD(3) [OF ok i(1)] by (auto simp: look f)
  qed
  show "intent_row_ok i' \<and> held_ok e i' \<and> paid_ok e i'" if i': "intent_by_id e k = Some i'" for k i'
  proof -
    from i' obtain i where i: "intent_by_id d k = Some i" "i' = (if p i then f i else i)"
      by (auto simp: look f)
    have "intent_by_id d (pi_id i) = Some i" using intent_by_id_Some [OF i(1)] i(1) by simp
    then show ?thesis
      using i(2) payme_okD(3) [OF ok i(1)] row held paid paid' by (auto simp: held')
  qed
qed

lemma update_intents_payme_ok:
  assumes ok: "payme_ok d" and up: "update_intents p f d = (w, d')" and id: "keeps_identity f"
    and row: "\<And>i. p i \<Longrightarrow> intent_row_ok i \<Longrightarrow> intent_row_ok (f i)"
    and pair: "\<And>i t. p i \<Longrightarrow> intent_row_ok i \<Longrightarrow> pair_ok t i \<Longrightarrow> pair_ok t (f i)"
    and held: "\<And>i. p i \<Longrightarrow> held_ok d i \<Longrightarrow> held_ok d (f i)"
    and paid: "\<And>i. p i \<Longrightarrow> paid_ok d i \<Longrightarrow> paid_ok d (f i)"
  shows "payme_ok d'"
  using update_intents_frame_payme_ok [OF ok up id rail_frame_refl row pair held]
    paid update_intents_lookups(6) [OF up id] by (simp add: paid_ok_def)

end
