(* ===== verification/Payme_Steps.thy ===== *)
theory Payme_Steps
  imports Payme_Invariant
begin

text \<open>
  Every operation of the rail keeps the rail's invariant and the ledger's. A row an operation read
  earlier may be stale; what a step needs of it is only that it names the same transaction or
  intent, because the columns that identify a row are never written again.
\<close>

definition system_ok :: "db \<Rightarrow> bool" where
  "system_ok d \<longleftrightarrow> payme_ok d \<and> books_ok d"

lemma system_okD: "system_ok d \<Longrightarrow> payme_ok d" "system_ok d \<Longrightarrow> books_ok d"
  by (simp_all add: system_ok_def)

text \<open>A stale row still names the same transaction, or the same intent.\<close>

definition names_transaction :: "db \<Rightarrow> payme_transaction_row \<Rightarrow> bool" where
  "names_transaction d row \<longleftrightarrow> (\<forall>t. tx_at d (pt_id row) = Some t \<longrightarrow>
     pt_intent_id t = pt_intent_id row \<and> pt_payme_transaction_id t = pt_payme_transaction_id row)"

definition names_intent :: "db \<Rightarrow> payment_intent_row \<Rightarrow> bool" where
  "names_intent d row \<longleftrightarrow> (\<forall>i. intent_by_id d (pi_id row) = Some i \<longrightarrow>
     pi_amount_minor i = pi_amount_minor row \<and> pi_public_ref i = pi_public_ref row
     \<and> pi_idempotency_key i = pi_idempotency_key row \<and> pi_product i = pi_product row)"

lemma names_transaction_self: "tx_at d (pt_id t) = Some t \<Longrightarrow> names_transaction d t"
  by (simp add: names_transaction_def)

lemma names_intent_self: "intent_by_id d (pi_id i) = Some i \<Longrightarrow> names_intent d i"
  by (simp add: names_intent_def)

section \<open>Cancelling and releasing\<close>

lemma keeps_identity_simps [simp]:
  "keeps_identity (\<lambda>i. i\<lparr>pi_state := s, pi_active_transaction_id := a, pi_updated_at := now\<rparr>)"
  "keeps_identity (\<lambda>i. i\<lparr>pi_state := s, pi_settled_at := t, pi_settle_note := b, pi_updated_at := now\<rparr>)"
  "keeps_identity (\<lambda>i. i\<lparr>pi_state := s, pi_updated_at := now\<rparr>)"
  "keeps_identity (\<lambda>i. i\<lparr>pi_notified_at := t, pi_updated_at := now\<rparr>)"
  "keeps_identity (\<lambda>i. i\<lparr>pi_resumed_at := t, pi_updated_at := now\<rparr>)"
  "keeps_identity (\<lambda>i. i\<lparr>pi_telegram_user_id := u, pi_resume_order_id := v\<rparr>)"
  by (simp_all add: keeps_identity_def)

lemma mark_performed_lookups:
  assumes "mark_performed d x now = (w, d')"
  shows "tx_at d' y = map_option (\<lambda>t. if pt_id t = x \<and> pt_state t = Payme_CREATED
      then t\<lparr>pt_state := Payme_PERFORMED, pt_perform_time := Some now, pt_updated_at := now\<rparr> else t) (tx_at d y)"
    and "transaction_by_payme_id d' z = map_option (\<lambda>t. if pt_id t = x \<and> pt_state t = Payme_CREATED
      then t\<lparr>pt_state := Payme_PERFORMED, pt_perform_time := Some now, pt_updated_at := now\<rparr> else t)
      (transaction_by_payme_id d z)"
    and "intents d' = intents d" and "ledger_by_key d' key = ledger_by_key d key"
    and "rail_tables_ok d' = rail_tables_ok d" and "accounts d' = accounts d" and "ledger d' = ledger d"
  using assms by (simp_all add: mark_performed_def update_transactions_lookups)

lemma mark_cancelled_lookups:
  assumes "mark_cancelled d x now reason s s' = (w, d')"
  shows "tx_at d' y = map_option (\<lambda>t. if pt_id t = x \<and> pt_state t = s
      then t\<lparr>pt_state := s', pt_cancel_reason := Some reason, pt_cancel_time := Some now,
             pt_updated_at := now\<rparr> else t) (tx_at d y)"
    and "transaction_by_payme_id d' z = map_option (\<lambda>t. if pt_id t = x \<and> pt_state t = s
      then t\<lparr>pt_state := s', pt_cancel_reason := Some reason, pt_cancel_time := Some now,
             pt_updated_at := now\<rparr> else t) (transaction_by_payme_id d z)"
    and "intents d' = intents d" and "ledger_by_key d' key = ledger_by_key d key"
    and "rail_tables_ok d' = rail_tables_ok d" and "accounts d' = accounts d" and "ledger d' = ledger d"
  using assms by (simp_all add: mark_cancelled_def update_transactions_lookups)

lemma intents_lookups: "intents d' = intents d \<Longrightarrow> intent_by_id d' k = intent_by_id d k"
  "intents d' = intents d \<Longrightarrow> intent_by_ref d' r = intent_by_ref d r"
  by (simp_all add: intent_by_id_def intent_by_ref_def)

lemma cancel_release_payme_ok:
  assumes ok: "payme_ok d"
    and mark: "mark_cancelled d x now reason Payme_CREATED Payme_CANCELLED = (w, d1)"
    and rel: "release_intent d1 k x now = (v, d2)"
    and same: "\<And>t. tx_at d x = Some t \<Longrightarrow> pt_intent_id t = k"
  shows "payme_ok d2"
proof (rule payme_okI)
  note m = mark_cancelled_lookups [OF mark]
  note r = update_intents_lookups [OF rel [unfolded release_intent_def], simplified]
  define cancel where "cancel t = (if pt_id t = x \<and> pt_state t = Payme_CREATED
      then t\<lparr>pt_state := Payme_CANCELLED, pt_cancel_reason := Some reason, pt_cancel_time := Some now,
             pt_updated_at := now\<rparr> else t)"
    for t :: payme_transaction_row
  define release where "release i = (if pi_id i = k \<and> pi_state i = Intent_AWAITING
      \<and> pi_active_transaction_id i = Some x
      then i\<lparr>pi_state := Intent_PENDING, pi_active_transaction_id := None, pi_updated_at := now\<rparr> else i)"
    for i :: payment_intent_row
  have tx: "tx_at d2 y = map_option cancel (tx_at d y)" for y
    by (simp add: r m cancel_def [abs_def])
  have int: "intent_by_id d2 j = map_option release (intent_by_id d j)" for j
    by (simp add: r m intents_lookups(1) [OF m(3)] release_def [abs_def])
  show "rail_tables_ok d2" using payme_okD(1) [OF ok] by (simp add: r m)
  show "\<exists>i. intent_by_id d2 (pt_intent_id t') = Some i \<and> pair_ok t' i" if t': "tx_at d2 y = Some t'" for y t'
  proof -
    from t' obtain t where t: "tx_at d y = Some t" "t' = cancel t" by (auto simp: tx)
    then obtain i where i: "intent_by_id d (pt_intent_id t) = Some i" "pair_ok t i"
      using payme_okD(2) [OF ok] by blast
    have "pair_ok (cancel t) (release i)"
      using i(2) by (auto simp: cancel_def release_def pair_ok_def split: payme_state.splits)
    moreover have "pt_intent_id t' = pt_intent_id t" by (simp add: t cancel_def)
    ultimately show ?thesis using t i by (simp add: int)
  qed
  show "intent_row_ok i' \<and> held_ok d2 i' \<and> paid_ok d2 i'" if i': "intent_by_id d2 j = Some i'" for j i'
  proof -
    from i' obtain i where i: "intent_by_id d j = Some i" "i' = release i" by (auto simp: int)
    have iok: "intent_row_ok i" "held_ok d i" "paid_ok d i" using payme_okD(3) [OF ok i(1)] by simp_all
    have "held_ok d2 (release i)"
    proof (cases "pi_id i = k \<and> pi_active_transaction_id i = Some x")
      case True
      then show ?thesis by (auto simp: release_def held_ok_def)
    next
      case False
      then have "release i = i" by (auto simp: release_def)
      moreover have "cancel t = t" if "pi_active_transaction_id i = Some (pt_id t)"
        "tx_at d (pt_id t) = Some t" "pt_intent_id t = pi_id i" for t
        using that False same by (auto simp: cancel_def)
      ultimately show ?thesis using iok(2) by (fastforce simp: held_ok_def tx)
    qed
    moreover have "intent_row_ok (release i)"
      using iok(1) by (auto simp: intent_row_ok_def release_def intent_checks_def)
    moreover have "paid_ok d2 (release i)"
      using iok(3) by (auto simp: paid_ok_def release_def r m)
    ultimately show ?thesis using i by simp
  qed
qed

lemma cancel_release_same_money:
  assumes "mark_cancelled d x now reason s s' = (w, d1)" and "release_intent d1 k x now = (v, d2)"
  shows "accounts d2 = accounts d" and "ledger d2 = ledger d"
  using mark_cancelled_lookups(6,7) [OF assms(1)]
    update_intents_lookups(8,9) [OF assms(2) [unfolded release_intent_def]] by simp_all

lemma time_out_system_ok:
  assumes "system_ok d" and "names_transaction d row"
  shows "system_ok (time_out d row now)"
proof -
  obtain w d1 where m: "mark_cancelled d (pt_id row) now (reason_code Timeout) Payme_CREATED Payme_CANCELLED = (w, d1)"
    by fastforce
  obtain v d2 where r: "release_intent d1 (pt_intent_id row) (pt_id row) now = (v, d2)" by fastforce
  have "time_out d row now = d2" by (simp add: time_out_def m r del: reason_code.simps)
  moreover have "payme_ok d2"
    by (rule cancel_release_payme_ok [OF _ m r]) (use assms in \<open>auto simp: system_ok_def names_transaction_def\<close>)
  moreover have "books_ok d2"
    by (rule books_ok_frame [OF system_okD(2) [OF assms(1)] cancel_release_same_money [OF m r]])
  ultimately show ?thesis by (simp add: system_ok_def)
qed

section \<open>Updates that lost\<close>

lemma update_intents_lost:
  assumes "rail_tables_ok d" and "update_intents (\<lambda>i. pi_id i = k \<and> q i) f d = (False, d')"
  shows "d' = d"
proof -
  have "rowcount (\<lambda>i. pi_id i = k \<and> q i) (intents d) = 0"
    using assms rowcount_key [of pi_id "intents d" k q]
    by (auto simp: update_intents_def rail_tables_ok_def split: option.splits if_splits)
  then have "sql_update (\<lambda>i. pi_id i = k \<and> q i) f (intents d) = intents d"
    by (intro sql_update_none) (simp add: rowcount_0_iff)
  then show ?thesis using assms(2) by (simp add: update_intents_def)
qed

lemma update_transactions_lost:
  assumes "rail_tables_ok d" and "update_transactions (\<lambda>t. pt_id t = x \<and> q t) f d = (False, d')"
  shows "d' = d"
proof -
  have "rowcount (\<lambda>t. pt_id t = x \<and> q t) (transactions d) = 0"
    using assms rowcount_key [of pt_id "transactions d" x q]
    by (auto simp: update_transactions_def rail_tables_ok_def split: option.splits if_splits)
  then have "sql_update (\<lambda>t. pt_id t = x \<and> q t) f (transactions d) = transactions d"
    by (intro sql_update_none) (simp add: rowcount_0_iff)
  then show ?thesis using assms(2) by (simp add: update_transactions_def)
qed

section \<open>Updates that won\<close>

lemma hold_intent_won:
  assumes "rail_tables_ok d" "hold_intent d k x now = (True, d')"
  shows "\<exists>i. intent_by_id d k = Some i \<and> pi_state i = Intent_PENDING"
  by (rule update_intents_won [OF assms(1) assms(2) [unfolded hold_intent_def]])

lemma claim_intent_won:
  assumes "rail_tables_ok d" "claim_intent d k x now note = (True, d')"
  shows "\<exists>i. intent_by_id d k = Some i \<and> pi_state i = Intent_AWAITING \<and> pi_active_transaction_id i = Some x"
  by (rule update_intents_won [OF assms(1) assms(2) [unfolded claim_intent_def]])

lemma claim_for_operator_won:
  assumes "rail_tables_ok d" "claim_intent_for_operator d k now note = (True, d')"
  shows "\<exists>i. intent_by_id d k = Some i \<and> (pi_state i = Intent_PENDING \<or> pi_state i = Intent_AWAITING)"
  by (rule update_intents_won [OF assms(1) assms(2) [unfolded claim_intent_for_operator_def]])

lemma mark_performed_won:
  assumes "rail_tables_ok d" "mark_performed d x now = (True, d')"
  shows "\<exists>t. tx_at d x = Some t \<and> pt_state t = Payme_CREATED"
  by (rule update_transactions_won [OF assms(1) assms(2) [unfolded mark_performed_def]])

section \<open>Opening a transaction\<close>

lemma insert_transaction_Inr:
  assumes "insert_transaction d x p k ptime amount ctime now = Inr (w, d')"
  defines "row \<equiv> \<lparr>pt_id = x, pt_payme_transaction_id = p, pt_intent_id = k,
         pt_payme_time = ptime, pt_amount_minor = amount, pt_state = Payme_CREATED,
         pt_cancel_reason = None, pt_create_time = ctime, pt_perform_time = None,
         pt_cancel_time = None, pt_created_at = now, pt_updated_at = now\<rparr>"
  shows "w \<longleftrightarrow> transaction_by_payme_id d p = None" and "w \<Longrightarrow> tx_at d x = None"
    and "d' = (if w then d\<lparr>transactions := transactions d @ [row]\<rparr> else d)" and "0 \<le> amount"
proof -
  from assms(1) obtain rows where ins: "insert_or_ignore transaction_checks pt_payme_transaction_id
      (\<lambda>t u. pt_id u = pt_id t) row (transactions d) = Inr (w, rows)" and d': "d' = d\<lparr>transactions := rows\<rparr>"
    by (auto simp: insert_transaction_def row_def split: sum.splits)
  note parts = insert_or_ignore_Inr [OF ins]
  show "w \<longleftrightarrow> transaction_by_payme_id d p = None"
    using parts(2) by (simp add: transaction_by_payme_id_def row_def)
  show "w \<Longrightarrow> tx_at d x = None" using parts(4) by (auto simp: tx_at_def select_one_None_iff row_def)
  show "d' = (if w then d\<lparr>transactions := transactions d @ [row]\<rparr> else d)" using parts(3) d' by auto
  show "0 \<le> amount" using parts(1) by (simp add: transaction_checks_def row_def)
qed

lemma open_hold_payme_ok:
  assumes ok: "payme_ok d"
    and ins: "insert_transaction d x p k ptime amount ctime now = Inr (True, d1)"
    and hold: "hold_intent d1 k x now = (True, d2)"
    and same: "\<And>i. intent_by_id d k = Some i \<Longrightarrow> pi_amount_minor i = amount"
  shows "payme_ok d2"
proof (rule payme_okI)
  note ins' = insert_transaction_Inr [OF ins]
  note h = update_intents_lookups [OF hold [unfolded hold_intent_def], simplified]
  define new where "new = \<lparr>pt_id = x, pt_payme_transaction_id = p, pt_intent_id = k,
         pt_payme_time = ptime, pt_amount_minor = amount, pt_state = Payme_CREATED,
         pt_cancel_reason = None, pt_create_time = ctime, pt_perform_time = None,
         pt_cancel_time = None, pt_created_at = now, pt_updated_at = now\<rparr>"
  define held where "held i = (if pi_id i = k \<and> pi_state i = Intent_PENDING
      then i\<lparr>pi_state := Intent_AWAITING, pi_active_transaction_id := Some x, pi_updated_at := now\<rparr> else i)"
    for i :: payment_intent_row
  have d1: "d1 = d\<lparr>transactions := transactions d @ [new]\<rparr>" using ins'(3) by (simp add: new_def)
  have tables: "rail_tables_ok d1"
    using payme_okD(1) [OF ok] ins'(1,2)
    by (auto simp: d1 rail_tables_ok_def new_def tx_at_def transaction_by_payme_id_def select_one_None_notin)
  have tx: "tx_at d2 y = (if y = x then Some new else tx_at d y)" for y
    using ins'(2) by (auto simp: h d1 tx_at_def select_one_append new_def split: option.splits dest: select_one_SomeD)
  have int: "intent_by_id d2 j = map_option held (intent_by_id d j)" for j
  proof -
    have "intent_by_id d1 j = intent_by_id d j" by (simp add: d1 intent_by_id_def)
    then show ?thesis by (simp add: h held_def [abs_def])
  qed
  obtain i0 where i0: "intent_by_id d k = Some i0" "pi_state i0 = Intent_PENDING"
    using hold_intent_won [OF tables hold] by (auto simp: d1 intent_by_id_def)
  have i0_ok: "intent_row_ok i0" using payme_okD(3) [OF ok i0(1)] by simp
  show "rail_tables_ok d2" using tables by (simp add: h)
  show "\<exists>i. intent_by_id d2 (pt_intent_id t) = Some i \<and> pair_ok t i" if t: "tx_at d2 y = Some t" for y t
  proof (cases "y = x")
    case True
    then show ?thesis
      using t i0 same [OF i0(1)] intent_by_id_Some [OF i0(1)]
      by (intro exI [of _ "held i0"]) (auto simp: tx int new_def pair_ok_def held_def)
  next
    case False
    then have t': "tx_at d y = Some t" using t by (simp add: tx)
    then obtain i where i: "intent_by_id d (pt_intent_id t) = Some i" "pair_ok t i"
      using payme_okD(2) [OF ok] by blast
    have "pair_ok t (held i)"
      using i(2) payme_okD(3) [OF ok i(1)]
      by (auto simp: held_def pair_ok_def intent_row_ok_def split: payme_state.splits)
    then show ?thesis using i by (simp add: int)
  qed
  show "intent_row_ok i' \<and> held_ok d2 i' \<and> paid_ok d2 i'" if i': "intent_by_id d2 j = Some i'" for j i'
  proof -
    from i' obtain i where i: "intent_by_id d j = Some i" "i' = held i" by (auto simp: int)
    have iok: "intent_row_ok i" "held_ok d i" "paid_ok d i" using payme_okD(3) [OF ok i(1)] by simp_all
    have "held_ok d2 (held i)"
    proof (cases "pi_id i = k \<and> pi_state i = Intent_PENDING")
      case True
      then show ?thesis by (auto simp: held_def held_ok_def tx new_def intro!: exI [of _ new])
    next
      case False
      then show ?thesis using iok(2) ins'(2) by (auto simp: held_def held_ok_def tx)
    qed
    moreover have "intent_row_ok (held i)"
      using iok(1) by (auto simp: intent_row_ok_def held_def intent_checks_def)
    moreover have "paid_ok d2 (held i)"
      using iok(3) by (auto simp: paid_ok_def held_def h d1 ledger_by_key_def)
    ultimately show ?thesis using i by simp
  qed
qed

text \<open>What a successful open did: nothing, when the transaction exists; else both rows.\<close>

lemma open_transaction_cases:
  assumes "open_transaction cfg x d row p ptime amount now = Inr (v, d')"
  obtains (raced) t where "transaction_by_payme_id d p = Some t" "pt_state t = Payme_CREATED"
      "v = transaction_view t (pi_public_ref row)" "d' = d"
  | (opened) d1 where "transaction_by_payme_id d p = None"
      "insert_transaction d x p (pi_id row) ptime amount now now = Inr (True, d1)"
      "hold_intent d1 (pi_id row) x now = (True, d')"
      "\<exists>t. transaction_by_payme_id d' p = Some t \<and> v = transaction_view t (pi_public_ref row)"
proof -
  from assms obtain w d1 where ins: "insert_transaction d x p (pi_id row) ptime amount now now = Inr (w, d1)"
    by (auto simp: open_transaction_def tx_then_eq_Inr)
  note ins' = insert_transaction_Inr [OF ins]
  show thesis
  proof (cases w)
    case True
    then show thesis
      using assms ins ins'(1)
      by (intro opened) (auto simp: open_transaction_def split: prod.splits if_splits option.splits)
  next
    case False
    then have "d1 = d" using ins'(3) by simp
    then show thesis
      using assms ins False raced
      by (auto simp: open_transaction_def split: option.splits if_splits)
  qed
qed

lemma open_transaction_system_ok:
  assumes "open_transaction cfg x d row p ptime (pi_amount_minor row) now = Inr (v, d')"
    and "system_ok d" and "names_intent d row"
  shows "system_ok d'"
  using assms(1)
proof (cases rule: open_transaction_cases)
  case (raced t)
  with assms(2) show ?thesis by simp
next
  case (opened d1)
  have "payme_ok d'"
    by (rule open_hold_payme_ok [OF system_okD(1) [OF assms(2)] opened(2,3)])
      (use assms(3) in \<open>auto simp: names_intent_def\<close>)
  moreover have "books_ok d'"
    by (rule books_ok_frame [OF system_okD(2) [OF assms(2)]])
      (use insert_transaction_Inr(3) [OF opened(2)]
         update_intents_lookups(8,9) [OF opened(3) [unfolded hold_intent_def]] in simp_all)
  ultimately show ?thesis by (simp add: system_ok_def)
qed

end
