(* ===== verification/Payme_Settle.thy ===== *)
theory Payme_Settle
  imports Payme_Steps
begin

text \<open>
  Settlement: performing a transaction, writing the sale it pays for, and the operator's forced
  settlement. Together they keep the invariant, and a paid intent is credited under its own key.
\<close>

section \<open>The sale\<close>

lemma write_sale_single:
  assumes "write_sale pid d i uid ref now = Inr (u, d')" and "pi_product i = SINGLE"
  shows "moved d d' uid 0" "ledger_by_key d' (pi_idempotency_key i) \<noteq> None"
    and "ledger_total d' v = ledger_total d v
       + (if ledger_by_key d (pi_idempotency_key i) = None \<and> v = uid then topup_credits else 0)"
    and "topup_by_key d' (pi_idempotency_key i) \<noteq> None"
    and "\<not> is_cover_key (pi_idempotency_key i) \<Longrightarrow> books_ok d \<Longrightarrow> books_ok d'"
proof -
  from assms obtain p where w: "write_single_sale d uid p (pi_idempotency_key i) now = Inr (u, d')"
    by (auto simp: write_sale_def)
  show "moved d d' uid 0" by (rule write_single_sale_moved [OF w])
  show "ledger_by_key d' (pi_idempotency_key i) \<noteq> None" using write_single_sale_facts(1) [OF w] by simp
  show "ledger_total d' v = ledger_total d v
       + (if ledger_by_key d (pi_idempotency_key i) = None \<and> v = uid then topup_credits else 0)"
    by (rule write_single_sale_facts(2) [OF w])
  show "topup_by_key d' (pi_idempotency_key i) \<noteq> None" by (rule write_single_sale_facts(3) [OF w])
  show "\<not> is_cover_key (pi_idempotency_key i) \<Longrightarrow> books_ok d \<Longrightarrow> books_ok d'"
    by (rule write_single_sale_books_ok [OF w])
qed

lemma write_sale_plan:
  assumes "write_sale pid d i uid ref now = Inr (u, d')" and "pi_product i \<noteq> SINGLE"
  shows "moved d d' v 0" "ledger d' = ledger d" "books_ok d \<Longrightarrow> books_ok d'"
  using assms by (auto simp: write_sale_def tx_then_eq_Inr split: option.splits
      intro: write_plan_sale_moved write_plan_sale_ledger write_plan_sale_books_ok)

lemma write_sale_frame:
  "write_sale pid d i uid ref now = Inr (u, d') \<Longrightarrow> rail_frame d d'"
  by (cases "pi_product i = SINGLE") (auto intro: rail_frame_moved write_sale_single(1) write_sale_plan(1))

lemma write_sale_books_ok:
  "write_sale pid d i uid ref now = Inr (u, d') \<Longrightarrow> \<not> is_cover_key (pi_idempotency_key i) \<Longrightarrow> books_ok d
     \<Longrightarrow> books_ok d'"
  by (cases "pi_product i = SINGLE") (auto intro: write_sale_single(5) write_sale_plan(3))

text \<open>What follows the claim in a settlement: the sale, unless the buyer has been erased.\<close>

definition sale_of :: "uuid \<Rightarrow> db \<Rightarrow> payment_intent_row \<Rightarrow> pystr \<Rightarrow> instant \<Rightarrow> (db, unit) outcome" where
  "sale_of pid d i ref now =
     (case pi_telegram_user_id i of None \<Rightarrow> Inr ((), d) | Some uid \<Rightarrow> write_sale pid d i uid ref now)"

lemma sale_of_paid:
  "sale_of pid d (i\<lparr>pi_state := s, pi_settled_at := t, pi_settle_note := n, pi_updated_at := now\<rparr>) ref at
     = sale_of pid d i ref at"
  by (auto simp: sale_of_def write_sale_def Let_def split: option.split)

lemma sale_of_facts:
  assumes "sale_of pid d i ref now = Inr (u, d')"
  shows "rail_frame d d'"
    and "\<not> is_cover_key (pi_idempotency_key i) \<Longrightarrow> books_ok d \<Longrightarrow> books_ok d'"
    and "pi_product i = SINGLE \<Longrightarrow> pi_telegram_user_id i \<noteq> None \<Longrightarrow> ledger_by_key d' (pi_idempotency_key i) \<noteq> None"
  using assms by (auto simp: sale_of_def split: option.splits
      intro: write_sale_frame write_sale_books_ok dest: write_sale_single(2))

section \<open>The two flips\<close>

lemma settle_flip_payme_ok:
  assumes ok: "payme_ok d"
    and mark: "mark_performed d x now = (True, d1)"
    and claim: "claim_intent d1 k x now note = (w, d2)"
    and same: "\<And>t. tx_at d x = Some t \<Longrightarrow> pt_intent_id t = k"
    and won: "intent_by_id d2 k = Some ik" "pi_state ik = Intent_PAID" "pi_active_transaction_id ik = Some x"
    and frame: "rail_frame d2 d3"
    and credited: "pi_product ik = SINGLE \<Longrightarrow> pi_telegram_user_id ik \<noteq> None
      \<Longrightarrow> ledger_by_key d3 (pi_idempotency_key ik) \<noteq> None"
  shows "payme_ok d3"
proof (rule payme_okI)
  note m = mark_performed_lookups [OF mark]
  note c = update_intents_lookups [OF claim [unfolded claim_intent_def], simplified]
  note f = rail_frame_lookups [OF frame]
  define perform where "perform t = (if pt_id t = x \<and> pt_state t = Payme_CREATED
      then t\<lparr>pt_state := Payme_PERFORMED, pt_perform_time := Some now, pt_updated_at := now\<rparr> else t)"
    for t :: payme_transaction_row
  define pay where "pay i = (if pi_id i = k \<and> pi_state i = Intent_AWAITING
      \<and> pi_active_transaction_id i = Some x
      then i\<lparr>pi_state := Intent_PAID, pi_settled_at := Some now, pi_settle_note := Some note,
             pi_updated_at := now\<rparr> else i)"
    for i :: payment_intent_row
  have tx: "tx_at d3 y = map_option perform (tx_at d y)" for y
    by (simp add: f c m perform_def [abs_def])
  have int: "intent_by_id d3 j = map_option pay (intent_by_id d j)" for j
    by (simp add: f c m intents_lookups(1) [OF m(3)] pay_def [abs_def])
  have ik: "intent_by_id d3 k = Some ik" using won(1) by (simp add: f)
  obtain t0 where t0: "tx_at d x = Some t0" "pt_state t0 = Payme_CREATED"
    using mark_performed_won [OF payme_okD(1) [OF ok] mark] by blast
  show "rail_tables_ok d3" using payme_okD(1) [OF ok] by (simp add: f c m)
  show "\<exists>i. intent_by_id d3 (pt_intent_id t') = Some i \<and> pair_ok t' i" if t': "tx_at d3 y = Some t'" for y t'
  proof -
    from t' obtain t where t: "tx_at d y = Some t" "t' = perform t" by (auto simp: tx)
    then obtain i where i: "intent_by_id d (pt_intent_id t) = Some i" "pair_ok t i"
      using payme_okD(2) [OF ok] by blast
    have "pair_ok (perform t) (pay i)"
    proof (cases "pt_id t = x")
      case True
      then have "t = t0" using t t0 tx_at_Some by (metis option.inject)
      moreover have "pay i = ik" using int [of k] ik i(1) same [OF t0(1)] \<open>t = t0\<close> by simp
      moreover have "pi_amount_minor (pay i) = pi_amount_minor i" by (simp add: pay_def)
      ultimately show ?thesis
        using won i(2) t0 True by (auto simp: perform_def pair_ok_def)
    next
      case False
      then show ?thesis
        using i(2) by (auto simp: perform_def pay_def pair_ok_def split: payme_state.splits)
    qed
    moreover have "pt_intent_id t' = pt_intent_id t" by (simp add: t perform_def)
    ultimately show ?thesis using t i by (simp add: int)
  qed
  show "intent_row_ok i' \<and> held_ok d3 i' \<and> paid_ok d3 i'" if i': "intent_by_id d3 j = Some i'" for j i'
  proof -
    from i' obtain i where i: "intent_by_id d j = Some i" "i' = pay i" by (auto simp: int)
    have iok: "intent_row_ok i" "held_ok d i" "paid_ok d i" using payme_okD(3) [OF ok i(1)] by simp_all
    have id: "pi_id i = j" using intent_by_id_Some [OF i(1)] by simp
    have row: "intent_row_ok (pay i)"
      using iok(1) by (auto simp: intent_row_ok_def pay_def intent_checks_def)
    show ?thesis
    proof (cases "j = k")
      case True
      then have "pay i = ik" using i' ik i by simp
      then show ?thesis using i row won credited by (simp add: held_ok_def paid_ok_def)
    next
      case False
      then have "pay i = i" using id by (simp add: pay_def)
      moreover have "held_ok d3 i"
      proof -
        have "perform t = t" if "pt_intent_id t = pi_id i" "tx_at d (pt_id t) = Some t" for t
          using that False id same by (auto simp: perform_def)
        then show ?thesis using iok(2) by (fastforce simp: held_ok_def tx)
      qed
      moreover have "paid_ok d3 i"
        using iok(3) frame c(6) m(4) by (auto simp: paid_ok_def rail_frame_def)
      ultimately show ?thesis using i row by simp
    qed
  qed
qed

section \<open>Performing\<close>

lemma settle_perform_cases:
  assumes "settle_perform cfg pid d row now = Inr (v, d')" and "rail_tables_ok d"
  obtains (replay) t where "transaction_by_payme_id d (pt_payme_transaction_id row) = Some t"
      "pt_state t = Payme_PERFORMED" "view_of d t = Inr (v, d)" "d' = d"
  | (settled) d1 w d2 i u where "mark_performed d (pt_id row) now = (True, d1)"
      "claim_intent d1 (pt_intent_id row) (pt_id row) now rail_settle_note = (w, d2)"
      "intent_by_id d2 (pt_intent_id row) = Some i" "pi_state i = Intent_PAID"
      "pi_active_transaction_id i = Some (pt_id row)" "pi_merchant_id i = pc_merchant_id cfg"
      "sale_of pid d2 i (pt_payme_transaction_id row) now = Inr (u, d')"
      "\<exists>t. transaction_by_payme_id d' (pt_payme_transaction_id row) = Some t
         \<and> v = transaction_view t (pi_public_ref i)"
proof -
  obtain marked d1 where mark: "mark_performed d (pt_id row) now = (marked, d1)" by fastforce
  show thesis
  proof (cases marked)
    case False
    then have "d1 = d"
      using mark update_transactions_lost [OF assms(2), of "pt_id row"] unfolding mark_performed_def by simp
    then show thesis
      using assms(1) False mark replay
      by (auto simp: settle_perform_def view_of_def split: option.splits if_splits)
  next
    case True
    note m = mark_performed_lookups [OF mark]
    obtain i where i: "intent_by_id d (pt_intent_id row) = Some i" "pi_merchant_id i = pc_merchant_id cfg"
      using assms(1) True mark
      by (auto simp: settle_perform_def intents_lookups(1) [OF m(3)] split: option.splits if_splits)
    have id: "pi_id i = pt_intent_id row" using intent_by_id_Some [OF i(1)] by simp
    obtain w d2 where claim: "claim_intent d1 (pt_intent_id row) (pt_id row) now rail_settle_note = (w, d2)"
      by fastforce
    note c = update_intents_lookups [OF claim [unfolded claim_intent_def], simplified]
    have tables: "rail_tables_ok d1" using assms(2) by (simp add: m)
    have rest: "tx_then (if w then Inr (i, d2)
                      else raising (already_settled_by_this_transaction_or_refuse
                                      (intent_by_id d2 (pt_intent_id row)) row) d2)
               (\<lambda>intent d. tx_then (sale_of pid d intent (pt_payme_transaction_id row) now)
                   (\<lambda>_ d. case transaction_by_payme_id d (pt_payme_transaction_id row) of
                       None \<Rightarrow> Inl (Raised (StorageError
                         ''the transaction disappeared between being performed and being read back''))
                     | Some fresh \<Rightarrow> Inr (transaction_view fresh (pi_public_ref intent), d))) = Inr (v, d')"
      using assms(1) True mark i id claim
      by (simp add: settle_perform_def intents_lookups(1) [OF m(3)] sale_of_def)
    have look: "intent_by_id d2 (pt_intent_id row) = Some (if pi_state i = Intent_AWAITING
        \<and> pi_active_transaction_id i = Some (pt_id row)
        then i\<lparr>pi_state := Intent_PAID, pi_settled_at := Some now, pi_settle_note := Some rail_settle_note,
               pi_updated_at := now\<rparr> else i)"
      using i(1) id by (simp add: c intents_lookups(1) [OF m(3)])
    show thesis
    proof (cases w)
      case True
      then have "pi_state i = Intent_AWAITING \<and> pi_active_transaction_id i = Some (pt_id row)"
        using claim_intent_won [OF tables, of "pt_intent_id row"] claim i(1)
        by (auto simp: intents_lookups(1) [OF m(3)])
      then show thesis
        using rest True look i mark \<open>marked\<close> claim
        by (intro settled [of d1 w d2 "i\<lparr>pi_state := Intent_PAID, pi_settled_at := Some now,
              pi_settle_note := Some rail_settle_note, pi_updated_at := now\<rparr>"])
          (auto simp: tx_then_eq_Inr sale_of_paid split: option.splits)
    next
      case False
      then obtain i2 u where i2: "intent_by_id d2 (pt_intent_id row) = Some i2" "pi_state i2 = Intent_PAID"
        "pi_active_transaction_id i2 = Some (pt_id row)"
        and sale: "sale_of pid d2 i2 (pt_payme_transaction_id row) now = Inr (u, d')"
        and view: "\<exists>t. transaction_by_payme_id d' (pt_payme_transaction_id row) = Some t
           \<and> v = transaction_view t (pi_public_ref i2)"
        using rest by (auto simp: raising_def already_settled_by_this_transaction_or_refuse_def tx_then_eq_Inr
            split: option.splits if_splits)
      then show thesis
        using False mark \<open>marked\<close> claim i look by (intro settled [of d1 w d2]) auto
    qed
  qed
qed

end
