(* ===== verification/Payme_History.thy ===== *)
theory Payme_History
  imports Payme_Settle
begin

text \<open>
  What a later state of the database may have changed in a row of the rail: a transaction that is no
  longer open is never written again, a paid or expired intent stays what it is, and the columns that
  say what was sold to whom, for how much and to which cashbox are written once.
\<close>

definition tx_later :: "payme_transaction_row \<Rightarrow> payme_transaction_row \<Rightarrow> bool" where
  "tx_later t t' \<longleftrightarrow> pt_id t' = pt_id t \<and> pt_payme_transaction_id t' = pt_payme_transaction_id t
     \<and> pt_intent_id t' = pt_intent_id t \<and> pt_payme_time t' = pt_payme_time t
     \<and> pt_amount_minor t' = pt_amount_minor t \<and> pt_create_time t' = pt_create_time t
     \<and> (pt_state t \<noteq> Payme_CREATED \<longrightarrow> t' = t)"

definition intent_later :: "payment_intent_row \<Rightarrow> payment_intent_row \<Rightarrow> bool" where
  "intent_later i i' \<longleftrightarrow> pi_id i' = pi_id i \<and> pi_public_ref i' = pi_public_ref i
     \<and> pi_idempotency_key i' = pi_idempotency_key i \<and> pi_product i' = pi_product i
     \<and> pi_amount_minor i' = pi_amount_minor i \<and> pi_currency i' = pi_currency i
     \<and> pi_plan_songs i' = pi_plan_songs i \<and> pi_plan_days i' = pi_plan_days i
     \<and> pi_merchant_id i' = pi_merchant_id i \<and> pi_valid_until i' = pi_valid_until i
     \<and> (pi_telegram_user_id i' = pi_telegram_user_id i \<or> pi_telegram_user_id i' = None)
     \<and> (pi_state i = Intent_EXPIRED \<longrightarrow> pi_state i' = Intent_EXPIRED)
     \<and> (pi_state i = Intent_PAID \<longrightarrow> pi_state i' = Intent_PAID \<and> pi_settled_at i' = pi_settled_at i
          \<and> pi_settle_note i' = pi_settle_note i
          \<and> pi_active_transaction_id i' = pi_active_transaction_id i)
     \<and> (pi_notified_at i \<noteq> None \<longrightarrow> pi_notified_at i' = pi_notified_at i)
     \<and> (pi_resumed_at i \<noteq> None \<longrightarrow> pi_resumed_at i' = pi_resumed_at i)"

definition rail_later :: "db \<Rightarrow> db \<Rightarrow> bool" where
  "rail_later d d' \<longleftrightarrow>
     (\<forall>x t. tx_at d x = Some t \<longrightarrow> (\<exists>t'. tx_at d' x = Some t' \<and> tx_later t t'))
   \<and> (\<forall>k i. intent_by_id d k = Some i \<longrightarrow> (\<exists>i'. intent_by_id d' k = Some i' \<and> intent_later i i'))"

lemma tx_later_refl [simp]: "tx_later t t"
  by (simp add: tx_later_def)

lemma tx_later_trans: "tx_later t u \<Longrightarrow> tx_later u v \<Longrightarrow> tx_later t v"
  by (auto simp: tx_later_def)

lemma intent_later_refl [simp]: "intent_later i i"
  by (simp add: intent_later_def)

lemma intent_later_trans: "intent_later i j \<Longrightarrow> intent_later j k \<Longrightarrow> intent_later i k"
  by (auto simp: intent_later_def)

lemma rail_later_refl [simp]: "rail_later d d"
  by (simp add: rail_later_def)

lemma rail_later_trans: "rail_later d e \<Longrightarrow> rail_later e f \<Longrightarrow> rail_later d f"
  unfolding rail_later_def by (meson tx_later_trans intent_later_trans)

lemma rail_later_frame: "rail_frame d d' \<Longrightarrow> rail_later d d'"
  by (simp add: rail_later_def rail_frame_lookups)

lemma rail_later_intents:
  assumes "update_intents p f d = (w, d')" "keeps_identity f" and "\<And>i. p i \<Longrightarrow> intent_later i (f i)"
  shows "rail_later d d'"
  using assms(3) update_intents_lookups [OF assms(1,2)] by (auto simp: rail_later_def)

lemma rail_later_mark_performed:
  assumes "mark_performed d x now = (w, d')"
  shows "rail_later d d'"
  using mark_performed_lookups(1,3) [OF assms]
  by (auto simp: rail_later_def tx_later_def intent_by_id_def)

lemma rail_later_mark_cancelled:
  assumes "mark_cancelled d x now reason Payme_CREATED s = (w, d')"
  shows "rail_later d d'"
  using mark_cancelled_lookups(1,3) [OF assms]
  by (auto simp: rail_later_def tx_later_def intent_by_id_def)

lemma rail_later_release: "release_intent d k x now = (w, d') \<Longrightarrow> rail_later d d'"
  unfolding release_intent_def by (erule rail_later_intents) (auto simp: intent_later_def)

lemma rail_later_hold: "hold_intent d k x now = (w, d') \<Longrightarrow> rail_later d d'"
  unfolding hold_intent_def by (erule rail_later_intents) (auto simp: intent_later_def)

lemma rail_later_claim: "claim_intent d k x now note = (w, d') \<Longrightarrow> rail_later d d'"
  unfolding claim_intent_def by (erule rail_later_intents) (auto simp: intent_later_def)

lemma rail_later_claim_for_operator:
  "claim_intent_for_operator d k now note = (w, d') \<Longrightarrow> rail_later d d'"
  unfolding claim_intent_for_operator_def by (erule rail_later_intents) (auto simp: intent_later_def)

lemma rail_later_expire: "expire_intent d k now = (w, d') \<Longrightarrow> rail_later d d'"
  unfolding expire_intent_def by (erule rail_later_intents) (auto simp: intent_later_def)

lemma rail_later_notified: "mark_intent_notified d k now = (w, d') \<Longrightarrow> rail_later d d'"
  unfolding mark_intent_notified_def by (erule rail_later_intents) (auto simp: intent_later_def)

lemma rail_later_resume: "claim_intent_resume d k now = (w, d') \<Longrightarrow> rail_later d d'"
  unfolding claim_intent_resume_def by (erule rail_later_intents) (auto simp: intent_later_def)

lemma rail_later_append:
  assumes "transactions d' = transactions d @ ts" "intents d' = intents d @ is"
  shows "rail_later d d'"
  using assms by (auto simp: rail_later_def tx_at_def intent_by_id_def select_one_append)

lemma rail_later_open_transaction:
  assumes "open_transaction cfg x d row p ptime amount now = Inr (v, d')"
  shows "rail_later d d'"
  using assms
proof (cases rule: open_transaction_cases)
  case (opened d1)
  have "rail_later d d1"
    using insert_transaction_Inr(3) [OF opened(2)] by (intro rail_later_append) auto
  then show ?thesis using rail_later_hold [OF opened(3)] by (rule rail_later_trans)
qed simp

lemma rail_later_settle:
  assumes "settle_perform cfg pid d row now = Inr (v, d')" "rail_tables_ok d"
  shows "rail_later d d'"
  using assms
proof (cases rule: settle_perform_cases)
  case (settled d1 w d2 i u)
  then show ?thesis
    using rail_later_mark_performed rail_later_claim rail_later_frame sale_of_facts(1) rail_later_trans
    by meson
qed simp

lemma rail_later_time_out: "rail_later d (time_out d row now)"
proof -
  obtain w d1 where m: "mark_cancelled d (pt_id row) now (reason_code Timeout) Payme_CREATED Payme_CANCELLED = (w, d1)"
    by fastforce
  obtain v d2 where r: "release_intent d1 (pt_intent_id row) (pt_id row) now = (v, d2)" by fastforce
  have "time_out d row now = d2" by (simp add: time_out_def m r del: reason_code.simps)
  then show ?thesis
    using rail_later_trans [OF rail_later_mark_cancelled [OF m] rail_later_release [OF r]] by simp
qed

text \<open>A row that was read in an earlier state still names its transaction or its intent.\<close>

lemma rail_later_names_transaction:
  assumes "rail_later d0 d" "tx_at d0 (pt_id row) = Some row"
  shows "names_transaction d row"
  using assms unfolding rail_later_def names_transaction_def tx_later_def by (metis option.inject)

lemma rail_later_names_intent:
  assumes "rail_later d0 d" "intent_by_id d0 (pi_id row) = Some row"
  shows "names_intent d row"
  using assms unfolding rail_later_def names_intent_def intent_later_def by (metis option.inject)

lemma rail_later_finished:
  assumes "rail_later d d'" "tx_at d x = Some t" "pt_state t \<noteq> Payme_CREATED"
  shows "tx_at d' x = Some t"
  using assms by (auto simp: rail_later_def tx_later_def)

end
