(* ===== verification/Payme_System.thy ===== *)
theory Payme_System
  imports Payme_History
begin

text \<open>
  The whole database under every operation: each call of the rail, each sweep, the operator's
  settlement and the credit store keep the rail's invariant and the books. The run relation lets an
  operation act on rows that were read from any earlier state of the run.
\<close>

section \<open>The rail's operations\<close>

lemma settle_perform_system_ok:
  assumes "settle_perform cfg pid d row now = Inr (v, d')" and ok: "system_ok d"
    and same: "names_transaction d row"
  shows "system_ok d'"
  using assms(1) payme_okD(1) [OF system_okD(1) [OF ok]]
proof (cases rule: settle_perform_cases)
  case (replay t)
  with ok show ?thesis by simp
next
  case (settled d1 w d2 i u)
  have same': "pt_intent_id t = pt_intent_id row" if "tx_at d (pt_id row) = Some t" for t
    using same that by (simp add: names_transaction_def)
  have rail: "payme_ok d'"
    by (rule settle_flip_payme_ok [OF system_okD(1) [OF ok] settled(1,2) same' settled(3,4,5)])
      (use sale_of_facts [OF settled(7)] in auto)
  have "intent_by_id d' (pt_intent_id row) = Some i"
    using settled(3) rail_frame_lookups(1) [OF sale_of_facts(1) [OF settled(7)]] by simp
  then have "\<not> is_cover_key (pi_idempotency_key i)"
    using payme_okD(3) [OF rail] by (auto simp: intent_row_ok_def)
  moreover have "books_ok d2"
    by (rule books_ok_frame [OF system_okD(2) [OF ok]])
      (use mark_performed_lookups(6,7) [OF settled(1)]
         update_intents_lookups(8,9) [OF settled(2) [unfolded claim_intent_def]] in simp_all)
  ultimately show ?thesis
    using rail sale_of_facts(2) [OF settled(7)] by (simp add: system_ok_def)
qed

text \<open>A step of the system: the invariants again, and nothing written twice.\<close>

definition good_step :: "db \<Rightarrow> db \<Rightarrow> bool" where
  "good_step d d' \<longleftrightarrow> system_ok d' \<and> rail_later d d'"

lemma good_step_refl: "system_ok d \<Longrightarrow> good_step d d"
  by (simp add: good_step_def)

lemma guarded_good_step:
  assumes "system_ok d" and "\<And>v e. block d = Inr (v, e) \<Longrightarrow> good_step d e"
  shows "good_step d (fst (run_guarded op block d))"
proof -
  obtain s v where r: "run_guarded op block d = (s, v)" by fastforce
  then have "good_step d s"
    by (rule run_guarded_keeps [where P = "good_step d"]) (use assms good_step_refl in auto)
  with r show ?thesis by simp
qed

lemma system_ok_tables: "system_ok d \<Longrightarrow> rail_tables_ok d"
  by (blast dest: system_okD(1) payme_okD(1))

lemma payme_id_names:
  "system_ok d \<Longrightarrow> transaction_by_payme_id d p = Some t \<Longrightarrow> names_transaction d t"
  using tx_by_payme_id_at [OF system_ok_tables] by (blast intro: names_transaction_self)

lemma ref_names: "system_ok d \<Longrightarrow> intent_by_ref d r = Some i \<Longrightarrow> names_intent d i"
  using intent_by_ref_id [OF system_ok_tables] by (blast intro: names_intent_self)

lemma view_of_same: "view_of d t = Inr (v, d') \<Longrightarrow> d' = d"
  by (auto simp: view_of_def split: option.splits)

lemma payable_amount:
  "payable_intent_or_refuse cfg found amount now = Inr i \<Longrightarrow> found = Some i \<and> pi_amount_minor i = amount"
  by (auto simp: payable_intent_or_refuse_def Let_def split: option.splits if_splits)

lemma time_out_good: "system_ok d \<Longrightarrow> names_transaction d row \<Longrightarrow> good_step d (time_out d row now)"
  by (simp add: good_step_def time_out_system_ok rail_later_time_out)

lemma open_transaction_good:
  "open_transaction cfg x d row p ptime (pi_amount_minor row) now = Inr (v, d') \<Longrightarrow> system_ok d
     \<Longrightarrow> names_intent d row \<Longrightarrow> good_step d d'"
  by (simp add: good_step_def open_transaction_system_ok rail_later_open_transaction)

lemma settle_perform_good:
  "settle_perform cfg pid d row now = Inr (v, d') \<Longrightarrow> system_ok d \<Longrightarrow> names_transaction d row \<Longrightarrow> good_step d d'"
  by (simp add: good_step_def settle_perform_system_ok rail_later_settle system_ok_tables)

lemma create_good: "system_ok d \<Longrightarrow> good_step d (fst (ledger_create cfg x p ptime amount ref now d))"
  unfolding ledger_create_def
proof (rule guarded_good_step, assumption)
  fix v e
  assume ok: "system_ok d"
    and r: "(case transaction_by_payme_id d p of
         Some existing \<Rightarrow>
           if pt_state existing \<noteq> Payme_CREATED
           then Inl (Raised (PaymeStateRefusal ''a create arrived for a transaction that is no longer open''
                  (error_code State_Refusal)))
           else if \<not> is_expired (pt_payme_time existing) now (pc_timeout_ms cfg)
           then returning (view_of d existing)
           else Inr (Inl (PaymeStateRefusal
                  ''a create arrived for a transaction whose twelve-hour window had already closed''
                  (error_code State_Refusal)), time_out d existing now)
       | None \<Rightarrow> returning
           (tx_then (raising (payable_intent_or_refuse cfg (intent_by_ref d ref) amount now) d)
             (\<lambda>intent d. open_transaction cfg x d intent p ptime amount now))) = Inr (v, e)"
  show "good_step d e"
  proof (cases "transaction_by_payme_id d p")
    case None
    with r obtain i view where i: "payable_intent_or_refuse cfg (intent_by_ref d ref) amount now = Inr i"
      and op: "open_transaction cfg x d i p ptime amount now = Inr (view, e)"
      by (auto simp: returning_eq_Inr tx_then_eq_Inr raising_def split: sum.splits)
    then show ?thesis
      using payable_amount [OF i] ok ref_names [OF ok, of ref i]
        open_transaction_good [of cfg x d i p ptime now view e]
      by auto
  next
    case (Some t)
    with r show ?thesis
      using ok payme_id_names [OF ok Some]
      by (auto simp: returning_eq_Inr dest: view_of_same intro: time_out_good good_step_refl split: if_splits)
  qed
qed

lemma perform_good: "system_ok d \<Longrightarrow> good_step d (fst (ledger_perform cfg pid p now d))"
  unfolding ledger_perform_def
proof (rule guarded_good_step, assumption)
  fix v e
  assume ok: "system_ok d"
    and r: "(case transaction_by_payme_id d p of
         None \<Rightarrow> Inl (Raised (PaymeTransactionNotFound ''a perform arrived for a transaction we never created''))
       | Some row \<Rightarrow>
           if pt_state row = Payme_PERFORMED then returning (view_of d row)
           else if pt_state row \<noteq> Payme_CREATED
           then Inl (Raised (PaymeStateRefusal ''a perform arrived for a transaction that is no longer open''
                  (error_code State_Refusal)))
           else if \<not> is_expired (pt_payme_time row) now (pc_timeout_ms cfg)
           then returning (settle_perform cfg pid d row now)
           else Inr (Inl (PaymeStateRefusal
                  ''a perform arrived for a transaction whose twelve-hour window had already closed''
                  (error_code State_Refusal)), time_out d row now)) = Inr (v, e)"
  show "good_step d e"
  proof (cases "transaction_by_payme_id d p")
    case None
    with r show ?thesis by simp
  next
    case (Some t)
    with r show ?thesis
      using ok payme_id_names [OF ok Some]
      by (auto simp: returning_eq_Inr dest: view_of_same
          intro: time_out_good settle_perform_good good_step_refl
          split: if_splits)
  qed
qed

text \<open>What a successful cancel did: answered the stored row, or cancelled and released.\<close>

lemma cancel_cases:
  assumes "ledger_cancel p reason now d = (d', Inr v)" and "rail_tables_ok d"
  obtains (replay) t where "transaction_by_payme_id d p = Some t"
      "pt_state t = Payme_CANCELLED \<or> pt_state t = Payme_CANCELLED_AFTER_PERFORM"
      "view_of d t = Inr (v, d)" "d' = d"
  | (cancelled) t d1 w1 w2 fresh where "transaction_by_payme_id d p = Some t" "pt_state t = Payme_CREATED"
      "mark_cancelled d (pt_id t) now reason Payme_CREATED Payme_CANCELLED = (w1, d1)"
      "release_intent d1 (pt_intent_id t) (pt_id t) now = (w2, d')"
      "transaction_by_payme_id d' p = Some fresh" "view_of d' fresh = Inr (v, d')"
proof -
  from assms(1) obtain t where t: "transaction_by_payme_id d p = Some t"
    by (auto simp: ledger_cancel_def run_guarded_returning_Inr split: option.splits)
  obtain w1 d1 where m: "mark_cancelled d (pt_id t) now reason Payme_CREATED Payme_CANCELLED = (w1, d1)"
    by fastforce
  obtain w2 d2 where r: "release_intent d1 (pt_intent_id t) (pt_id t) now = (w2, d2)" by fastforce
  show thesis
  proof (cases "pt_state t = Payme_CANCELLED \<or> pt_state t = Payme_CANCELLED_AFTER_PERFORM")
    case True
    then show thesis
      using assms(1) t replay view_of_same
      by (auto simp: ledger_cancel_def run_guarded_returning_Inr)
  next
    case False
    then show thesis
      using assms(1) t m r cancelled [of t w1 d1 w2]
      by (cases "pt_state t")
        (auto simp: ledger_cancel_def run_guarded_returning_Inr split: option.splits dest: view_of_same)
  qed
qed

lemma cancel_good: "system_ok d \<Longrightarrow> good_step d (fst (ledger_cancel p reason now d))"
proof -
  assume ok: "system_ok d"
  obtain d' r where c: "ledger_cancel p reason now d = (d', r)" by fastforce
  show ?thesis
  proof (cases r)
    case (Inl e)
    then have "d' = d" using c unfolding ledger_cancel_def by (auto dest: run_guarded_returning_Inl)
    with ok c show ?thesis by (simp add: good_step_refl)
  next
    case (Inr v)
    with c have "ledger_cancel p reason now d = (d', Inr v)" by simp
    from this system_ok_tables [OF ok] have "good_step d d'"
    proof (cases rule: cancel_cases)
      case (replay t)
      with ok show ?thesis by (simp add: good_step_refl)
    next
      case (cancelled t d1 w1 w2 fresh)
      have "names_transaction d t" by (rule payme_id_names [OF ok cancelled(1)])
      then have "payme_ok d'"
        by (intro cancel_release_payme_ok [OF system_okD(1) [OF ok] cancelled(3,4)])
          (auto simp: names_transaction_def)
      moreover have "books_ok d'"
        by (rule books_ok_frame [OF system_okD(2) [OF ok] cancel_release_same_money [OF cancelled(3,4)]])
      moreover have "rail_later d d'"
        by (rule rail_later_trans [OF rail_later_mark_cancelled [OF cancelled(3)] rail_later_release [OF cancelled(4)]])
      ultimately show ?thesis by (simp add: good_step_def system_ok_def)
    qed
    with c show ?thesis by simp
  qed
qed

end
