(* ===== verification/Payme_Run.thy ===== *)
theory Payme_Run
  imports Payme_System
begin

text \<open>
  The remaining operations of the rail, the credit store's, and the runs of the whole system. In a
  run the reads of an operation may be as old as the operation likes: the steps \<open>late_open\<close>,
  \<open>late_settle\<close> and \<open>late_time_out\<close> decide on rows of any earlier state, which is what two
  overlapping sessions do, and only the conditional updates see the present.
\<close>

section \<open>Opening an intent\<close>

lemma insert_intent_Inr:
  assumes "insert_intent d k ref r provider until now = Inr (w, d')"
  defines "row \<equiv> intent_row k ref r provider until now"
  shows "intent_checks row" and "w \<longleftrightarrow> intent_by_key d (ir_idempotency_key r) = None"
    and "w \<Longrightarrow> intent_by_id d k = None" "w \<Longrightarrow> intent_by_ref d ref = None"
    and "d' = (if w then d\<lparr>intents := intents d @ [row]\<rparr> else d)"
proof -
  from assms(1) obtain rows where ins: "insert_or_ignore intent_checks pi_idempotency_key
      (\<lambda>i j. pi_id j = pi_id i \<or> pi_public_ref j = pi_public_ref i) row (intents d) = Inr (w, rows)"
    and d': "d' = d\<lparr>intents := rows\<rparr>"
    by (auto simp: insert_intent_def row_def split: sum.splits)
  note parts = insert_or_ignore_Inr [OF ins]
  have key: "pi_idempotency_key row = ir_idempotency_key r" "pi_id row = k" "pi_public_ref row = ref"
    by (simp_all add: row_def intent_row_def)
  show "intent_checks row" by (rule parts(1))
  show "w \<longleftrightarrow> intent_by_key d (ir_idempotency_key r) = None"
    using parts(2) by (simp add: intent_by_key_def key)
  show "w \<Longrightarrow> intent_by_id d k = None" "w \<Longrightarrow> intent_by_ref d ref = None"
    using parts(4) by (auto simp: intent_by_id_def intent_by_ref_def select_one_None_iff key)
  show "d' = (if w then d\<lparr>intents := intents d @ [row]\<rparr> else d)" using parts(3) d' by auto
qed

lemma insert_intent_payme_ok:
  assumes ok: "payme_ok d" and ins: "insert_intent d k ref r provider until now = Inr (True, d')"
    and key: "\<not> is_cover_key (ir_idempotency_key r)"
  shows "payme_ok d'"
proof (rule payme_okI)
  note i = insert_intent_Inr [OF ins]
  define new where "new = intent_row k ref r provider until now"
  have d': "d' = d\<lparr>intents := intents d @ [new]\<rparr>" using i(5) by (simp add: new_def)
  have row: "pi_id new = k" "pi_public_ref new = ref" "pi_idempotency_key new = ir_idempotency_key r"
    "pi_state new = Intent_PENDING" "pi_active_transaction_id new = None" "pi_settled_at new = None"
    "pi_resumed_at new = None"
    by (simp_all add: new_def intent_row_def)
  have int: "intent_by_id d' j = (if j = k then Some new else intent_by_id d j)" for j
    using i(3) by (auto simp: d' intent_by_id_def select_one_append row split: option.splits dest: select_one_SomeD)
  have tx: "tx_at d' x = tx_at d x" for x by (simp add: d' tx_at_def)
  have led: "ledger_by_key d' y = ledger_by_key d y" for y by (simp add: d' ledger_by_key_def)
  show "rail_tables_ok d'"
    using payme_okD(1) [OF ok] i(2,3,4)
    by (auto simp: d' rail_tables_ok_def row intent_by_key_def intent_by_id_def intent_by_ref_def
        select_one_None_notin)
  show "\<exists>i. intent_by_id d' (pt_intent_id t) = Some i \<and> pair_ok t i" if "tx_at d' x = Some t" for x t
    using payme_okD(2) [OF ok, of x t] that i(3) by (auto simp: tx int)
  show "intent_row_ok j \<and> held_ok d' j \<and> paid_ok d' j" if "intent_by_id d' z = Some j" for z j
  proof (cases "z = k")
    case True
    then have "j = new" using that by (simp add: int)
    then show ?thesis
      using i(1) key by (simp add: intent_row_ok_def held_ok_def paid_ok_def row) (simp add: new_def)
  next
    case False
    then show ?thesis
      using that payme_okD(3) [OF ok, of z j] by (simp add: int held_ok_def tx paid_ok_def led)
  qed
qed

lemma insert_intent_good:
  assumes ok: "system_ok d" and ins: "insert_intent d k ref r provider until now = Inr (w, d')"
    and key: "\<not> is_cover_key (ir_idempotency_key r)"
  shows "good_step d d'"
proof (cases w)
  case True
  have "payme_ok d'" using insert_intent_payme_ok [OF system_okD(1) [OF ok] _ key] ins True by simp
  moreover have "books_ok d'"
    by (rule books_ok_frame [OF system_okD(2) [OF ok]]) (use insert_intent_Inr(5) [OF ins] True in simp_all)
  moreover have "rail_later d d'"
    using insert_intent_Inr(5) [OF ins] True by (intro rail_later_append) auto
  ultimately show ?thesis by (simp add: good_step_def system_ok_def)
next
  case False
  then show ?thesis using insert_intent_Inr(5) [OF ins] ok by (simp add: good_step_refl)
qed

lemma open_intent_good:
  "system_ok d \<Longrightarrow> \<not> is_cover_key (ir_idempotency_key r) \<Longrightarrow> good_step d (fst (ledger_open_intent cfg k ref r now d))"
  unfolding ledger_open_intent_def
  by (rule guarded_good_step)
    (auto simp: returning_eq_Inr tx_then_eq_Inr split: option.splits intro: insert_intent_good)

section \<open>Single updates\<close>

lemma update_intents_good:
  assumes ok: "system_ok d" and up: "update_intents p f d = (w, d')" and id: "keeps_identity f"
    and row: "\<And>i. p i \<Longrightarrow> intent_row_ok i \<Longrightarrow> intent_row_ok (f i)"
    and pair: "\<And>i t. p i \<Longrightarrow> intent_row_ok i \<Longrightarrow> pair_ok t i \<Longrightarrow> pair_ok t (f i)"
    and held: "\<And>i. p i \<Longrightarrow> held_ok d i \<Longrightarrow> held_ok d (f i)"
    and paid: "\<And>i. p i \<Longrightarrow> paid_ok d i \<Longrightarrow> paid_ok d (f i)"
    and later: "\<And>i. p i \<Longrightarrow> intent_later i (f i)"
  shows "good_step d d'"
  using update_intents_payme_ok [OF system_okD(1) [OF ok] up id row pair held paid]
    books_ok_frame [OF system_okD(2) [OF ok] update_intents_lookups(8,9) [OF up id]]
    rail_later_intents [OF up id later]
  by (simp add: good_step_def system_ok_def)

lemma expire_intent_good:
  assumes "system_ok d" "expire_intent d k now = (w, d')"
  shows "good_step d d'"
  by (rule update_intents_good [OF assms(1) assms(2) [unfolded expire_intent_def]])
    (auto simp: intent_row_ok_def intent_checks_def pair_ok_def held_ok_def paid_ok_def intent_later_def
      split: payme_state.splits)

lemma mark_notified_good:
  assumes "system_ok d" "mark_intent_notified d k now = (w, d')"
  shows "good_step d d'"
  by (rule update_intents_good [OF assms(1) assms(2) [unfolded mark_intent_notified_def]])
    (auto simp: intent_row_ok_def intent_checks_def pair_ok_def held_ok_def paid_ok_def intent_later_def
      split: payme_state.splits payment_intent_state.splits)

lemma claim_resume_good:
  assumes "system_ok d" "claim_intent_resume d k now = (w, d')"
  shows "good_step d d'"
  by (rule update_intents_good [OF assms(1) assms(2) [unfolded claim_intent_resume_def]])
    (auto simp: intent_row_ok_def intent_checks_def pair_ok_def held_ok_def paid_ok_def intent_later_def
      split: payme_state.splits)

lemma ledger_mark_notified_good: "system_ok d \<Longrightarrow> good_step d (fst (ledger_mark_notified ref now d))"
  unfolding ledger_mark_notified_def
  by (rule guarded_good_step)
    (auto simp: returning_eq_Inr split: option.splits intro: mark_notified_good)

lemma ledger_claim_resume_good: "system_ok d \<Longrightarrow> good_step d (fst (ledger_claim_resume ref now d))"
  unfolding ledger_claim_resume_def
  by (rule guarded_good_step)
    (auto simp: returning_eq_Inr split: option.splits intro: claim_resume_good)

section \<open>The sweeps\<close>

lemma good_step_trans: "good_step d e \<Longrightarrow> good_step e f \<Longrightarrow> good_step d f"
  by (auto simp: good_step_def intro: rail_later_trans)

lemma fold_good:
  assumes "system_ok d" and "\<And>x n e. x \<in> set xs \<Longrightarrow> good_step d e \<Longrightarrow> good_step e (snd (f x (n, e)))"
  shows "good_step d (snd (fold f xs (n, d)))"
proof -
  have "good_step d e \<Longrightarrow> set ys \<subseteq> set xs \<Longrightarrow> good_step d (snd (fold f ys (m, e)))" for ys e m
  proof (induction ys arbitrary: e m)
    case (Cons y ys)
    obtain m' e' where fy: "f y (m, e) = (m', e')" by fastforce
    have "good_step e e'" using assms(2) [of y e m] Cons.prems fy by simp
    then show ?case using Cons good_step_trans [of d e e'] fy by simp
  qed simp
  then show ?thesis using good_step_refl [OF assms(1)] by simp
qed

lemma expire_lapsed_good: "system_ok d \<Longrightarrow> good_step d (snd (ledger_expire_lapsed now limit d))"
  unfolding ledger_expire_lapsed_def
proof (rule fold_good, assumption)
  fix i :: payment_intent_row and n e
  assume "good_step d e"
  moreover obtain w e' where "expire_intent e (pi_id i) now = (w, e')" by fastforce
  ultimately show "good_step e (snd (expire_step now i (n, e)))"
    using expire_intent_good by (auto simp: expire_step_def good_step_def)
qed

lemma stale_rows_stored:
  "system_ok d \<Longrightarrow> t \<in> set (stale_created_transactions d cutoff limit) \<Longrightarrow> tx_at d (pt_id t) = Some t"
  using set_limit_asc [of pt_payme_time limit]
  by (fastforce simp: stale_created_transactions_def tx_at_def intro!: select_one_self
      dest: system_ok_tables simp: rail_tables_ok_def)

lemma expire_stale_good: "system_ok d \<Longrightarrow> good_step d (snd (ledger_expire_stale_transactions cfg now limit d))"
  unfolding ledger_expire_stale_transactions_def
proof (rule fold_good, assumption)
  fix t n e
  assume "system_ok d" "good_step d e"
    and "t \<in> set (stale_created_transactions d (now - pc_timeout_ms cfg * 1000) limit)"
  then have "names_transaction e t"
    using rail_later_names_transaction stale_rows_stored by (auto simp: good_step_def)
  then show "good_step e (snd (stale_step cfg now t (n, e)))"
    using \<open>good_step d e\<close> time_out_good good_step_refl by (auto simp: stale_step_def good_step_def)
qed

section \<open>The operator's settlement\<close>

lemma operator_settle_good:
  assumes ok: "system_ok d" and i: "intent_by_id d (pi_id row) = Some row"
    and uid: "pi_telegram_user_id row = Some uid"
    and claim: "claim_intent_for_operator d (pi_id row) now note = (True, d1)"
    and sale: "write_sale pid d1 row uid ref now = Inr (u, d')"
  shows "good_step d d'"
proof -
  note frame = write_sale_frame [OF sale]
  have nocover: "\<not> is_cover_key (pi_idempotency_key row)"
    using payme_okD(3) [OF system_okD(1) [OF ok] i] by (simp add: intent_row_ok_def)
  have "payme_ok d'"
  proof (rule update_intents_frame_payme_ok [OF system_okD(1) [OF ok] claim [unfolded claim_intent_for_operator_def] _ frame])
    fix j
    assume "pi_id j = pi_id row \<and> (pi_state j = Intent_PENDING \<or> pi_state j = Intent_AWAITING)"
      and "intent_by_id d (pi_id j) = Some j"
    then have "j = row" using i by (metis option.inject)
    then show "paid_ok d' (j\<lparr>pi_state := Intent_PAID, pi_settled_at := Some now,
        pi_settle_note := Some note, pi_updated_at := now\<rparr>)"
      using write_sale_single(2) [OF sale] by (auto simp: paid_ok_def)
  qed (auto simp: intent_row_ok_def intent_checks_def pair_ok_def held_ok_def split: payme_state.splits)
  moreover have "books_ok d'"
    by (rule write_sale_books_ok [OF sale nocover])
      (rule books_ok_frame [OF system_okD(2) [OF ok]],
        use update_intents_lookups(8,9) [OF claim [unfolded claim_intent_for_operator_def]] in simp_all)
  moreover have "rail_later d d'"
    by (rule rail_later_trans [OF rail_later_claim_for_operator [OF claim] rail_later_frame [OF frame]])
  ultimately show ?thesis by (simp add: good_step_def system_ok_def)
qed

lemma force_settle_cases:
  assumes "ledger_force_settle pid ref now note d = (d', Inr v)"
  obtains (already) i where "intent_by_ref d ref = Some i" "pi_state i = Intent_PAID" "v = intent_view i" "d' = d"
  | (settled) i uid d1 u s where "intent_by_ref d ref = Some i" "pi_state i \<noteq> Intent_PAID"
      "pi_telegram_user_id i = Some uid"
      "claim_intent_for_operator d (pi_id i) now (take settle_note_length (operator_settle_prefix @ note)) = (True, d1)"
      "write_sale pid d1 i uid ref now = Inr (u, d')"
      "intent_by_ref d' ref = Some s" "v = intent_view s"
proof -
  note body = assms [unfolded ledger_force_settle_def run_guarded_returning_Inr]
  from body obtain i where i: "intent_by_ref d ref = Some i" by (auto split: option.splits)
  note body = body [unfolded i option.case]
  show thesis
  proof (cases "pi_state i = Intent_PAID")
    case True
    note body = body [unfolded if_P [OF True]]
    then show thesis by (intro already [OF i True]) simp_all
  next
    case False
    note body = body [unfolded if_not_P [OF False]]
    obtain w d1 where claim: "claim_intent_for_operator d (pi_id i) now
        (take settle_note_length (operator_settle_prefix @ note)) = (w, d1)" by fastforce
    from body obtain uid where uid: "pi_telegram_user_id i = Some uid" by (auto split: option.splits)
    note body = body [unfolded uid option.case claim prod.case]
    have w: w using body by (cases w) simp_all
    from body w obtain u e where sale: "write_sale pid d1 i uid ref now = Inr (u, e)"
      and reread: "(case intent_by_ref e ref of
                      None \<Rightarrow> Inl (Raised (StorageError
                        ''the intent disappeared between being settled and being read back''))
                    | Some settled \<Rightarrow> Inr (intent_view settled, e)) = Inr (v, d')"
      by (auto simp: tx_then_eq_Inr)
    from reread obtain s where "intent_by_ref d' ref = Some s" "v = intent_view s" "e = d'"
      by (auto split: option.splits)
    with claim w sale show thesis by (intro settled [OF i False uid]) simp_all
  qed
qed

lemma force_settle_good: "system_ok d \<Longrightarrow> good_step d (fst (ledger_force_settle pid ref now note d))"
proof -
  assume ok: "system_ok d"
  obtain d' r where c: "ledger_force_settle pid ref now note d = (d', r)" by fastforce
  show ?thesis
  proof (cases r)
    case (Inl e)
    then have "d' = d" using c unfolding ledger_force_settle_def by (auto dest: run_guarded_returning_Inl)
    with ok c show ?thesis by (simp add: good_step_refl)
  next
    case (Inr v)
    with c have "ledger_force_settle pid ref now note d = (d', Inr v)" by simp
    then have "good_step d d'"
    proof (cases rule: force_settle_cases)
      case (already i)
      with ok show ?thesis by (simp add: good_step_refl)
    next
      case (settled i uid d1 u s)
      then show ?thesis
        using operator_settle_good [OF ok] intent_by_ref_id [OF system_ok_tables [OF ok]] by blast
    qed
    with c show ?thesis by simp
  qed
qed

section \<open>The credit store beside the rail\<close>

lemma frame_good:
  assumes "system_ok d" "rail_frame d d'" "books_ok d'"
  shows "good_step d d'"
  using assms rail_frame_payme_ok rail_later_frame by (simp add: good_step_def system_ok_def)

lemma moved_good: "system_ok d \<Longrightarrow> moved d d' uid n \<Longrightarrow> books_ok d' \<Longrightarrow> good_step d d'"
  by (rule frame_good [OF _ rail_frame_moved])

lemma charge_good:
  "system_ok d \<Longrightarrow> charge d uid order actor now cost policy server_now = Inr (x, d') \<Longrightarrow> good_step d d'"
  using charge_books_ok system_okD(2) moved_good by blast

lemma refund_good: "system_ok d \<Longrightarrow> refund d uid order reason actor now = Inr (x, d') \<Longrightarrow> good_step d d'"
  using refund_books_ok system_okD(2) moved_good by blast

lemma consume_good: "system_ok d \<Longrightarrow> consume d uid order reason actor now = Inr (x, d') \<Longrightarrow> good_step d d'"
  using consume_books_ok system_okD(2) moved_good by blast

lemma settle_good: "system_ok d \<Longrightarrow> settle d uid order outcome actor now = Inr (x, d') \<Longrightarrow> good_step d d'"
  by (cases outcome) (auto intro: refund_good consume_good)

lemma close_one_good: "system_ok d \<Longrightarrow> close_one_stale_debit d stale now = Inr (x, d') \<Longrightarrow> good_step d d'"
  by (auto simp: close_one_stale_debit_def split: if_splits intro: refund_good consume_good)

lemma close_stale_good:
  "close_stale_debits d debits now n = Inr (x, d') \<Longrightarrow> system_ok d \<Longrightarrow> good_step d d'"
proof (induction d debits now n rule: close_stale_debits.induct)
  case (1 d now closed)
  then show ?case by (simp add: good_step_refl)
next
  case (2 d stale rest now closed)
  then obtain hit e where "close_one_stale_debit d stale now = Inr (hit, e)"
    and "close_stale_debits e rest now (if hit then closed + 1 else closed) = Inr (x, d')"
    by (auto simp: tx_then_eq_Inr)
  then show ?case using 2 close_one_good good_step_trans good_step_def by blast
qed

lemma grant_good:
  "system_ok d \<Longrightarrow> grant d uid n key actor now reason = Inr (x, d') \<Longrightarrow> \<not> is_cover_key key \<Longrightarrow> good_step d d'"
  by (rule moved_good [OF _ grant_moved grant_books_ok [OF _ _ system_okD(2)]])

lemma single_good:
  "system_ok d \<Longrightarrow> write_single_sale d uid p key now = Inr (x, d') \<Longrightarrow> \<not> is_cover_key key \<Longrightarrow> good_step d d'"
  by (rule moved_good [OF _ write_single_sale_moved write_single_sale_books_ok [OF _ _ system_okD(2)]])

lemma plan_good:
  "system_ok d \<Longrightarrow> write_plan_sale d pid uid p songs days key now = Inr (x, d') \<Longrightarrow> good_step d d'"
  by (rule moved_good [OF _ write_plan_sale_moved [of _ _ _ _ _ _ _ _ _ _ uid] write_plan_sale_books_ok [OF _ system_okD(2)]])

lemma forget_good:
  assumes "system_ok d"
  shows "good_step d (snd (forget_account d uid))"
proof -
  let ?d = "snd (forget_account d uid)"
  obtain w d1 where up: "update_intents (\<lambda>i. pi_telegram_user_id i = Some uid)
      (\<lambda>i. i\<lparr>pi_telegram_user_id := None, pi_resume_order_id := None\<rparr>) d = (w, d1)" by fastforce
  have frame: "rail_frame d1 ?d"
    using up update_intents_lookups(5,9) [OF up]
    by (auto simp: rail_frame_def forget_account_tables ledger_by_key_def select_one_update update_intents_def)
  have "payme_ok ?d"
    by (rule update_intents_frame_payme_ok [OF system_okD(1) [OF assms] up _ frame])
      (auto simp: intent_row_ok_def intent_checks_def pair_ok_def held_ok_def paid_ok_def
        split: payme_state.splits payment_intent_state.splits)
  moreover have "rail_later d d1"
    by (rule rail_later_intents [OF up]) (auto simp: intent_later_def)
  ultimately show ?thesis
    using forget_account_books_ok [OF system_okD(2) [OF assms]] rail_later_frame [OF frame] rail_later_trans
    by (auto simp: good_step_def system_ok_def)
qed

lemma credit_step_good: "credit_step d d' \<Longrightarrow> system_ok d \<Longrightarrow> good_step d d'"
proof (induction rule: credit_step.induct)
  case (charge d policy uid order actor now server_now cost)
  then show ?case unfolding store_charge_def
    by (intro guarded_good_step) (auto simp: returning_eq_Inr intro: charge_good)
next
  case (settle d uid order outcome actor now)
  then show ?case unfolding store_settle_def
    by (intro guarded_good_step) (auto simp: returning_eq_Inr intro: settle_good)
next
  case (grant key d policy uid credits actor now)
  then show ?case unfolding store_grant_def
    by (intro guarded_good_step) (auto simp: returning_eq_Inr tx_then_eq_Inr intro: grant_good)
next
  case (single key d policy uid p now)
  then show ?case unfolding fulfil_single_def
    by (intro guarded_good_step) (auto simp: returning_eq_Inr tx_then_eq_Inr intro: single_good)
next
  case (plan d plan_id uid p songs days key now)
  then show ?case unfolding start_plan_def
    by (intro guarded_good_step) (auto simp: returning_eq_Inr tx_then_eq_Inr intro: plan_good)
next
  case (sweep d now limit policy n d')
  then show ?case by (auto simp: settle_stale_debits_def Let_def intro: close_stale_good)
next
  case (block d uid blocked now)
  then show ?case unfolding store_set_blocked_def
    by (intro frame_good books_ok_frame [OF system_okD(2)])
      (auto simp: rail_frame_def set_blocked_def ledger_by_key_def)
next
  case (touch d uid lang now)
  then show ?case unfolding store_touch_def
    by (intro frame_good books_ok_frame [OF system_okD(2)])
      (auto simp: rail_frame_def touch_def ledger_by_key_def)
next
  case (forget d uid)
  then show ?case unfolding store_forget_def by (rule forget_good)
qed

section \<open>Runs\<close>

text \<open>
  \<open>rail_step past d d'\<close>: one committed transaction takes \<open>d\<close> to \<open>d'\<close>; \<open>past\<close> is every state the run
  has been in, from which an overlapping session may have read its rows.
\<close>

inductive rail_step :: "db list \<Rightarrow> db \<Rightarrow> db \<Rightarrow> bool" where
  credit: "credit_step d d' \<Longrightarrow> rail_step past d d'"
| open_intent: "\<not> is_cover_key (ir_idempotency_key r) \<Longrightarrow>
    rail_step past d (fst (ledger_open_intent cfg k ref r now d))"
| quote: "rail_step past d (fst (ledger_quote cfg ref amount now d))"
| create: "rail_step past d (fst (ledger_create cfg x p ptime amount ref now d))"
| perform: "rail_step past d (fst (ledger_perform cfg pid p now d))"
| cancel: "rail_step past d (fst (ledger_cancel p reason now d))"
| expire_lapsed: "rail_step past d (snd (ledger_expire_lapsed now limit d))"
| expire_stale: "rail_step past d (snd (ledger_expire_stale_transactions cfg now limit d))"
| notified: "rail_step past d (fst (ledger_mark_notified ref now d))"
| resume: "rail_step past d (fst (ledger_claim_resume ref now d))"
| force: "rail_step past d (fst (ledger_force_settle pid ref now note d))"
| late_open: "d0 \<in> set past \<Longrightarrow> payable_intent_or_refuse cfg (intent_by_ref d0 ref) amount now = Inr row \<Longrightarrow>
    rail_step past d (fst (run_guarded op
      (\<lambda>d. returning (open_transaction cfg x d row p ptime amount now)) d))"
| late_settle: "d0 \<in> set past \<Longrightarrow> transaction_by_payme_id d0 p = Some t \<Longrightarrow>
    rail_step past d (fst (run_guarded op (\<lambda>d. returning (settle_perform cfg pid d t now)) d))"
| late_time_out: "d0 \<in> set past \<Longrightarrow> transaction_by_payme_id d0 p = Some t \<Longrightarrow>
    rail_step past d (time_out d t now)"

inductive rail_run :: "db list \<Rightarrow> bool" where
  start: "rail_run [empty_db]"
| step: "rail_run (d # past) \<Longrightarrow> rail_step (d # past) d d' \<Longrightarrow> rail_run (d' # d # past)"

inductive_simps rail_run_single: "rail_run [d]"

lemma rail_step_good:
  assumes "rail_step past d d'" and "system_ok d"
    and "\<And>d0. d0 \<in> set past \<Longrightarrow> system_ok d0 \<and> rail_later d0 d"
  shows "good_step d d'"
  using assms
proof (induction rule: rail_step.induct)
  case (credit d d' past)
  then show ?case by (blast intro: credit_step_good)
next
  case (quote past d cfg ref amount now)
  then show ?case unfolding ledger_quote_def
    by (intro guarded_good_step)
      (auto simp: returning_eq_Inr tx_then_eq_Inr raising_def good_step_refl split: sum.splits)
next
  case (late_open d0 past cfg ref amount now row d op x p ptime)
  then have past: "system_ok d0" "rail_later d0 d" by blast+
  note amount = payable_amount [OF late_open(2)]
  have "names_intent d row"
    by (rule rail_later_names_intent [OF past(2)])
      (use amount intent_by_ref_id [OF system_ok_tables [OF past(1)]] in blast)
  then show ?case
    using late_open(3) amount open_transaction_good [of cfg x d row p ptime now]
    by (intro guarded_good_step) (auto simp: returning_eq_Inr)
next
  case (late_settle d0 past p t d op cfg pid now)
  then have past: "system_ok d0" "rail_later d0 d" by blast+
  have "names_transaction d t"
    by (rule rail_later_names_transaction [OF past(2)])
      (use tx_by_payme_id_at [OF system_ok_tables [OF past(1)] late_settle(2)] in blast)
  then show ?case
    using late_settle(3) settle_perform_good
    by (intro guarded_good_step) (auto simp: returning_eq_Inr)
next
  case (late_time_out d0 past p t d now)
  then have past: "system_ok d0" "rail_later d0 d" by blast+
  have "names_transaction d t"
    by (rule rail_later_names_transaction [OF past(2)])
      (use tx_by_payme_id_at [OF system_ok_tables [OF past(1)] late_time_out(2)] in blast)
  then show ?case using late_time_out(3) time_out_good by blast
qed (auto intro: open_intent_good create_good perform_good cancel_good expire_lapsed_good expire_stale_good
      ledger_mark_notified_good ledger_claim_resume_good force_settle_good)

lemma system_ok_empty: "system_ok empty_db"
  by (simp add: system_ok_def payme_ok_empty books_ok_empty)

text \<open>Every state of a run is sound, and each is a later state of all those before it.\<close>

lemma rail_run_good:
  "rail_run states \<Longrightarrow> \<exists>d past. states = d # past \<and> system_ok d
     \<and> (\<forall>d0 \<in> set past. system_ok d0 \<and> rail_later d0 d)"
proof (induction rule: rail_run.induct)
  case start
  then show ?case by (simp add: system_ok_empty)
next
  case (step d past d')
  then have now: "system_ok d" and past: "\<forall>d0 \<in> set past. system_ok d0 \<and> rail_later d0 d" by auto
  then have "good_step d d'"
    by (intro rail_step_good [OF step(2) now]) auto
  then show ?case
    using now past by (auto simp: good_step_def intro: rail_later_trans)
qed

end
