(* ===== verification/Payme_Service.thy ===== *)
theory Payme_Service
  imports Payme_Run
begin

text \<open>
  The dispatcher of the Merchant API (\<^verbatim>\<open>src/src/bayram/payme/service.py\<close>) and the endpoint in front of
  it (\<^verbatim>\<open>payme/app.py\<close>): reading the parameters, calling the ledger port, rendering the answer or the
  fault, queueing the notification and journalling the call. The ledger is a port, a record of its
  operations over a state. \<open>None\<close> is a Python exception that leaves the dispatcher, which only a
  moment out of the range of \<^verbatim>\<open>datetime\<close> causes; the endpoint's middleware answers for it.
\<close>

section \<open>The port\<close>

record 's payme_port =
  port_quote :: "pystr \<Rightarrow> int \<Rightarrow> instant \<Rightarrow> 's \<Rightarrow> 's \<times> (bayram_error + unit)"
  port_create :: "pystr \<Rightarrow> instant \<Rightarrow> int \<Rightarrow> pystr \<Rightarrow> instant \<Rightarrow> 's \<Rightarrow> 's \<times> (bayram_error + payme_transaction_view)"
  port_perform :: "pystr \<Rightarrow> instant \<Rightarrow> 's \<Rightarrow> 's \<times> (bayram_error + payme_transaction_view)"
  port_cancel :: "pystr \<Rightarrow> int \<Rightarrow> instant \<Rightarrow> 's \<Rightarrow> 's \<times> (bayram_error + payme_transaction_view)"
  port_read :: "pystr \<Rightarrow> 's \<Rightarrow> 's \<times> (bayram_error + payme_transaction_view)"
  port_statement :: "instant \<Rightarrow> instant \<Rightarrow> 's \<Rightarrow> 's \<times> (bayram_error + payme_statement_row list)"

section \<open>Parameters\<close>

definition param_integer :: "(pystr \<times> json) list \<Rightarrow> pystr \<Rightarrow> int option" where
  "param_integer params name = (case map_of params name of Some (JInt n) \<Rightarrow> Some n | _ \<Rightarrow> None)"

definition param_string :: "(pystr \<times> json) list \<Rightarrow> pystr \<Rightarrow> pystr option" where
  "param_string params name =
     (case map_of params name of Some (JString s) \<Rightarrow> if s = [] then None else Some s | _ \<Rightarrow> None)"

definition param_account :: "(pystr \<times> json) list \<Rightarrow> (pystr \<times> json) list" where
  "param_account params = (case map_of params (ustr ''account'') of Some (JObject obj) \<Rightarrow> obj | _ \<Rightarrow> [])"

definition account_value :: "pystr \<Rightarrow> (pystr \<times> json) list \<Rightarrow> pystr option" where
  "account_value field params = param_string (param_account params) field"

definition success_reply_code :: int where "success_reply_code = 0"
definition max_rendered_message :: nat where "max_rendered_message = 200"
definition max_journalled_method :: nat where "max_journalled_method = 32"

text \<open>\<^verbatim>\<open>range(-31099, -31049)\<close>: the codes whose fault must name the account field.\<close>

definition in_account_code_range :: "int \<Rightarrow> bool" where
  "in_account_code_range c = (-31099 \<le> c \<and> c < -31049)"

definition reply_code :: "json \<Rightarrow> int" where
  "reply_code body =
     (case body of
        JObject members \<Rightarrow>
          (case map_of members (ustr ''error'') of
             Some (JObject err) \<Rightarrow> (case map_of err (ustr ''code'') of Some (JInt c) \<Rightarrow> c | _ \<Rightarrow> success_reply_code)
           | _ \<Rightarrow> success_reply_code)
      | _ \<Rightarrow> success_reply_code)"

definition fault_message :: "bayram_error \<Rightarrow> pystr" where
  "fault_message e =
     (let message = ustr (operator_message e)
      in if length message \<le> max_rendered_message then message
         else take (max_rendered_message - 1) message @ [8230])"

section \<open>Rendering faults\<close>

definition account_codes :: "payme_error_code list" where
  "account_codes = [Account_Unknown, Account_Already_Paid, Account_Cancelled, Account_Expired,
     Account_Wrong_Merchant]"

definition account_message :: "int \<Rightarrow> rpc_message" where
  "account_message code =
     (case find (\<lambda>c. error_code c = code) account_codes of
        Some c \<Rightarrow> the (account_messages c)
      | None \<Rightarrow> localised
          [1047, 1072, 1082, 1072, 1079, 32, 1085, 1077, 1076, 1086, 1089, 1090, 1091, 1087, 1077, 1085,
           32, 1076, 1083, 1103, 32, 1086, 1087, 1083, 1072, 1090, 1099]
          (ustr ''Buyurtma to'' @ [699] @ ustr ''lov uchun mavjud emas'')
          (ustr ''This order cannot be paid''))"

definition render_error :: "pystr \<Rightarrow> bayram_error \<Rightarrow> int \<Rightarrow> json" where
  "render_error account_field e request_id =
     (case e of
        PaymeAccountFault _ code field \<Rightarrow>
          render_fault code (account_message code) (Some request_id) (Some field)
      | _ \<Rightarrow>
          (case rpc_code e of
             Some code \<Rightarrow>
               if in_account_code_range code
               then render_fault code (account_message code) (Some request_id) (Some account_field)
               else render_fault code (Plain (fault_message e)) (Some request_id) None
           | None \<Rightarrow>
               render_fault (error_code Internal) (Plain (fault_message e)) (Some request_id) None))"

definition unknown_account :: "pystr \<Rightarrow> int \<Rightarrow> json" where
  "unknown_account account_field request_id =
     render_fault (error_code Account_Unknown) (account_message (error_code Account_Unknown))
       (Some request_id) (Some account_field)"

definition wrong_amount :: "int \<Rightarrow> json" where
  "wrong_amount request_id = render_fault (error_code Wrong_Amount)
     (Plain (ustr ''the amount is missing or is not an integer number of tiyin'')) (Some request_id) None"

definition not_found_fault :: "int \<Rightarrow> json" where
  "not_found_fault request_id = render_fault (error_code Transaction_Not_Found)
     (Plain (ustr ''the request names no transaction'')) (Some request_id) None"

definition malformed :: "int \<Rightarrow> pystr \<Rightarrow> json" where
  "malformed request_id name = render_fault (error_code Envelope)
     (Plain (ustr ''params.'' @ name @ ustr '' is missing or is not an integer'')) (Some request_id) None"

definition transaction_body :: "payme_transaction_view \<Rightarrow> (pystr \<times> json) list" where
  "transaction_body v =
     [(ustr ''create_time'', JInt (wire_time (Some (tv_create_time v)))),
      (ustr ''perform_time'', JInt (wire_time (tv_perform_time v))),
      (ustr ''cancel_time'', JInt (wire_time (tv_cancel_time v))),
      (ustr ''transaction'', JString (tv_our_id v)),
      (ustr ''state'', JInt (wire_state (tv_state v))),
      (ustr ''reason'', json_id (tv_cancel_reason v))]"

definition statement_rows :: "pystr \<Rightarrow> payme_statement_row list \<Rightarrow> json list" where
  "statement_rows account_field rows = map (\<lambda>row. JObject
     ([(ustr ''id'', JString (tv_payme_transaction_id (sr_transaction row))),
       (ustr ''time'', JInt (wire_time (Some (tv_payme_time (sr_transaction row))))),
       (ustr ''amount'', JInt (tv_amount_minor (sr_transaction row))),
       (ustr ''account'', JObject [(account_field, JString (sr_account_value row))])]
      @ transaction_body (sr_transaction row))) rows"

section \<open>The methods\<close>

text \<open>An answer: the state after the call, the body, and the references queued for notification.\<close>

type_synonym 's answer = "'s \<times> json \<times> pystr list"

definition check_perform :: "'s payme_port \<Rightarrow> pystr \<Rightarrow> (pystr \<times> json) list \<Rightarrow> int \<Rightarrow> instant \<Rightarrow> 's \<Rightarrow> 's answer" where
  "check_perform port field params request_id now s =
     (case param_integer params (ustr ''amount'') of
        None \<Rightarrow> (s, wrong_amount request_id, [])
      | Some amount \<Rightarrow>
         (case account_value field params of
            None \<Rightarrow> (s, unknown_account field request_id, [])
          | Some ref \<Rightarrow>
             (case port_quote port ref amount now s of
                (s, Inl e) \<Rightarrow> (s, render_error field e request_id, [])
              | (s, Inr _) \<Rightarrow> (s, render_success [(ustr ''allow'', JBool True)] (Some request_id), []))))"

definition svc_create :: "'s payme_port \<Rightarrow> pystr \<Rightarrow> (pystr \<times> json) list \<Rightarrow> int \<Rightarrow> instant \<Rightarrow> 's \<Rightarrow> 's answer option" where
  "svc_create port field params request_id now s =
     (case param_string params (ustr ''id'') of
        None \<Rightarrow> Some (s, not_found_fault request_id, [])
      | Some payme_id \<Rightarrow>
     (case param_integer params (ustr ''amount'') of
        None \<Rightarrow> Some (s, wrong_amount request_id, [])
      | Some amount \<Rightarrow>
     (case param_integer params (ustr ''time'') of
        None \<Rightarrow> Some (s, malformed request_id (ustr ''time''), [])
      | Some moment \<Rightarrow>
     (case account_value field params of
        None \<Rightarrow> Some (s, unknown_account field request_id, [])
      | Some ref \<Rightarrow>
     (case from_ms moment of
        None \<Rightarrow> None
      | Some payme_time \<Rightarrow>
         (case port_create port payme_id payme_time amount ref now s of
            (s, Inl e) \<Rightarrow> Some (s, render_error field e request_id, [])
          | (s, Inr v) \<Rightarrow> Some (s, render_success
              [(ustr ''create_time'', JInt (wire_time (Some (tv_create_time v)))),
               (ustr ''transaction'', JString (tv_our_id v)),
               (ustr ''state'', JInt (wire_state (tv_state v)))] (Some request_id), [])))))))"

definition svc_perform :: "'s payme_port \<Rightarrow> pystr \<Rightarrow> (pystr \<times> json) list \<Rightarrow> int \<Rightarrow> instant \<Rightarrow> 's \<Rightarrow> 's answer" where
  "svc_perform port field params request_id now s =
     (case param_string params (ustr ''id'') of
        None \<Rightarrow> (s, not_found_fault request_id, [])
      | Some payme_id \<Rightarrow>
         (case port_perform port payme_id now s of
            (s, Inl e) \<Rightarrow> (s, render_error field e request_id, [])
          | (s, Inr v) \<Rightarrow> (s, render_success
              [(ustr ''transaction'', JString (tv_our_id v)),
               (ustr ''perform_time'', JInt (wire_time (tv_perform_time v))),
               (ustr ''state'', JInt (wire_state (tv_state v)))] (Some request_id),
              [tv_intent_public_ref v])))"

definition svc_cancel :: "'s payme_port \<Rightarrow> pystr \<Rightarrow> (pystr \<times> json) list \<Rightarrow> int \<Rightarrow> instant \<Rightarrow> 's \<Rightarrow> 's answer" where
  "svc_cancel port field params request_id now s =
     (case param_string params (ustr ''id'') of
        None \<Rightarrow> (s, not_found_fault request_id, [])
      | Some payme_id \<Rightarrow>
         (case port_cancel port payme_id
                 (case param_integer params (ustr ''reason'') of None \<Rightarrow> reason_code Unknown | Some r \<Rightarrow> r) now s of
            (s, Inl e) \<Rightarrow> (s, render_error field e request_id, [])
          | (s, Inr v) \<Rightarrow> (s, render_success
              [(ustr ''transaction'', JString (tv_our_id v)),
               (ustr ''cancel_time'', JInt (wire_time (tv_cancel_time v))),
               (ustr ''state'', JInt (wire_state (tv_state v)))] (Some request_id), [])))"

definition svc_check :: "'s payme_port \<Rightarrow> pystr \<Rightarrow> (pystr \<times> json) list \<Rightarrow> int \<Rightarrow> 's \<Rightarrow> 's answer" where
  "svc_check port field params request_id s =
     (case param_string params (ustr ''id'') of
        None \<Rightarrow> (s, not_found_fault request_id, [])
      | Some payme_id \<Rightarrow>
         (case port_read port payme_id s of
            (s, Inl e) \<Rightarrow> (s, render_error field e request_id, [])
          | (s, Inr v) \<Rightarrow> (s, render_success (transaction_body v) (Some request_id), [])))"

definition svc_statement :: "'s payme_port \<Rightarrow> pystr \<Rightarrow> (pystr \<times> json) list \<Rightarrow> int \<Rightarrow> 's \<Rightarrow> 's answer option" where
  "svc_statement port field params request_id s =
     (case param_integer params (ustr ''from'') of
        None \<Rightarrow> Some (s, malformed request_id (ustr ''from''), [])
      | Some frm \<Rightarrow>
     (case param_integer params (ustr ''to'') of
        None \<Rightarrow> Some (s, malformed request_id (ustr ''to''), [])
      | Some to \<Rightarrow>
     (case (from_ms frm, from_ms to) of
        (Some t1, Some t2) \<Rightarrow>
         (case port_statement port t1 t2 s of
            (s, Inl e) \<Rightarrow> Some (s, render_error field e request_id, [])
          | (s, Inr rows) \<Rightarrow> Some (s, render_success
              [(ustr ''transactions'', JList (statement_rows field rows))] (Some request_id), []))
      | _ \<Rightarrow> None)))"

definition change_password_refusal :: pystr where
  "change_password_refusal = ustr (''key rotation on this deployment is a redeploy: the endpoint does not rewrite its own ''
     @ ''credential, see the key-rotation runbook'')"

definition route :: "'s payme_port \<Rightarrow> pystr \<Rightarrow> rpc_request \<Rightarrow> instant \<Rightarrow> 's \<Rightarrow> 's answer option" where
  "route port field rq now s =
     (case method_of_name (rq_method rq) of
        None \<Rightarrow> Some (s, render_fault (error_code Method_Not_Found) (Plain (ustr ''unknown method''))
                  (Some (rq_id rq)) (Some (take max_rendered_message (rq_method rq))), [])
      | Some CheckPerformTransaction \<Rightarrow> Some (check_perform port field (rq_params rq) (rq_id rq) now s)
      | Some CreateTransaction \<Rightarrow> svc_create port field (rq_params rq) (rq_id rq) now s
      | Some PerformTransaction \<Rightarrow> Some (svc_perform port field (rq_params rq) (rq_id rq) now s)
      | Some CancelTransaction \<Rightarrow> Some (svc_cancel port field (rq_params rq) (rq_id rq) now s)
      | Some CheckTransaction \<Rightarrow> Some (svc_check port field (rq_params rq) (rq_id rq) s)
      | Some GetStatement \<Rightarrow> svc_statement port field (rq_params rq) (rq_id rq) s
      | Some ChangePassword \<Rightarrow> Some (s, render_fault (error_code Internal)
                  (Plain change_password_refusal) (Some (rq_id rq)) None, []))"

section \<open>Dispatching and journalling\<close>

text \<open>\<^verbatim>\<open>SqlRpcJournal.record\<close> writes the row in a session of its own (\<^verbatim>\<open>payme/container.py\<close>).\<close>

definition record_call ::
    "pystr \<Rightarrow> instant \<Rightarrow> pystr \<Rightarrow> (pystr \<times> json) list \<Rightarrow> int \<Rightarrow> pystr option \<Rightarrow> int \<Rightarrow> db \<Rightarrow> db" where
  "record_call field at called params code peer_ip duration_ms d =
     insert_rpc_log d at (take max_journalled_method called) (param_string params (ustr ''id''))
       (account_value field params) code peer_ip duration_ms"

definition dispatch ::
    "db payme_port \<Rightarrow> pystr \<Rightarrow> rpc_request \<Rightarrow> pystr option \<Rightarrow> instant \<Rightarrow> int \<Rightarrow> db \<Rightarrow> (db \<times> json \<times> int \<times> pystr list) option" where
  "dispatch port field rq peer_ip now duration_ms d =
     (case route port field rq now d of
        None \<Rightarrow> None
      | Some (d, body, queued) \<Rightarrow>
         Some (record_call field now (rq_method rq) (rq_params rq) (reply_code body) peer_ip duration_ms d,
           body, reply_code body, queued))"

definition record_refusal :: "pystr \<Rightarrow> pystr \<Rightarrow> int \<Rightarrow> pystr option \<Rightarrow> instant \<Rightarrow> int \<Rightarrow> db \<Rightarrow> db" where
  "record_refusal field called code peer_ip now duration_ms d =
     record_call field now called [] code peer_ip duration_ms d"

text \<open>The ledger of this deployment as the port; the fresh identifiers are arguments.\<close>

definition sql_payme_ledger :: "payme_config \<Rightarrow> uuid \<times> uuid \<Rightarrow> db payme_port" where
  "sql_payme_ledger cfg ids =
     \<lparr>port_quote = ledger_quote cfg,
      port_create = ledger_create cfg (fst ids),
      port_perform = ledger_perform cfg (snd ids),
      port_cancel = ledger_cancel,
      port_read = ledger_read,
      port_statement = (\<lambda>frm to d. (d, Inr (ledger_statement frm to d)))\<rparr>"

end
