(* ===== verification/Payme_Port.thy ===== *)
theory Payme_Port
  imports Payme_Service
begin

text \<open>
  The contract between the dispatcher and the ledger port, as the locale \<open>payme_rail\<close>: which calls
  only read, and what a later call answers once a transaction is performed or cancelled. The
  dispatcher's replay lemmas are proved from the contract, and the SQL ledger is shown to keep it.
\<close>

section \<open>The contract\<close>

definition is_success :: "json \<Rightarrow> bool" where
  "is_success body =
     (case body of JObject members \<Rightarrow> map_of members (ustr ''error'') = None | _ \<Rightarrow> False)"

lemma is_success_render [simp]:
  "is_success (render_success result i)" "\<not> is_success (render_fault code m i payload)"
  by (simp_all add: is_success_def render_success_def render_fault_def)

lemma is_success_render_error [simp]: "\<not> is_success (render_error field e i)"
  by (cases e) (simp_all add: render_error_def)

lemma is_success_faults [simp]:
  "\<not> is_success (not_found_fault i)" "\<not> is_success (wrong_amount i)" "\<not> is_success (malformed i n)"
  "\<not> is_success (unknown_account f i)"
  by (simp_all add: not_found_fault_def wrong_amount_def malformed_def unknown_account_def)

locale payme_rail =
  fixes port :: "'i \<Rightarrow> 's payme_port"
    and good :: "'s \<Rightarrow> bool"
    and later :: "'s \<Rightarrow> 's \<Rightarrow> bool"
  assumes quote_reads: "fst (port_quote (port i) r a now s) = s"
    and read_reads: "fst (port_read (port i) p s) = s"
    and statement_reads: "fst (port_statement (port i) frm to s) = s"
    and perform_answers: "good s \<Longrightarrow> port_perform (port i) p now s = (s', Inr v)
          \<Longrightarrow> tv_state v = Payme_PERFORMED \<and> tv_perform_time v \<noteq> None"
    and perform_replays: "good s \<Longrightarrow> port_perform (port i) p now s = (s', Inr v) \<Longrightarrow> good t \<Longrightarrow> later s' t
          \<Longrightarrow> port_perform (port j) p now' t = (t, Inr v)"
    and perform_reads: "good s \<Longrightarrow> port_perform (port i) p now s = (s', Inr v) \<Longrightarrow> good t \<Longrightarrow> later s' t
          \<Longrightarrow> port_read (port j) p t = (t, Inr v)"
    and perform_sticks: "good s \<Longrightarrow> port_perform (port i) p now s = (s', Inr v) \<Longrightarrow> good t \<Longrightarrow> later s' t
          \<Longrightarrow> \<exists>m. port_cancel (port j) p reason now' t = (t, Inl (PaymeOrderDelivered m))"
    and cancel_answers: "good s \<Longrightarrow> port_cancel (port i) p reason now s = (s', Inr v)
          \<Longrightarrow> tv_state v = Payme_CANCELLED \<and> tv_cancel_time v \<noteq> None"
    and cancel_replays: "good s \<Longrightarrow> port_cancel (port i) p reason now s = (s', Inr v) \<Longrightarrow> good t \<Longrightarrow> later s' t
          \<Longrightarrow> port_cancel (port j) p reason' now' t = (t, Inr v)"
    and cancel_reads: "good s \<Longrightarrow> port_cancel (port i) p reason now s = (s', Inr v) \<Longrightarrow> good t \<Longrightarrow> later s' t
          \<Longrightarrow> port_read (port j) p t = (t, Inr v)"
    and cancel_sticks: "good s \<Longrightarrow> port_cancel (port i) p reason now s = (s', Inr v) \<Longrightarrow> good t \<Longrightarrow> later s' t
          \<Longrightarrow> \<exists>m. port_perform (port j) p now' t = (t, Inl (PaymeStateRefusal m (error_code State_Refusal)))"
begin

lemma performed_call:
  assumes "svc_perform (port i) field params rid now s = (s', body, queued)" "is_success body"
  obtains p v where "param_string params (ustr ''id'') = Some p" "port_perform (port i) p now s = (s', Inr v)"
    "body = render_success
              [(ustr ''transaction'', JString (tv_our_id v)),
               (ustr ''perform_time'', JInt (wire_time (tv_perform_time v))),
               (ustr ''state'', JInt (wire_state (tv_state v)))] (Some rid)"
    "queued = [tv_intent_public_ref v]"
  using assms by (auto simp: svc_perform_def simp del: ustr_Cons ustr_Nil split: option.splits prod.splits sum.splits)

lemma cancelled_call:
  assumes "svc_cancel (port i) field params rid now s = (s', body, queued)" "is_success body"
  obtains p r v where "param_string params (ustr ''id'') = Some p" "port_cancel (port i) p r now s = (s', Inr v)"
    "body = render_success
              [(ustr ''transaction'', JString (tv_our_id v)),
               (ustr ''cancel_time'', JInt (wire_time (tv_cancel_time v))),
               (ustr ''state'', JInt (wire_state (tv_state v)))] (Some rid)" "queued = []"
  using assms by (auto simp: svc_cancel_def simp del: ustr_Cons ustr_Nil split: option.splits prod.splits sum.splits)

text \<open>The same call answered again, whenever that is and whatever happened in between.\<close>

lemma svc_perform_replay:
  assumes call: "svc_perform (port i) field params rid now s = (s', body, queued)" "is_success body"
    and ok: "good s" "good t" "later s' t"
  shows "svc_perform (port j) field params rid now' t = (t, body, queued)"
  using call
proof (rule performed_call)
  fix p v
  assume "param_string params (ustr ''id'') = Some p" "port_perform (port i) p now s = (s', Inr v)"
    "body = render_success
              [(ustr ''transaction'', JString (tv_our_id v)),
               (ustr ''perform_time'', JInt (wire_time (tv_perform_time v))),
               (ustr ''state'', JInt (wire_state (tv_state v)))] (Some rid)"
    "queued = [tv_intent_public_ref v]"
  then show ?thesis
    using perform_replays [OF ok(1) _ ok(2,3)] by (simp add: svc_perform_def del: ustr_Cons ustr_Nil)
qed

lemma svc_cancel_replay:
  assumes call: "svc_cancel (port i) field params rid now s = (s', body, queued)" "is_success body"
    and ok: "good s" "good t" "later s' t"
  shows "svc_cancel (port j) field params rid now' t = (t, body, queued)"
  using call
proof (rule cancelled_call)
  fix p r v
  assume "param_string params (ustr ''id'') = Some p" "port_cancel (port i) p r now s = (s', Inr v)"
    "body = render_success
              [(ustr ''transaction'', JString (tv_our_id v)),
               (ustr ''cancel_time'', JInt (wire_time (tv_cancel_time v))),
               (ustr ''state'', JInt (wire_state (tv_state v)))] (Some rid)" "queued = []"
  then show ?thesis
    using cancel_replays [OF ok(1) _ ok(2,3)] by (simp add: svc_cancel_def del: ustr_Cons ustr_Nil)
qed

text \<open>The status call agrees with the answer that was given.\<close>

lemma svc_check_after_perform:
  assumes call: "svc_perform (port i) field params rid now s = (s', body, queued)" "is_success body"
    and ok: "good s" "good t" "later s' t"
  shows "\<exists>v. svc_check (port j) field params rid' t = (t, render_success (transaction_body v) (Some rid'), [])
     \<and> tv_state v = Payme_PERFORMED \<and> tv_perform_time v \<noteq> None
     \<and> body = render_success
              [(ustr ''transaction'', JString (tv_our_id v)),
               (ustr ''perform_time'', JInt (wire_time (tv_perform_time v))),
               (ustr ''state'', JInt (wire_state (tv_state v)))] (Some rid)"
  using call
proof (rule performed_call)
  fix p v
  assume v: "param_string params (ustr ''id'') = Some p" "port_perform (port i) p now s = (s', Inr v)"
    "body = render_success
              [(ustr ''transaction'', JString (tv_our_id v)),
               (ustr ''perform_time'', JInt (wire_time (tv_perform_time v))),
               (ustr ''state'', JInt (wire_state (tv_state v)))] (Some rid)"
  then show ?thesis
    using perform_reads [OF ok(1) v(2) ok(2,3)] perform_answers [OF ok(1) v(2)]
    by (intro exI [of _ v]) (simp add: svc_check_def del: ustr_Cons ustr_Nil)
qed

text \<open>A performed transaction is never given back, and a cancelled one never performed.\<close>

lemma svc_cancel_after_perform:
  assumes call: "svc_perform (port i) field params rid now s = (s', body, queued)" "is_success body"
    and ok: "good s" "good t" "later s' t"
  shows "\<exists>m. svc_cancel (port j) field params rid' now' t
     = (t, render_fault (error_code Order_Delivered) (Plain m) (Some rid') None, [])"
  using call
proof (rule performed_call)
  fix p v
  assume v: "param_string params (ustr ''id'') = Some p" "port_perform (port i) p now s = (s', Inr v)"
  from perform_sticks [OF ok(1) v(2) ok(2,3)] obtain m where
    "port_cancel (port j) p (case param_integer params (ustr ''reason'') of None \<Rightarrow> reason_code Unknown | Some r \<Rightarrow> r)
       now' t = (t, Inl (PaymeOrderDelivered m))" by blast
  then show ?thesis
    using v(1)
    by (intro exI [of _ "fault_message (PaymeOrderDelivered m)"])
      (simp add: svc_cancel_def render_error_def in_account_code_range_def del: ustr_Cons ustr_Nil)
qed

lemma svc_perform_after_cancel:
  assumes call: "svc_cancel (port i) field params rid now s = (s', body, queued)" "is_success body"
    and ok: "good s" "good t" "later s' t"
  shows "\<exists>m. svc_perform (port j) field params rid' now' t
     = (t, render_fault (error_code State_Refusal) (Plain m) (Some rid') None, [])"
  using call
proof (rule cancelled_call)
  fix p r v
  assume v: "param_string params (ustr ''id'') = Some p" "port_cancel (port i) p r now s = (s', Inr v)"
  from cancel_sticks [OF ok(1) v(2) ok(2,3)] obtain m where
    "port_perform (port j) p now' t = (t, Inl (PaymeStateRefusal m (error_code State_Refusal)))" by blast
  then show ?thesis
    using v(1)
    by (intro exI [of _ "fault_message (PaymeStateRefusal m (error_code State_Refusal))"])
      (simp add: svc_perform_def render_error_def in_account_code_range_def del: ustr_Cons ustr_Nil)
qed

end

section \<open>The SQL ledger keeps it\<close>

lemma view_of_Inr:
  "view_of d t = Inr (v, d') \<longleftrightarrow> d' = d \<and> (\<exists>i. intent_by_id d (pt_intent_id t) = Some i
     \<and> v = transaction_view t (pi_public_ref i))"
  by (auto simp: view_of_def split: option.splits)

text \<open>What the database holds after a successful perform or cancel.\<close>

definition answered :: "db \<Rightarrow> pystr \<Rightarrow> payme_state \<Rightarrow> payme_transaction_view \<Rightarrow> bool" where
  "answered d p st v \<longleftrightarrow> (\<exists>t i. transaction_by_payme_id d p = Some t \<and> pt_state t = st
     \<and> intent_by_id d (pt_intent_id t) = Some i \<and> v = transaction_view t (pi_public_ref i))"

lemma answered_later:
  assumes "answered d p st v" "system_ok d" "st \<noteq> Payme_CREATED" "system_ok e" "rail_later d e"
  shows "answered e p st v"
proof -
  from assms(1) obtain t i where t: "transaction_by_payme_id d p = Some t" "pt_state t = st"
    and i: "intent_by_id d (pt_intent_id t) = Some i" and v: "v = transaction_view t (pi_public_ref i)"
    unfolding answered_def by blast
  note t' = tx_by_payme_id_at [OF system_ok_tables [OF assms(2)] t(1)]
  have "tx_at e (pt_id t) = Some t"
    by (rule rail_later_finished [OF assms(5)]) (use t t' assms(3) in auto)
  then have "transaction_by_payme_id e p = Some t"
    using tx_at_by_payme_id [OF system_ok_tables [OF assms(4)]] t' by blast
  moreover obtain i' where "intent_by_id e (pt_intent_id t) = Some i'" "pi_public_ref i' = pi_public_ref i"
    using assms(5) i unfolding rail_later_def intent_later_def by blast
  ultimately show ?thesis unfolding answered_def using t v by auto
qed

lemma answered_view: "answered d p st v \<Longrightarrow> tv_state v = st"
  by (auto simp: answered_def transaction_view_def)

lemma perform_answered:
  assumes ok: "system_ok d" and "ledger_perform cfg pid p now d = (d', Inr v)"
  shows "answered d' p Payme_PERFORMED v"
proof -
  note body = assms(2) [unfolded ledger_perform_def run_guarded_def]
  from body obtain row where row: "transaction_by_payme_id d p = Some row"
    by (auto split: option.splits)
  consider (replay) "pt_state row = Payme_PERFORMED" "view_of d row = Inr (v, d')"
    | (settle) "pt_state row = Payme_CREATED" "settle_perform cfg pid d row now = Inr (v, d')"
    using body by (auto simp: row returning_eq_Inr split: if_splits sum.splits exn.splits)
  then show ?thesis
  proof cases
    case replay
    then show ?thesis using row by (auto simp: view_of_Inr answered_def)
  next
    case settle
    have id: "tx_at d (pt_id row) = Some row" "pt_payme_transaction_id row = p"
      using tx_by_payme_id_at [OF system_ok_tables [OF ok] row] by simp_all
    from settle(2) system_ok_tables [OF ok] show ?thesis
    proof (cases rule: settle_perform_cases)
      case (replay t)
      then show ?thesis using id row settle by (auto simp: view_of_Inr answered_def)
    next
      case (settled d1 w d2 i u)
      note m = mark_performed_lookups [OF settled(1)]
      note c = update_intents_lookups [OF settled(2) [unfolded claim_intent_def], simplified]
      note f = rail_frame_lookups [OF sale_of_facts(1) [OF settled(7)]]
      obtain t where t: "transaction_by_payme_id d' p = Some t" "v = transaction_view t (pi_public_ref i)"
        using settled(8) id by auto
      then have t': "t = row\<lparr>pt_state := Payme_PERFORMED, pt_perform_time := Some now, pt_updated_at := now\<rparr>"
        using row settle(1) by (simp add: f c m)
      moreover have "intent_by_id d' (pt_intent_id row) = Some i" using settled(3) by (simp add: f)
      ultimately show ?thesis unfolding answered_def using t by (intro exI [of _ t] exI [of _ i]) simp
    qed
  qed
qed

lemma cancel_answered:
  assumes ok: "system_ok d" and "ledger_cancel p reason now d = (d', Inr v)"
  shows "answered d' p Payme_CANCELLED v"
  using assms(2) system_ok_tables [OF ok]
proof (cases rule: cancel_cases)
  case (replay t)
  then have "pt_state t = Payme_CANCELLED"
    using payme_okD(2) [OF system_okD(1) [OF ok]] tx_by_payme_id_at [OF system_ok_tables [OF ok]]
    by (fastforce simp: pair_ok_def)
  then show ?thesis using replay by (auto simp: view_of_Inr answered_def)
next
  case (cancelled t d1 w1 w2 fresh)
  note m = mark_cancelled_lookups [OF cancelled(3)]
  note r = update_intents_lookups [OF cancelled(4) [unfolded release_intent_def], simplified]
  have "pt_state fresh = Payme_CANCELLED" using cancelled(1,2,5) by (auto simp: r m)
  then show ?thesis using cancelled(5,6) by (auto simp: view_of_Inr answered_def)
qed

lemma answered_ops:
  assumes "answered d p st v"
  shows "ledger_read p d = (d, Inr v)"
    and "st = Payme_PERFORMED \<Longrightarrow> ledger_perform cfg pid p now d = (d, Inr v)"
    and "st = Payme_CANCELLED \<Longrightarrow> ledger_cancel p reason now d = (d, Inr v)"
    and "st = Payme_PERFORMED \<Longrightarrow> \<exists>m. ledger_cancel p reason now d = (d, Inl (PaymeOrderDelivered m))"
    and "st = Payme_CANCELLED \<Longrightarrow> \<exists>m. ledger_perform cfg pid p now d
           = (d, Inl (PaymeStateRefusal m (error_code State_Refusal)))"
  using assms
  by (auto simp: answered_def ledger_read_def ledger_perform_def ledger_cancel_def run_guarded_def view_of_def)

lemma answered_times:
  assumes "answered d p st v" "system_ok d"
  shows "st = Payme_PERFORMED \<Longrightarrow> tv_perform_time v \<noteq> None"
    and "st = Payme_CANCELLED \<Longrightarrow> tv_cancel_time v \<noteq> None"
  using assms payme_okD(2) [OF system_okD(1) [OF assms(2)]] tx_by_payme_id_at [OF system_ok_tables [OF assms(2)]]
  by (fastforce simp: answered_def pair_ok_def transaction_view_def)+

lemma perform_good_step: "system_ok d \<Longrightarrow> ledger_perform cfg pid p now d = (d', r) \<Longrightarrow> system_ok d'"
  using perform_good [of d cfg pid p now] by (simp add: good_step_def)

lemma cancel_good_step: "system_ok d \<Longrightarrow> ledger_cancel p reason now d = (d', r) \<Longrightarrow> system_ok d'"
  using cancel_good [of d p reason now] by (simp add: good_step_def)

lemma guarded_read: "(\<And>v e. block d = Inr (v, e) \<Longrightarrow> e = d) \<Longrightarrow> fst (run_guarded op block d) = d"
  by (auto simp: run_guarded_def split: sum.splits exn.splits)

lemma ledger_quote_reads: "fst (ledger_quote cfg r a now d) = d"
  unfolding ledger_quote_def
  by (rule guarded_read) (auto simp: returning_eq_Inr tx_then_eq_Inr raising_def split: sum.splits)

lemma ledger_read_reads: "fst (ledger_read p d) = d"
  unfolding ledger_read_def
  by (rule guarded_read) (auto simp: returning_eq_Inr view_of_Inr split: option.splits)

interpretation sql_rail: payme_rail "sql_payme_ledger cfg" system_ok rail_later for cfg
proof
  fix i j :: "uuid \<times> uuid" and r p :: pystr and a :: int and now now' frm to :: instant
    and reason reason' :: int and s s' t :: db and v :: payme_transaction_view
  show "fst (port_quote (sql_payme_ledger cfg i) r a now s) = s"
    by (simp add: sql_payme_ledger_def ledger_quote_reads)
  show "fst (port_read (sql_payme_ledger cfg i) p s) = s"
    by (simp add: sql_payme_ledger_def ledger_read_reads)
  show "fst (port_statement (sql_payme_ledger cfg i) frm to s) = s"
    by (simp add: sql_payme_ledger_def)
  {
    assume s: "system_ok s" and "port_perform (sql_payme_ledger cfg i) p now s = (s', Inr v)"
    then have op: "ledger_perform cfg (snd i) p now s = (s', Inr v)" by (simp add: sql_payme_ledger_def)
    note ans = perform_answered [OF s op] and s' = perform_good_step [OF s op]
    show "tv_state v = Payme_PERFORMED \<and> tv_perform_time v \<noteq> None"
      using answered_view [OF ans] answered_times(1) [OF ans s'] by simp
    assume t: "system_ok t" "rail_later s' t"
    then have "answered t p Payme_PERFORMED v" by (intro answered_later [OF ans s']) simp_all
    note ops = answered_ops [OF this]
    show "port_perform (sql_payme_ledger cfg j) p now' t = (t, Inr v)"
      using ops(2) by (simp add: sql_payme_ledger_def)
    show "port_read (sql_payme_ledger cfg j) p t = (t, Inr v)"
      using ops(1) by (simp add: sql_payme_ledger_def)
    show "\<exists>m. port_cancel (sql_payme_ledger cfg j) p reason now' t = (t, Inl (PaymeOrderDelivered m))"
      using ops(4) by (simp add: sql_payme_ledger_def)
  }
  {
    assume s: "system_ok s" and "port_cancel (sql_payme_ledger cfg i) p reason now s = (s', Inr v)"
    then have op: "ledger_cancel p reason now s = (s', Inr v)" by (simp add: sql_payme_ledger_def)
    note ans = cancel_answered [OF s op] and s' = cancel_good_step [OF s op]
    show "tv_state v = Payme_CANCELLED \<and> tv_cancel_time v \<noteq> None"
      using answered_view [OF ans] answered_times(2) [OF ans s'] by simp
    assume t: "system_ok t" "rail_later s' t"
    then have "answered t p Payme_CANCELLED v" by (intro answered_later [OF ans s']) simp_all
    note ops = answered_ops [OF this]
    show "port_cancel (sql_payme_ledger cfg j) p reason' now' t = (t, Inr v)"
      using ops(3) by (simp add: sql_payme_ledger_def)
    show "port_read (sql_payme_ledger cfg j) p t = (t, Inr v)"
      using ops(1) by (simp add: sql_payme_ledger_def)
    show "\<exists>m. port_perform (sql_payme_ledger cfg j) p now' t
        = (t, Inl (PaymeStateRefusal m (error_code State_Refusal)))"
      using ops(5) by (simp add: sql_payme_ledger_def)
  }
qed

end
