(* ===== verification/Payme_Sample.thy ===== *)
theory Payme_Sample
  imports Payme_Port
begin

text \<open>
  One concrete run of the rail, on which the theorems about runs are instantiated: an intent is
  opened, a transaction created and performed, a second intent opened, created and cancelled.
\<close>

definition s_cfg :: payme_config where
  "s_cfg = \<lparr>pc_merchant_id = [77], pc_timeout_ms = 43200000, pc_intent_ttl_s = 43200,
     pc_duplicate_code = -31008, pc_account_field = default_account_field\<rparr>"

definition s_t :: instant where "s_t = 1790000000000000"

definition s_request :: "int \<Rightarrow> pystr \<Rightarrow> intent_request" where
  "s_request uid key = \<lparr>ir_telegram_user_id = uid, ir_product = SINGLE, ir_amount_minor = 500000,
     ir_currency = [85, 90, 83], ir_idempotency_key = key, ir_language = [114, 117],
     ir_merchant_id = [77], ir_is_sandbox = False, ir_plan_songs = None, ir_plan_days = None,
     ir_resume_order_id = None\<rparr>"

definition s_opened :: db where
  "s_opened = fst (ledger_open_intent s_cfg [1] [101] (s_request 7 [200]) s_t empty_db)"

definition s_created :: db where
  "s_created = fst (ledger_create s_cfg [11] [51] s_t 500000 [101] s_t s_opened)"

definition s_performed :: db where
  "s_performed = fst (ledger_perform s_cfg [21] [51] (s_t + 5000000) s_created)"

definition s_second :: db where
  "s_second = fst (ledger_create s_cfg [12] [52] s_t 500000 [102] s_t
     (fst (ledger_open_intent s_cfg [2] [102] (s_request 8 [201]) s_t s_performed)))"

definition s_cancelled :: db where
  "s_cancelled = fst (ledger_cancel [52] 3 (s_t + 9000000) s_second)"

lemmas s_defs = s_opened_def s_created_def s_performed_def s_second_def s_cancelled_def

lemma not_cover_short: "k < 100 + 102 \<Longrightarrow> \<not> is_cover_key [k]"
  by (auto simp: is_cover_key_def)

lemma s_run_created: "rail_run [s_created, s_opened, empty_db]"
  unfolding s_created_def
  by (rule rail_run.step [OF _ rail_step.create], unfold s_opened_def,
      rule rail_run.step [OF rail_run.start rail_step.open_intent])
    (simp add: s_request_def not_cover_short)

lemma s_run_performed: "rail_run [s_performed, s_created, s_opened, empty_db]"
  unfolding s_performed_def by (rule rail_run.step [OF s_run_created rail_step.perform])

lemma s_run_cancelled:
  "\<exists>e. rail_run [s_cancelled, s_second, e, s_performed, s_created, s_opened, empty_db]"
  unfolding s_cancelled_def s_second_def
  by (rule exI, rule rail_run.step [OF rail_run.step [OF rail_run.step [OF s_run_performed
        rail_step.open_intent] rail_step.create] rail_step.cancel])
    (simp add: s_request_def not_cover_short)

end
