(* ===== verification/Payme_Claims.thy ===== *)
theory Payme_Claims
  imports Payme_Sample
begin

text \<open>
  The properties of the Payme rail: what holds in every state of every run, what each call of the
  wire answers, how often a payment is credited, and the clock the wire goes through.
\<close>

section \<open>Runs\<close>

lemma rail_run_now: "rail_run (d # past) \<Longrightarrow> system_ok d"
  by (drule rail_run_good) auto

lemma rail_run_later: "rail_run (d # past) \<Longrightarrow> d0 \<in> set past \<Longrightarrow> system_ok d0 \<and> rail_later d0 d"
  by (drule rail_run_good) auto

lemma stored_tx: "system_ok d \<Longrightarrow> t \<in> set (transactions d) \<Longrightarrow> tx_at d (pt_id t) = Some t"
  using system_ok_tables by (auto simp: tx_at_def rail_tables_ok_def select_one_self)

lemma stored_intent: "system_ok d \<Longrightarrow> i \<in> set (intents d) \<Longrightarrow> intent_by_id d (pi_id i) = Some i"
  using system_ok_tables by (auto simp: intent_by_id_def rail_tables_ok_def select_one_self)

lemma live_tx_holds:
  assumes "system_ok d" "t \<in> set (transactions d)" "pt_state t = Payme_CREATED \<or> pt_state t = Payme_PERFORMED"
  obtains i where "intent_by_id d (pt_intent_id t) = Some i" "pi_active_transaction_id i = Some (pt_id t)"
    "pi_amount_minor i = pt_amount_minor t"
    "pt_state t = Payme_PERFORMED \<Longrightarrow> pi_state i = Intent_PAID"
  using payme_okD(2) [OF system_okD(1) [OF assms(1)] stored_tx [OF assms(1,2)]] assms(3)
  by (auto simp: pair_ok_def)

text \<open>C2. One card is charged per order: in every state of every run, stale reads included, an intent
  has at most one transaction that is open or performed.\<close>

theorem one_live_transaction_per_intent:
  assumes "rail_run (d # past)"
    and "t \<in> set (transactions d)" "u \<in> set (transactions d)" "pt_intent_id t = pt_intent_id u"
    and "pt_state t = Payme_CREATED \<or> pt_state t = Payme_PERFORMED"
    and "pt_state u = Payme_CREATED \<or> pt_state u = Payme_PERFORMED"
  shows "t = u"
proof -
  note ok = rail_run_now [OF assms(1)]
  obtain i where "intent_by_id d (pt_intent_id t) = Some i" "pi_active_transaction_id i = Some (pt_id t)"
    using live_tx_holds [OF ok assms(2,5)] .
  moreover obtain j where "intent_by_id d (pt_intent_id u) = Some j" "pi_active_transaction_id j = Some (pt_id u)"
    using live_tx_holds [OF ok assms(3,6)] .
  ultimately have "pt_id t = pt_id u" using assms(4) by simp
  then show ?thesis using stored_tx [OF ok assms(2)] stored_tx [OF ok assms(3)] by (metis option.inject)
qed

lemma s_created_states: "map pt_state (transactions s_created) = [Payme_CREATED]"
  by code_simp

theorem one_live_transaction_witness:
  "\<exists>t. t \<in> set (transactions s_created) \<and> pt_state t = Payme_CREATED \<and> t = t"
proof -
  obtain t where "transactions s_created = [t]" "pt_state t = Payme_CREATED"
    using s_created_states by (cases "transactions s_created") auto
  then show ?thesis
    using one_live_transaction_per_intent [OF s_run_created, of t t] by auto
qed

lemma s_performed_states:
  "map pt_state (transactions s_performed) = [Payme_PERFORMED]"
  "map pi_state (intents s_performed) = [Intent_PAID]"
  by code_simp+

text \<open>C4. A transaction that is no longer open is never written again: whatever happens in the rest of
  the run, its row is the same row, so the clocks an answer was rendered from stay what they were.\<close>

theorem finished_transactions_never_change:
  assumes "rail_run (d # past)" "d0 \<in> set past"
    and "t \<in> set (transactions d0)" "pt_state t \<noteq> Payme_CREATED"
  shows "t \<in> set (transactions d)"
proof -
  note past = rail_run_later [OF assms(1,2)]
  have "tx_at d (pt_id t) = Some t"
    using rail_later_finished past stored_tx assms(3,4) by blast
  then show ?thesis by (rule tx_at_Some [THEN conjunct1])
qed

theorem finished_transactions_witness:
  "\<exists>t. t \<in> set (transactions s_performed) \<and> pt_state t = Payme_PERFORMED \<and> t \<in> set (transactions s_cancelled)"
proof -
  obtain t where "transactions s_performed = [t]" "pt_state t = Payme_PERFORMED"
    using s_performed_states(1) by (cases "transactions s_performed") auto
  moreover obtain e where "rail_run [s_cancelled, s_second, e, s_performed, s_created, s_opened, empty_db]"
    using s_run_cancelled by blast
  ultimately show ?thesis
    using finished_transactions_never_change [of s_cancelled "[s_second, e, s_performed, s_created, s_opened, empty_db]" s_performed t]
    by auto
qed

text \<open>C5. A paid intent stays paid: the holder, the settlement instant and the note of who settled it are
  those of the settlement for the rest of the run.\<close>

theorem paid_intents_stay_paid:
  assumes "rail_run (d # past)" "d0 \<in> set past" "i \<in> set (intents d0)" "pi_state i = Intent_PAID"
  shows "\<exists>j \<in> set (intents d). pi_public_ref j = pi_public_ref i \<and> pi_state j = Intent_PAID
     \<and> pi_settled_at j = pi_settled_at i \<and> pi_settle_note j = pi_settle_note i
     \<and> pi_active_transaction_id j = pi_active_transaction_id i \<and> pi_amount_minor j = pi_amount_minor i"
proof -
  note past = rail_run_later [OF assms(1,2)]
  have "intent_by_id d0 (pi_id i) = Some i" using past stored_intent assms(3) by blast
  then obtain j where "intent_by_id d (pi_id i) = Some j" "intent_later i j"
    using past unfolding rail_later_def by blast
  then show ?thesis
    using assms(4) intent_by_id_Some by (auto simp: intent_later_def)
qed

theorem paid_intents_witness:
  "\<exists>i \<in> set (intents s_performed). \<exists>j \<in> set (intents s_cancelled). pi_state i = Intent_PAID
     \<and> pi_state j = Intent_PAID \<and> pi_settled_at j = pi_settled_at i"
proof -
  obtain i where i: "intents s_performed = [i]" "pi_state i = Intent_PAID"
    using s_performed_states(2) by (cases "intents s_performed") auto
  moreover obtain e where "rail_run [s_cancelled, s_second, e, s_performed, s_created, s_opened, empty_db]"
    using s_run_cancelled by blast
  ultimately show ?thesis
    using paid_intents_stay_paid [of s_cancelled "[s_second, e, s_performed, s_created, s_opened, empty_db]" s_performed i]
    by auto
qed

text \<open>C3. The books balance in every state of every run of the whole system (renders, refunds, sweeps,
  sales, erasures and the rail interleaved): the audit finds no drift, and no balance is negative.\<close>

theorem run_audit_is_clean:
  assumes "rail_run (d # past)"
  shows "verify_balances d = [] \<and> (\<forall>a \<in> set (accounts d). 0 \<le> ac_balance a)"
proof -
  have ok: "ledger_ok d" using system_okD(2) [OF rail_run_now [OF assms]] by (simp add: books_ok_def)
  then have "tables_ok d" by (simp add: ledger_ok_def)
  then show ?thesis
    using ok verify_balances_Nil [of d] by (simp add: ledger_ok_def tables_ok_def balance_not_negative_def)
qed

theorem run_audit_witness:
  "verify_balances s_performed = [] \<and> map ac_balance (accounts s_performed) = [1]"
proof -
  have "map ac_balance (accounts s_performed) = [1]" by code_simp
  then show ?thesis using run_audit_is_clean [OF s_run_performed] by simp
qed

section \<open>Performing credits once\<close>

lemma books_balance: "books_ok d \<Longrightarrow> balance_of d u = ledger_total d u"
  by (simp add: books_ok_def ledger_ok_balance)

lemma perform_sale_cases:
  assumes ok: "system_ok d" and op: "ledger_perform cfg pid p now d = (d', Inr v)"
    and t: "transaction_by_payme_id d p = Some t" and i: "intent_by_id d (pt_intent_id t) = Some i"
  obtains (replay) "d' = d" "pi_state i = Intent_PAID"
  | (sold) d2 i2 x where "ledger d2 = ledger d" "sale_of pid d2 i2 p now = Inr (x, d')"
      "pi_product i2 = pi_product i" "pi_telegram_user_id i2 = pi_telegram_user_id i"
      "pi_idempotency_key i2 = pi_idempotency_key i"
proof -
  note tables = system_ok_tables [OF ok] and rail = system_okD(1) [OF ok]
  have id: "tx_at d (pt_id t) = Some t" "pt_payme_transaction_id t = p"
    using tx_by_payme_id_at [OF tables t] by simp_all
  note body = op [unfolded ledger_perform_def run_guarded_def]
  consider (stored) "pt_state t = Payme_PERFORMED" "view_of d t = Inr (v, d')"
    | (settle) "pt_state t = Payme_CREATED" "settle_perform cfg pid d t now = Inr (v, d')"
    using body by (auto simp: t returning_eq_Inr split: if_splits sum.splits exn.splits)
  then show thesis
  proof cases
    case stored
    then have "d' = d" by (simp add: view_of_Inr)
    moreover have "pi_state i = Intent_PAID"
      using payme_okD(2) [OF rail id(1)] i stored(1) by (simp add: pair_ok_def)
    ultimately show thesis by (rule replay)
  next
    case settle
    from settle(2) tables show thesis
    proof (cases rule: settle_perform_cases)
      case (replay t')
      then show thesis using id t settle(1) by simp
    next
      case (settled d1 w d2 i2 x)
      note m = mark_performed_lookups [OF settled(1)]
      note c = update_intents_lookups [OF settled(2) [unfolded claim_intent_def], simplified]
      have "ledger d2 = ledger d" by (simp add: c m)
      then show thesis
        using settled(3,7) i id(2) by (intro sold [of d2 i2 x])
          (auto simp: c intents_lookups(1) [OF m(3)] split: if_splits)
    qed
  qed
qed

lemma perform_credits_balance:
  assumes ok: "system_ok d" and op: "ledger_perform cfg pid p now d = (d', Inr v)"
    and t: "transaction_by_payme_id d p = Some t" and i: "intent_by_id d (pt_intent_id t) = Some i"
    and single: "pi_product i = SINGLE" and uid: "pi_telegram_user_id i = Some uid"
  shows "balance_of d' u = balance_of d u
       + (if u = uid \<and> ledger_by_key d (pi_idempotency_key i) = None then topup_credits else 0)
     \<and> ledger_by_key d' (pi_idempotency_key i) \<noteq> None"
  using ok op t i
proof (cases rule: perform_sale_cases)
  case replay
  then have "ledger_by_key d (pi_idempotency_key i) \<noteq> None"
    using payme_okD(3) [OF system_okD(1) [OF ok] i] single uid by (simp add: paid_ok_def)
  with replay show ?thesis by auto
next
  case (sold d2 i2 x)
  then have sale: "write_sale pid d2 i2 uid p now = Inr (x, d')" "pi_product i2 = SINGLE"
    using single uid by (simp_all add: sale_of_def)
  have "ledger_total d' u = ledger_total d u
     + (if ledger_by_key d (pi_idempotency_key i) = None \<and> u = uid then topup_credits else 0)"
    using write_sale_single(3) [OF sale, of u] sold(1,5) by (simp add: ledger_total_def ledger_by_key_def)
  then show ?thesis
    using books_balance [OF system_okD(2) [OF ok], of u] write_sale_single(2) [OF sale] sold(5)
      books_balance [OF system_okD(2) [OF perform_good_step [OF ok op]], of u] by simp
qed

lemma perform_erased_balance:
  assumes ok: "system_ok d" and op: "ledger_perform cfg pid p now d = (d', Inr v)"
    and t: "transaction_by_payme_id d p = Some t" and i: "intent_by_id d (pt_intent_id t) = Some i"
    and erased: "pi_telegram_user_id i = None"
  shows "balance_of d' u = balance_of d u"
  using ok op t i
proof (cases rule: perform_sale_cases)
  case (sold d2 i2 x)
  then have "ledger d' = ledger d" using erased by (simp add: sale_of_def)
  then show ?thesis
    using books_balance [OF system_okD(2) [OF ok], of u]
      books_balance [OF system_okD(2) [OF perform_good_step [OF ok op]], of u] by (simp add: ledger_total_def)
qed simp


lemma not_isl_Inr: "\<not> isl r \<Longrightarrow> \<exists>v. r = Inr v"
  by (cases r) auto

lemma s_perform_ok: "\<not> isl (snd (ledger_perform s_cfg [21] [51] (s_t + 5000000) s_created))"
  by code_simp

lemma s_created_rows:
  "map_option pt_intent_id (transaction_by_payme_id s_created [51]) = Some [1]"
  "map_option (\<lambda>i. (pi_product i, pi_telegram_user_id i, pi_idempotency_key i)) (intent_by_id s_created [1])
     = Some (SINGLE, Some 7, [200])"
  "map_option cl_delta (ledger_by_key s_created [200]) = None"
  by code_simp+


end
