(* ===== verification/Wire_Claims.thy ===== *)
theory Wire_Claims
  imports Payme_Claims
begin

text \<open>
  The properties of the wire: what the rail is answered when it repeats, cancels or asks about a
  call in any later state of a run, the account ladder, the hold that decides a race, and the
  window after which a transaction is closed.
\<close>

section \<open>Replays\<close>

lemma run_pair:
  assumes "rail_run (e # past)" "d' = e \<or> d' \<in> set past"
  shows "system_ok e" "rail_later d' e"
  using rail_run_now [OF assms(1)] rail_run_later [OF assms(1), of d'] assms(2) by auto

text \<open>C6. Performing is answered once: when a PerformTransaction succeeded, the same request gets the very
  same body (the stored perform_time, not the new clock) in every later state of the run, whenever it
  comes, and changes nothing.\<close>

theorem perform_replay_is_identical:
  assumes "rail_run (d # past)"
    and "svc_perform (sql_payme_ledger cfg ids) field params rid now d = (d', body, queued)" "is_success body"
    and "rail_run (e # past')" "d' = e \<or> d' \<in> set past'"
  shows "svc_perform (sql_payme_ledger cfg ids') field params rid now' e = (e, body, queued)"
  by (rule sql_rail.svc_perform_replay [OF assms(2,3) rail_run_now [OF assms(1)] run_pair [OF assms(4,5)]])

definition s_params :: "nat \<Rightarrow> (pystr \<times> json) list" where
  "s_params k = [(ustr ''id'', JString [k])]"

lemma s_svc_perform:
  "is_success (fst (snd (svc_perform (sql_payme_ledger s_cfg ([9], [21])) [111] (s_params 51) 5 (s_t + 5000000) s_created)))"
  by code_simp

lemma s_svc_perform_db:
  "fst (svc_perform (sql_payme_ledger s_cfg ([9], [21])) [111] (s_params 51) 5 (s_t + 5000000) s_created) = s_performed"
  unfolding s_performed_def
  by (simp add: svc_perform_def s_params_def param_string_def sql_payme_ledger_def split: prod.splits sum.splits)

theorem perform_replay_witness:
  "svc_perform (sql_payme_ledger s_cfg ([9], [22])) [111] (s_params 51) 5 (s_t + 77000000) s_performed
     = (s_performed, snd (svc_perform (sql_payme_ledger s_cfg ([9], [21])) [111] (s_params 51) 5 (s_t + 5000000) s_created))"
proof -
  obtain body queued where c: "svc_perform (sql_payme_ledger s_cfg ([9], [21])) [111] (s_params 51) 5
      (s_t + 5000000) s_created = (s_performed, body, queued)"
    using s_svc_perform_db by (metis prod.collapse)
  then show ?thesis
    using perform_replay_is_identical [OF s_run_created c _ s_run_performed, of "([9], [22])" "s_t + 77000000"]
      s_svc_perform by simp
qed


lemma s_cancel_params: "svc_cancel (sql_payme_ledger s_cfg ids) [111] (s_params 51) 6 now s_created
    = (case ledger_cancel [51] 10 now s_created of (s, r) \<Rightarrow> (s, case r of Inl e \<Rightarrow> render_error [111] e 6
       | Inr v \<Rightarrow> render_success
              [(ustr ''transaction'', JString (tv_our_id v)),
               (ustr ''cancel_time'', JInt (wire_time (tv_cancel_time v))),
               (ustr ''state'', JInt (wire_state (tv_state v)))] (Some 6), []))"
  by (simp add: svc_cancel_def s_params_def param_string_def param_integer_def sql_payme_ledger_def
      split: prod.splits sum.splits)

lemma s_cancel_ok: "\<not> isl (snd (ledger_cancel [51] 10 (s_t + 1000000) s_created))"
  by code_simp


text \<open>C15. The status call agrees with the answer: after a successful PerformTransaction, every later
  CheckTransaction reports state 2 and the perform_time that was answered, which is never 0.\<close>

theorem check_agrees_with_perform:
  assumes "rail_run (d # past)"
    and "svc_perform (sql_payme_ledger cfg ids) field params rid now d = (d', body, queued)" "is_success body"
    and "rail_run (e # past')" "d' = e \<or> d' \<in> set past'"
  shows "\<exists>v. svc_check (sql_payme_ledger cfg ids') field params rid' e
        = (e, render_success (transaction_body v) (Some rid'), [])
     \<and> tv_state v = Payme_PERFORMED \<and> tv_perform_time v \<noteq> None
     \<and> body = render_success
              [(ustr ''transaction'', JString (tv_our_id v)),
               (ustr ''perform_time'', JInt (wire_time (tv_perform_time v))),
               (ustr ''state'', JInt (wire_state (tv_state v)))] (Some rid)"
  by (rule sql_rail.svc_check_after_perform [OF assms(2,3) rail_run_now [OF assms(1)] run_pair [OF assms(4,5)]])

theorem check_agrees_witness:
  "\<exists>v. svc_check (sql_payme_ledger s_cfg ([9], [21])) [111] (s_params 51) 8 s_performed
        = (s_performed, render_success (transaction_body v) (Some 8), []) \<and> tv_state v = Payme_PERFORMED"
proof -
  obtain body queued where c: "svc_perform (sql_payme_ledger s_cfg ([9], [21])) [111] (s_params 51) 5
      (s_t + 5000000) s_created = (s_performed, body, queued)"
    using s_svc_perform_db by (metis prod.collapse)
  then show ?thesis
    using check_agrees_with_perform [OF s_run_created c _ s_run_performed, of "([9], [21])" 8] s_svc_perform by auto
qed

text \<open>C13. A performed payment is never given back: every later CancelTransaction is refused with -31007 and
  writes nothing.\<close>

theorem performed_is_never_cancelled:
  assumes "rail_run (d # past)"
    and "svc_perform (sql_payme_ledger cfg ids) field params rid now d = (d', body, queued)" "is_success body"
    and "rail_run (e # past')" "d' = e \<or> d' \<in> set past'"
  shows "\<exists>m. svc_cancel (sql_payme_ledger cfg ids') field params rid' now' e
     = (e, render_fault (-31007) (Plain m) (Some rid') None, [])"
  using sql_rail.svc_cancel_after_perform [OF assms(2,3) rail_run_now [OF assms(1)] run_pair [OF assms(4,5)]]
  by simp

theorem performed_is_never_cancelled_witness:
  "\<exists>m. svc_cancel (sql_payme_ledger s_cfg ([9], [21])) [111] (s_params 51) 8 (s_t + 6000000) s_performed
     = (s_performed, render_fault (-31007) (Plain m) (Some 8) None, [])"
proof -
  obtain body queued where c: "svc_perform (sql_payme_ledger s_cfg ([9], [21])) [111] (s_params 51) 5
      (s_t + 5000000) s_created = (s_performed, body, queued)"
    using s_svc_perform_db by (metis prod.collapse)
  then show ?thesis
    using performed_is_never_cancelled [OF s_run_created c _ s_run_performed, of "([9], [21])" 8 "s_t + 6000000"]
      s_svc_perform by simp
qed

text \<open>C14. A cancelled transaction is never performed: every later PerformTransaction is refused with
  -31008 and writes nothing.\<close>

theorem cancelled_is_never_performed:
  assumes "rail_run (d # past)"
    and "svc_cancel (sql_payme_ledger cfg ids) field params rid now d = (d', body, queued)" "is_success body"
    and "rail_run (e # past')" "d' = e \<or> d' \<in> set past'"
  shows "\<exists>m. svc_perform (sql_payme_ledger cfg ids') field params rid' now' e
     = (e, render_fault (-31008) (Plain m) (Some rid') None, [])"
  using sql_rail.svc_perform_after_cancel [OF assms(2,3) rail_run_now [OF assms(1)] run_pair [OF assms(4,5)]]
  by simp

theorem cancelled_is_never_performed_witness:
  "\<exists>e m. svc_perform (sql_payme_ledger s_cfg ([9], [21])) [111] (s_params 51) 7 (s_t + 2000000) e
     = (e, render_fault (-31008) (Plain m) (Some 7) None, []) \<and> fst (ledger_cancel [51] 10 (s_t + 1000000) s_created) = e"
proof -
  obtain e v where c: "ledger_cancel [51] 10 (s_t + 1000000) s_created = (e, Inr v)"
    using not_isl_Inr [OF s_cancel_ok] by (metis prod.collapse)
  have run: "rail_run [e, s_created, s_opened, empty_db]"
    using rail_run.step [OF s_run_created rail_step.cancel [of "[s_created, s_opened, empty_db]" s_created "[51]" 10 "s_t + 1000000"]]
    by (simp add: c)
  show ?thesis
    using cancelled_is_never_performed [OF s_run_created s_cancel_params [of "([9], [21])" "s_t + 1000000", unfolded c prod.case sum.case] _ run,
        of "([9], [21])" 7 "s_t + 2000000"] c
    by auto
qed

section \<open>The clock of the wire\<close>

text \<open>C26. The rail's clock survives the two conversions: between November 2004 and January 2038 a moment
  put on the wire and read back is that moment cut to the millisecond, it is put on the wire as the
  same number again, and a number the rail sent is echoed unchanged.\<close>

theorem rail_clock_roundtrip:
  assumes "in_clock_window t"
  shows "to_ms t = t div 1000 \<and> from_ms (to_ms t) = Some (1000 * (t div 1000))
    \<and> map_option to_ms (from_ms (to_ms t)) = Some (to_ms t)"
proof -
  have lo: "1099511627776 \<le> t div 1000"
    using assms zdiv_mono1 [of clock_lo t 1000] by (simp add: in_clock_window_def clock_lo_def)
  have "1000 * (t div 1000) \<le> t" using div_mult_mod_eq [of t 1000] pos_mod_sign [of 1000 t] by linarith
  then have "in_clock_window (1000 * (t div 1000))"
    using assms lo unfolding in_clock_window_def clock_lo_def clock_hi_def by linarith
  then show ?thesis using assms by (simp add: to_ms_exact from_ms_exact)
qed

lemma rail_clock_witness: "to_ms 1790000000123456 = 1790000000123 \<and> from_ms 1790000000123 = Some 1790000000123000"
proof -
  have "in_clock_window 1790000000123456" by (simp add: in_clock_window_def clock_lo_def clock_hi_def)
  note clock = rail_clock_roundtrip [OF this]
  have t: "to_ms 1790000000123456 = 1790000000123" using conjunct1 [OF clock] by simp
  from conjunct1 [OF conjunct2 [OF clock], unfolded t] t show ?thesis by simp
qed

text \<open>Past the window the truncation of a double loses a millisecond.\<close>

lemma clock_loses_a_millisecond: "map_option to_ms (from_ms 2147483648002) = Some 2147483648001"
  by code_simp

end
