(* ===== verification/Create_Claims.thy ===== *)
theory Create_Claims
  imports Payme_Claims
begin

text \<open>
  The properties of creating a transaction: the ladder that decides it is the ladder the rail asked
  first, a repeated create answers the stored row, the hold refuses a second transaction even when
  it read before the first was written, and a transaction whose window has closed is cancelled
  before it is refused.
\<close>

section \<open>The ladder\<close>

lemma ledger_quote_result:
  "ledger_quote cfg ref amount now d = (d, map_sum id (\<lambda>_. ())
     (payable_intent_or_refuse cfg (intent_by_ref d ref) amount now))"
  by (cases "payable_intent_or_refuse cfg (intent_by_ref d ref) amount now")
    (simp_all add: ledger_quote_def raising_def run_guarded_def)

lemma payable_facts:
  "payable_intent_or_refuse cfg found amount now = Inr i \<Longrightarrow>
     found = Some i \<and> pi_telegram_user_id i \<noteq> None \<and> pi_merchant_id i = pc_merchant_id cfg
     \<and> pi_state i = Intent_PENDING \<and> now < pi_valid_until i \<and> pi_amount_minor i = amount"
  by (cases "case found of None \<Rightarrow> Intent_PENDING | Some j \<Rightarrow> pi_state j")
    (auto simp: payable_intent_or_refuse_def Let_def split: option.splits if_splits)

lemma opened_tx:
  assumes "insert_transaction d x p k ptime amount ctime now = Inr (True, d1)" "hold_intent d1 k' x' now' = (w, d')"
    and "transaction_by_payme_id d' p = Some t"
  shows "pt_state t = Payme_CREATED" "pt_intent_id t = k"
proof -
  note ins = insert_transaction_Inr [OF assms(1)]
  have "transaction_by_payme_id d' p = transaction_by_payme_id d1 p"
    by (rule update_intents_lookups(4) [OF assms(2) [unfolded hold_intent_def]]) simp
  then show "pt_state t = Payme_CREATED" "pt_intent_id t = k"
    using assms(3) ins(1,3) by (auto simp: transaction_by_payme_id_def select_one_append)
qed

lemma created_clocks:
  assumes "system_ok d" "transaction_by_payme_id d p = Some t" "pt_state t = Payme_CREATED"
  shows "pt_perform_time t = None \<and> pt_cancel_time t = None \<and> pt_cancel_reason t = None"
proof -
  have "tx_at d (pt_id t) = Some t"
    using tx_by_payme_id_at [OF system_ok_tables [OF assms(1)] assms(2)] by simp
  then obtain i where "pair_ok t i" using payme_okD(2) [OF system_okD(1) [OF assms(1)]] by blast
  then show ?thesis using assms(3) by (simp add: pair_ok_def)
qed

lemma open_transaction_opens:
  assumes ok: "system_ok d" and i: "intent_by_id d (pi_id row) = Some row" "pi_state row = Intent_PENDING"
    and fresh: "transaction_by_payme_id d p = None" "tx_at d x = None"
  shows "\<exists>d' v. open_transaction cfg x d row p ptime (pi_amount_minor row) now = Inr (v, d')"
proof -
  let ?new = "\<lparr>pt_id = x, pt_payme_transaction_id = p, pt_intent_id = pi_id row,
         pt_payme_time = ptime, pt_amount_minor = pi_amount_minor row, pt_state = Payme_CREATED,
         pt_cancel_reason = None, pt_create_time = now, pt_perform_time = None,
         pt_cancel_time = None, pt_created_at = now, pt_updated_at = now\<rparr>"
  let ?d1 = "d\<lparr>transactions := transactions d @ [?new]\<rparr>"
  have "0 \<le> pi_amount_minor row"
    using payme_okD(3) [OF system_okD(1) [OF ok] i(1)] by (simp add: intent_row_ok_def intent_checks_def)
  then have ins: "insert_transaction d x p (pi_id row) ptime (pi_amount_minor row) now now = Inr (True, ?d1)"
    using fresh
    by (auto simp: insert_transaction_def insert_or_ignore_def transaction_checks_def
        transaction_by_payme_id_def tx_at_def list_ex_iff select_one_None_iff)
  obtain w d2 where hold: "hold_intent ?d1 (pi_id row) x now = (w, d2)" by fastforce
  have "select_one pi_id (pi_id row) (intents d) = Some row" using i(1) by (simp add: intent_by_id_def)
  then have w
    using hold i(2) system_ok_tables [OF ok] rowcount_key [of pi_id "intents d" "pi_id row" "\<lambda>i. pi_state i = Intent_PENDING"]
    by (auto simp: hold_intent_def update_intents_def rail_tables_ok_def)
  moreover have "transaction_by_payme_id d2 p = Some ?new"
    using update_intents_lookups(5) [OF hold [unfolded hold_intent_def]] fresh(1)
    by (simp add: transaction_by_payme_id_def select_one_append)
  ultimately show ?thesis using ins hold by (simp add: open_transaction_def)
qed

text \<open>C8. One ladder and not two: for a transaction the ledger does not know yet, CreateTransaction
  succeeds exactly when CheckPerformTransaction does, and when it refuses it refuses with the same
  error and writes nothing.\<close>

theorem check_decides_create:
  assumes "rail_run (d # past)"
    and "transaction_by_payme_id d p = None" "x \<notin> pt_id ` set (transactions d)"
  shows "case snd (ledger_quote cfg ref amount now d) of
      Inr _ \<Rightarrow> (\<exists>d' v. ledger_create cfg x p ptime amount ref now d = (d', Inr v) \<and> tv_state v = Payme_CREATED)
    | Inl e \<Rightarrow> ledger_create cfg x p ptime amount ref now d = (d, Inl e)"
proof (cases "payable_intent_or_refuse cfg (intent_by_ref d ref) amount now")
  case (Inl e)
  then show ?thesis
    using assms(2) by (simp add: ledger_quote_result ledger_create_def run_guarded_def raising_def)
next
  case (Inr i)
  note ok = rail_run_now [OF assms(1)]
  have i: "intent_by_ref d ref = Some i" "pi_state i = Intent_PENDING" "pi_amount_minor i = amount"
    using payable_facts [OF Inr] by simp_all
  have "tx_at d x = None" using assms(3) by (simp add: tx_at_def select_one_None_notin)
  with ok i intent_by_ref_id [OF system_ok_tables [OF ok] i(1)] assms(2)
  obtain d' v where op: "open_transaction cfg x d i p ptime amount now = Inr (v, d')"
    using open_transaction_opens [OF ok, of i p x cfg ptime now] by auto
  have "tv_state v = Payme_CREATED"
    using op
  proof (cases rule: open_transaction_cases)
    case (opened d1)
    from opened(4) obtain t where t: "transaction_by_payme_id d' p = Some t" "v = transaction_view t (pi_public_ref i)"
      by blast
    from opened_tx(1) [OF opened(2,3) t(1)] show ?thesis by (simp add: t transaction_view_def)
  qed (use assms(2) in simp)
  then show ?thesis
    using assms(2) Inr op
    by (simp add: ledger_quote_result ledger_create_def run_guarded_def raising_def)
qed

lemma s_quote_ok: "\<not> isl (snd (ledger_quote s_cfg [101] 500000 s_t s_opened))"
  by code_simp

lemma s_opened_empty: "transactions s_opened = []"
proof -
  have "length (transactions s_opened) = 0" by code_simp
  then show ?thesis by simp
qed

lemma s_run_opened: "rail_run [s_opened, empty_db]"
  unfolding s_opened_def
  by (rule rail_run.step [OF rail_run.start rail_step.open_intent]) (simp add: s_request_def not_cover_short)

theorem check_decides_create_witness:
  "\<exists>d' v. ledger_create s_cfg [11] [51] s_t 500000 [101] s_t s_opened = (d', Inr v) \<and> tv_state v = Payme_CREATED"
proof -
  obtain u where "snd (ledger_quote s_cfg [101] 500000 s_t s_opened) = Inr u"
    using not_isl_Inr [OF s_quote_ok] by blast
  then show ?thesis
    using check_decides_create [OF s_run_opened, where p = "[51]" and x = "[11]" and cfg = s_cfg
        and ref = "[101]" and amount = 500000 and now = s_t and ptime = s_t]
    by (simp add: s_opened_empty transaction_by_payme_id_def)
qed

text \<open>C17. The price is the price the order was opened for: whenever the ladder passes, the amount is the
  intent's own, the buyer is not erased, the cashbox is the configured one and the window is open.\<close>

theorem payable_is_exact:
  "payable_intent_or_refuse cfg found amount now = Inr i \<longleftrightarrow>
     found = Some i \<and> pi_telegram_user_id i \<noteq> None \<and> pi_merchant_id i = pc_merchant_id cfg
     \<and> pi_state i = Intent_PENDING \<and> now < pi_valid_until i \<and> pi_amount_minor i = amount"
proof
  assume "found = Some i \<and> pi_telegram_user_id i \<noteq> None \<and> pi_merchant_id i = pc_merchant_id cfg
     \<and> pi_state i = Intent_PENDING \<and> now < pi_valid_until i \<and> pi_amount_minor i = amount"
  then show "payable_intent_or_refuse cfg found amount now = Inr i"
    by (simp add: payable_intent_or_refuse_def)
qed (rule payable_facts)

section \<open>The hold\<close>

text \<open>C10. The mutex: a create that passed the ladder on an old read is refused, and leaves nothing
  behind, when the intent has been taken, paid or closed by the time it writes.\<close>

theorem late_create_is_refused:
  assumes "rail_run (d # past)" "intent_by_id d (pi_id row) = Some i" "pi_state i \<noteq> Intent_PENDING"
    and "transaction_by_payme_id d p = None"
  shows "\<exists>e. run_guarded ''payme.create''
      (\<lambda>d. returning (open_transaction cfg x d row p ptime amount now)) d = (d, Inl e)"
proof (cases "open_transaction cfg x d row p ptime amount now")
  case (Inl e)
  then show ?thesis by (cases e) (simp_all add: run_guarded_def)
next
  case (Inr vd)
  obtain v d' where "open_transaction cfg x d row p ptime amount now = Inr (v, d')"
    using Inr by (cases vd) simp
  then show ?thesis
  proof (cases rule: open_transaction_cases)
    case (opened d1)
    note ins = insert_transaction_Inr [OF opened(2)]
    have "rail_tables_ok d1"
      using system_ok_tables [OF rail_run_now [OF assms(1)]] ins(1,2,3)
      by (auto simp: rail_tables_ok_def tx_at_def transaction_by_payme_id_def select_one_None_notin)
    then have "\<exists>j. intent_by_id d1 (pi_id row) = Some j \<and> pi_state j = Intent_PENDING"
      by (rule hold_intent_won [OF _ opened(3)])
    then show ?thesis using ins(3) assms(2,3) by (simp add: intent_by_id_def)
  qed (use assms(4) in simp)
qed

lemma s_created_intent: "map_option pi_state (intent_by_id s_created [1]) = Some Intent_AWAITING"
  "map_option pi_id (intent_by_id s_opened [1]) = Some [1]"
  "map_option pt_id (transaction_by_payme_id s_created [53]) = None"
  by code_simp+

theorem late_create_witness:
  "\<exists>row e. intent_by_id s_opened [1] = Some row \<and> run_guarded ''payme.create''
      (\<lambda>d. returning (open_transaction s_cfg [13] d row [53] s_t 500000 s_t)) s_created = (s_created, Inl e)"
proof -
  obtain row where row: "intent_by_id s_opened [1] = Some row" "pi_id row = [1]" using s_created_intent(2) by auto
  obtain i where i: "intent_by_id s_created [1] = Some i" "pi_state i = Intent_AWAITING"
    using s_created_intent(1) by auto
  have "transaction_by_payme_id s_created [53] = None" using s_created_intent(3) by simp
  then show ?thesis
    using late_create_is_refused [OF s_run_created, of row i "[53]" s_cfg "[13]" s_t 500000 s_t] row i by auto
qed

section \<open>Creating again\<close>

text \<open>C16. A create is answered once: after a successful CreateTransaction, a later create of the same
  transaction, while it is still open and inside its window, answers the stored row (the stored
  create_time, not the new clock) and writes nothing, whatever else it carries.\<close>

theorem create_replay_is_identical:
  assumes "rail_run (d # past)" and op: "ledger_create cfg x p ptime amount ref now d = (d', Inr v)"
    and "rail_run (e # past')" "d' = e \<or> d' \<in> set past'"
    and t: "transaction_by_payme_id e p = Some t" "pt_state t = Payme_CREATED"
    and open_window: "\<not> is_expired (pt_payme_time t) now' (pc_timeout_ms cfg)"
  shows "ledger_create cfg x' p ptime' amount' ref' now' e = (e, Inr v)"
proof -
  note ok = rail_run_now [OF assms(1)]
  have ok': "system_ok d'"
    using create_good [OF ok, of cfg x p ptime amount ref now] op by (simp add: good_step_def)
  have e: "system_ok e" "rail_later d' e"
    using rail_run_now [OF assms(3)] rail_run_later [OF assms(3), of d'] assms(4) by auto
  have "\<exists>t0 i. transaction_by_payme_id d' p = Some t0 \<and> pt_state t0 = Payme_CREATED
      \<and> intent_by_id d' (pt_intent_id t0) = Some i \<and> v = transaction_view t0 (pi_public_ref i)"
  proof (cases "transaction_by_payme_id d p")
    case (Some t1)
    then show ?thesis
      using op by (auto simp: ledger_create_def run_guarded_def returning_eq_Inr view_of_Inr
          split: if_splits sum.splits exn.splits)
  next
    case None
    from op None obtain i where i: "intent_by_ref d ref = Some i"
      and open_tx: "open_transaction cfg x d i p ptime amount now = Inr (v, d')"
      by (auto simp: ledger_create_def run_guarded_def returning_eq_Inr tx_then_eq_Inr raising_def
          dest!: payable_facts split: sum.splits exn.splits)
    from open_tx show ?thesis
    proof (cases rule: open_transaction_cases)
      case (opened d1)
      obtain t0 where t0: "transaction_by_payme_id d' p = Some t0" "v = transaction_view t0 (pi_public_ref i)"
        using opened(4) by blast
      then have "pt_state t0 = Payme_CREATED" "pt_intent_id t0 = pi_id i"
        using opened_tx [OF opened(2,3)] by simp_all
      moreover obtain j where "intent_by_id d' (pi_id i) = Some j" "pi_public_ref j = pi_public_ref i"
        using intent_by_ref_id [OF system_ok_tables [OF ok] i] rail_later_open_transaction [OF open_tx]
        unfolding rail_later_def intent_later_def by blast
      ultimately show ?thesis using t0 by auto
    qed (use None in simp)
  qed
  then obtain t0 i where t0: "transaction_by_payme_id d' p = Some t0" "pt_state t0 = Payme_CREATED"
    and i: "intent_by_id d' (pt_intent_id t0) = Some i" and v: "v = transaction_view t0 (pi_public_ref i)" by blast
  note at0 = tx_by_payme_id_at [OF system_ok_tables [OF ok'] t0(1)]
  note at = tx_by_payme_id_at [OF system_ok_tables [OF e(1)] t(1)]
  obtain t1 where t1: "tx_at e (pt_id t0) = Some t1" "tx_later t0 t1"
    using e(2) at0 unfolding rail_later_def by blast
  then have "transaction_by_payme_id e (pt_payme_transaction_id t1) = Some t1"
    using tx_at_by_payme_id [OF system_ok_tables [OF e(1)]] by blast
  then have "t1 = t" using t1 at0 t(1) by (auto simp: tx_later_def)
  note later = t1(2) [unfolded this tx_later_def]
  obtain j where j: "intent_by_id e (pt_intent_id t0) = Some j" "pi_public_ref j = pi_public_ref i"
    using e(2) i unfolding rail_later_def intent_later_def by blast
  have "transaction_view t (pi_public_ref j) = v"
    using created_clocks [OF ok' t0(1,2)] created_clocks [OF e(1) t] v later t0(2) t(2) j(2)
    by (simp add: transaction_view_def)
  moreover have "intent_by_id e (pt_intent_id t) = Some j" using j(1) later by simp
  ultimately show ?thesis
    using t open_window by (simp add: ledger_create_def run_guarded_def view_of_def)
qed

lemma s_create_ok: "\<not> isl (snd (ledger_create s_cfg [11] [51] s_t 500000 [101] s_t s_opened))"
  by code_simp

lemma s_created_row: "map_option (\<lambda>t. (pt_state t, pt_payme_time t)) (transaction_by_payme_id s_created [51])
    = Some (Payme_CREATED, s_t)"
  by code_simp

lemma s_window: "\<not> is_expired s_t (s_t + 60000000) (pc_timeout_ms s_cfg)"
  by code_simp

theorem create_replay_witness:
  "\<exists>v. ledger_create s_cfg [11] [51] s_t 500000 [101] s_t s_opened = (s_created, Inr v)
     \<and> ledger_create s_cfg [14] [51] s_t 500000 [101] (s_t + 60000000) s_created = (s_created, Inr v)"
proof -
  obtain v where c: "ledger_create s_cfg [11] [51] s_t 500000 [101] s_t s_opened = (s_created, Inr v)"
    using not_isl_Inr [OF s_create_ok] unfolding s_created_def by (metis prod.collapse)
  obtain t where t: "transaction_by_payme_id s_created [51] = Some t" "pt_state t = Payme_CREATED" "pt_payme_time t = s_t"
    using s_created_row by auto
  show ?thesis
    using create_replay_is_identical [OF s_run_opened c s_run_created _ t(1,2), of "s_t + 60000000" "[14]" s_t 500000 "[101]"]
      c t(3) s_window by auto
qed

section \<open>The window\<close>

lemma time_out_tx:
  "transaction_by_payme_id (time_out d t now) p = map_option (\<lambda>u. if pt_id u = pt_id t \<and> pt_state u = Payme_CREATED
      then u\<lparr>pt_state := Payme_CANCELLED, pt_cancel_reason := Some 4, pt_cancel_time := Some now,
             pt_updated_at := now\<rparr> else u) (transaction_by_payme_id d p)"
  "intent_by_id (time_out d t now) k = map_option (\<lambda>i. if pi_id i = pt_intent_id t \<and> pi_state i = Intent_AWAITING
      \<and> pi_active_transaction_id i = Some (pt_id t)
      then i\<lparr>pi_state := Intent_PENDING, pi_active_transaction_id := None, pi_updated_at := now\<rparr> else i)
      (intent_by_id d k)"
proof -
  obtain w d1 where m: "mark_cancelled d (pt_id t) now (reason_code Timeout) Payme_CREATED Payme_CANCELLED = (w, d1)"
    by fastforce
  obtain v d2 where r: "release_intent d1 (pt_intent_id t) (pt_id t) now = (v, d2)" by fastforce
  have d2: "time_out d t now = d2" by (simp add: time_out_def m r del: reason_code.simps)
  note rl = update_intents_lookups [OF r [unfolded release_intent_def], simplified]
  note ml = mark_cancelled_lookups [OF m, unfolded reason_code.simps]
  show "transaction_by_payme_id (time_out d t now) p = map_option (\<lambda>u. if pt_id u = pt_id t \<and> pt_state u = Payme_CREATED
      then u\<lparr>pt_state := Payme_CANCELLED, pt_cancel_reason := Some 4, pt_cancel_time := Some now,
             pt_updated_at := now\<rparr> else u) (transaction_by_payme_id d p)"
    by (simp add: d2 rl ml)
  show "intent_by_id (time_out d t now) k = map_option (\<lambda>i. if pi_id i = pt_intent_id t \<and> pi_state i = Intent_AWAITING
      \<and> pi_active_transaction_id i = Some (pt_id t)
      then i\<lparr>pi_state := Intent_PENDING, pi_active_transaction_id := None, pi_updated_at := now\<rparr> else i)
      (intent_by_id d k)"
    by (simp add: d2 rl intents_lookups(1) [OF ml(3)])
qed

text \<open>C11. Cancel first, refuse second: a create or a perform of an open transaction whose window has
  closed is refused with -31008, and what it commits is the transaction cancelled for reason 4 and its
  intent given back, so that the next payment can take it.\<close>

theorem closed_window_cancels_then_refuses:
  assumes "rail_run (d # past)"
    and t: "transaction_by_payme_id d p = Some t" "pt_state t = Payme_CREATED"
    and expired: "is_expired (pt_payme_time t) now (pc_timeout_ms cfg)"
  shows "\<exists>d' m1 m2 u i. ledger_create cfg x p ptime amount ref now d = (d', Inl (PaymeStateRefusal m1 (-31008)))
     \<and> ledger_perform cfg pid p now d = (d', Inl (PaymeStateRefusal m2 (-31008)))
     \<and> transaction_by_payme_id d' p = Some u \<and> pt_state u = Payme_CANCELLED
     \<and> pt_cancel_reason u = Some 4 \<and> pt_cancel_time u = Some now
     \<and> intent_by_id d' (pt_intent_id t) = Some i
     \<and> (pi_state i = Intent_PENDING \<and> pi_active_transaction_id i = None \<or> pi_state i = Intent_PAID)"
proof -
  note ok = rail_run_now [OF assms(1)]
  have at: "tx_at d (pt_id t) = Some t" using tx_by_payme_id_at [OF system_ok_tables [OF ok] t(1)] by simp
  obtain i where i: "intent_by_id d (pt_intent_id t) = Some i" "pair_ok t i"
    using payme_okD(2) [OF system_okD(1) [OF ok] at] by blast
  have ops: "ledger_create cfg x p ptime amount ref now d = (time_out d t now, Inl (PaymeStateRefusal
        ''a create arrived for a transaction whose twelve-hour window had already closed'' (-31008)))"
    "ledger_perform cfg pid p now d = (time_out d t now, Inl (PaymeStateRefusal
        ''a perform arrived for a transaction whose twelve-hour window had already closed'' (-31008)))"
    using t expired by (simp_all add: ledger_create_def ledger_perform_def run_guarded_def)
  define j where "j = (if pi_state i = Intent_AWAITING
      then i\<lparr>pi_state := Intent_PENDING, pi_active_transaction_id := None, pi_updated_at := now\<rparr> else i)"
  have "intent_by_id (time_out d t now) (pt_intent_id t) = Some j"
    using i t(2) intent_by_id_Some [OF i(1)] by (auto simp: time_out_tx pair_ok_def j_def)
  moreover have "pi_state j = Intent_PENDING \<and> pi_active_transaction_id j = None \<or> pi_state j = Intent_PAID"
    using i(2) t(2) by (auto simp: j_def pair_ok_def)
  ultimately show ?thesis
    using ops t by (intro exI [of _ "time_out d t now"] exI conjI) (auto simp: time_out_tx)
qed

lemma s_late: "is_expired s_t (s_t + 43200001000) (pc_timeout_ms s_cfg)"
  by code_simp

theorem closed_window_witness:
  "\<exists>d' m u. ledger_perform s_cfg [21] [51] (s_t + 43200001000) s_created = (d', Inl (PaymeStateRefusal m (-31008)))
     \<and> transaction_by_payme_id d' [51] = Some u \<and> pt_state u = Payme_CANCELLED \<and> pt_cancel_reason u = Some 4"
proof -
  obtain t where t: "transaction_by_payme_id s_created [51] = Some t" "pt_state t = Payme_CREATED" "pt_payme_time t = s_t"
    using s_created_row by auto
  show ?thesis
    using closed_window_cancels_then_refuses [OF s_run_created t(1,2), of "s_t + 43200001000" s_cfg "[14]" s_t 500000 "[101]" "[21]"]
      t(3) s_late by auto
qed

end
