(* ===== verification/Sale_Progress.thy ===== *)
theory Sale_Progress
  imports Fulfilment
begin

text \<open>
  The statements a sale is made of succeed on sound tables: nothing inside a settlement can make it
  fail once its intent is well formed.
\<close>

lemma insert_succeeds:
  "check row \<Longrightarrow> (\<And>r. r \<in> set rows \<Longrightarrow> \<not> clash row r) \<Longrightarrow>
     \<exists>w rows'. insert_or_ignore check arbiter clash row rows = Inr (w, rows')"
  by (auto simp: insert_or_ignore_def list_ex_iff)

lemma open_account_succeeds: "\<exists>w d'. open_account d uid now = Inr (w, d')"
  by (auto simp: open_account_def insert_or_ignore_def balance_not_negative_def split: sum.splits)

lemma write_entry_succeeds:
  "delta_matches_kind \<lparr>cl_telegram_user_id = Some uid, cl_kind = kind, cl_reason = reason,
        cl_delta = delta, cl_order_id = order, cl_generation = generation, cl_idempotency_key = key,
        cl_actor = take actor_length actor, cl_created_at = now\<rparr>
     \<Longrightarrow> \<exists>w d'. write_entry d uid kind reason delta key actor now order generation = Inr (w, d')"
  by (auto simp: write_entry_def insert_or_ignore_def split: sum.splits)

lemma account_exists_rowcount:
  assumes "tables_ok d" "account_exists d uid"
  shows "rowcount (\<lambda>a. ac_telegram_user_id a = uid) (accounts d) = 1"
  using assms by (auto simp: tables_ok_def account_exists_def account_row_def rowcount_key_only)

lemma add_credits_succeeds:
  assumes "tables_ok d" "account_exists d uid" "0 \<le> credits"
  shows "\<exists>d'. add_credits d uid credits lifetime now index = Inr ((), d')"
proof -
  have "\<not> list_ex (\<lambda>a. ac_telegram_user_id a = uid \<and> \<not> balance_not_negative
      (a\<lparr>ac_balance := ac_balance a + credits, ac_lifetime_granted := ac_lifetime_granted a + lifetime,
         ac_allowance_period_index := (case index of None \<Rightarrow> ac_allowance_period_index a | Some i \<Rightarrow> Some i),
         ac_updated_at := now\<rparr>)) (accounts d)"
    using assms(1,3) by (auto simp: list_ex_iff tables_ok_def balance_not_negative_def)
  then show ?thesis
    using account_exists_rowcount [OF assms(1,2)] by (simp add: add_credits_def update_accounts_def)
qed

lemma grant_succeeds:
  assumes ok: "tables_ok d" and n: "1 \<le> n"
  shows "\<exists>w d'. grant d uid n key actor now reason = Inr (w, d')"
proof -
  obtain o1 d1 where op: "open_account d uid now = Inr (o1, d1)" using open_account_succeeds by blast
  obtain w d2 where we: "write_entry d1 uid GRANT reason n key actor now None 0 = Inr (w, d2)"
    using write_entry_succeeds [of uid GRANT reason n None 0 key actor now d1] n by (auto simp: delta_matches_kind_def)
  have "tables_ok d2"
    using moved_tables_ok [OF write_entry_moved [OF we]] moved_tables_ok [OF open_account_Inr(1) [OF op]] ok by blast
  moreover have "account_exists d2 uid"
    using open_account_Inr(3) [OF op] write_entry_Inr(2,3) [OF we]
    by (cases w) (auto simp: account_exists_def account_row_def)
  ultimately obtain d3 where "add_credits d2 uid n n now None = Inr ((), d3)"
    using add_credits_succeeds n by (metis order_trans zero_le_one)
  then show ?thesis using n op we by (cases w) (auto simp: grant_def)
qed

lemma write_single_sale_succeeds:
  assumes ok: "tables_ok d" and "pu_is_paid p" "pu_product p = SINGLE" "0 \<le> pu_amount_minor p"
  shows "\<exists>d'. write_single_sale d uid p key now = Inr ((), d')"
proof -
  let ?row = "\<lparr>tp_telegram_user_id = Some uid, tp_product = TopupKind_SINGLE, tp_credits_granted = topup_credits,
         tp_amount_minor = pu_amount_minor p, tp_currency = pu_currency p, tp_provider = pu_provider p,
         tp_reference = pu_reference p, tp_idempotency_key = key, tp_created_at = now\<rparr>"
  obtain w rows where "insert_or_ignore topup_checks tp_idempotency_key no_clash ?row (topups d) = Inr (w, rows)"
    using insert_succeeds [of topup_checks ?row "topups d" no_clash tp_idempotency_key] assms(4)
    by (auto simp: topup_checks_def topup_credits_def no_clash_def)
  then obtain d1 where it: "insert_topup d uid TopupKind_SINGLE topup_credits (pu_amount_minor p) (pu_currency p)
       (pu_provider p) (pu_reference p) key now = Inr (w, d1)"
    by (simp add: insert_topup_def)
  have "tables_ok d1" by (rule moved_tables_ok [OF insert_topup_Inr(1) [OF it, of uid] ok])
  then obtain w' d2 where "grant d1 uid topup_credits key checkout_actor now TOPUP_PURCHASE = Inr (w', d2)"
    using grant_succeeds [of d1 topup_credits uid key checkout_actor now TOPUP_PURCHASE]
    by (auto simp: topup_credits_def)
  then show ?thesis
    using assms it by (simp add: write_single_sale_def refuse_an_unpaid_purchase_def refuse_a_product_that_is_not_a_topup_def)
qed

lemma write_plan_sale_succeeds:
  assumes "pu_is_paid p" "pu_product p = STARTER" "0 < songs" "plan_id \<notin> pp_id ` set (plans d)"
  shows "\<exists>row d'. write_plan_sale d plan_id uid p songs days key now = Inr (row, d')"
proof (cases "current_plan d uid now")
  case (Some running)
  then show ?thesis
    using assms by (simp add: write_plan_sale_def refuse_an_unpaid_purchase_def refuse_a_product_that_is_not_a_plan_def)
next
  case None
  let ?row = "\<lparr>pp_id = plan_id, pp_telegram_user_id = Some uid, pp_plan = PlanKind_STARTER,
         pp_songs_included = songs, pp_songs_used = 0, pp_amount_minor = pu_amount_minor p,
         pp_currency = pu_currency p, pp_provider = pu_provider p, pp_reference = pu_reference p,
         pp_idempotency_key = key, pp_plan_ends_at = now + days * us_per_day, pp_created_at = now,
         pp_updated_at = now\<rparr>"
  obtain w rows where
    "insert_or_ignore plan_checks pp_idempotency_key (\<lambda>r s. pp_id s = pp_id r) ?row (plans d) = Inr (w, rows)"
    using insert_succeeds [of plan_checks ?row "plans d" "\<lambda>r s. pp_id s = pp_id r" pp_idempotency_key] assms(3,4)
    by (auto simp: plan_checks_def)
  then obtain written d1 where it: "insert_plan d plan_id uid PlanKind_STARTER songs (pu_amount_minor p) (pu_currency p)
       (pu_provider p) (pu_reference p) key (now + days * us_per_day) now = Inr (written, d1)"
    by (simp add: insert_plan_def)
  then have "plan_by_key d1 key \<noteq> None"
    using insert_or_ignore_present by (fastforce simp: insert_plan_def plan_by_key_def split: sum.splits)
  then show ?thesis
    using assms None it
    by (auto simp: write_plan_sale_def refuse_an_unpaid_purchase_def refuse_a_product_that_is_not_a_plan_def)
qed

end
