(* ===== verification/Operator_Claims.thy ===== *)
theory Operator_Claims
  imports Payme_Claims Sale_Progress
begin

text \<open>
  The properties of settlement seen from the customer: an open transaction inside its window can
  always be performed, and an operator's forced settlement and the rail's late one are one sale.
\<close>

section \<open>An open transaction can be performed\<close>

text \<open>What an intent needs for its sale to be written: a plan needs songs and an id not yet used.\<close>

definition sellable :: "db \<Rightarrow> uuid \<Rightarrow> payment_intent_row \<Rightarrow> bool" where
  "sellable d plan_id i \<longleftrightarrow> pi_product i = STARTER \<longrightarrow>
     (case pi_plan_songs i of None \<Rightarrow> False | Some n \<Rightarrow> 0 < n) \<and> plan_id \<notin> pp_id ` set (plans d)"

lemma sale_of_succeeds:
  assumes "tables_ok d" "intent_checks i" "sellable d pid i"
  shows "\<exists>u d'. sale_of pid d i ref now = Inr (u, d')"
proof (cases "pi_telegram_user_id i")
  case None
  then show ?thesis by (simp add: sale_of_def)
next
  case (Some uid)
  let ?p = "\<lparr>pu_product = pi_product i, pu_provider = payme_provider_name, pu_reference = ref,
     pu_amount_minor = pi_amount_minor i, pu_currency = pi_currency i, pu_is_paid = True, pu_checkout_url = None\<rparr>"
  have amount: "0 \<le> pi_amount_minor i" using assms(2) by (simp add: intent_checks_def)
  show ?thesis
  proof (cases "pi_product i")
    case SINGLE
    then show ?thesis
      using Some write_single_sale_succeeds [OF assms(1), of ?p uid "pi_idempotency_key i" now] amount
      by (auto simp: sale_of_def write_sale_def)
  next
    case STARTER
    then obtain songs days where "pi_plan_songs i = Some songs" "0 < songs" "pi_plan_days i = Some days"
      "pid \<notin> pp_id ` set (plans d)"
      using assms(2,3) by (auto simp: intent_checks_def sellable_def split: option.splits)
    then show ?thesis
      using Some STARTER write_plan_sale_succeeds [of ?p songs pid d uid days "pi_idempotency_key i" now]
      by (auto simp: sale_of_def write_sale_def)
  qed
qed

text \<open>C9. The rail can always take the payment it was promised: a PerformTransaction of an open transaction
  inside its window, issued for this cashbox, succeeds and answers state 2 with the call's own clock,
  whether or not an operator settled the intent in between or its buyer has been erased.\<close>

theorem open_transaction_can_be_performed:
  assumes "rail_run (d # past)"
    and t: "transaction_by_payme_id d p = Some t" "pt_state t = Payme_CREATED"
    and i: "intent_by_id d (pt_intent_id t) = Some i" "pi_merchant_id i = pc_merchant_id cfg" "sellable d pid i"
    and window: "\<not> is_expired (pt_payme_time t) now (pc_timeout_ms cfg)"
  shows "\<exists>d' v. ledger_perform cfg pid p now d = (d', Inr v)
     \<and> tv_state v = Payme_PERFORMED \<and> tv_perform_time v = Some now"
proof -
  note ok = rail_run_now [OF assms(1)]
  note tables = system_ok_tables [OF ok] and rail = system_okD(1) [OF ok]
  have at: "tx_at d (pt_id t) = Some t" "pt_payme_transaction_id t = p"
    using tx_by_payme_id_at [OF tables t(1)] by simp_all
  have pair: "pair_ok t i" using payme_okD(2) [OF rail at(1)] i(1) by auto
  have row: "intent_row_ok i" using payme_okD(3) [OF rail i(1)] by simp
  have id: "pi_id i = pt_intent_id t" using intent_by_id_Some [OF i(1)] by simp
  obtain marked d1 where mark: "mark_performed d (pt_id t) now = (marked, d1)" by fastforce
  note m = mark_performed_lookups [OF mark]
  have marked
    using rowcount_key [of pt_id "transactions d" "pt_id t" "\<lambda>t. pt_state t = Payme_CREATED"] tables at(1) t(2) mark
    by (simp add: mark_performed_def update_transactions_def rail_tables_ok_def tx_at_def)
  obtain claimed d2 where claim: "claim_intent d1 (pi_id i) (pt_id t) now rail_settle_note = (claimed, d2)" by fastforce
  note c = update_intents_lookups [OF claim [unfolded claim_intent_def], simplified]
  define j where "j = (if pi_state i = Intent_AWAITING
      then i\<lparr>pi_state := Intent_PAID, pi_settled_at := Some now, pi_settle_note := Some rail_settle_note,
             pi_updated_at := now\<rparr> else i)"
  have j: "intent_by_id d2 (pt_intent_id t) = Some j" "pi_state j = Intent_PAID"
    "pi_active_transaction_id j = Some (pt_id t)"
    using i(1) pair t(2) id by (auto simp: c intents_lookups(1) [OF m(3)] j_def pair_ok_def)
  have sale_j: "sale_of pid e j ref at' = sale_of pid e i ref at'" for e ref at'
    by (simp add: j_def sale_of_paid)
  have money: "accounts d2 = accounts d" "ledger d2 = ledger d" by (simp_all add: c m)
  then have "tables_ok d2"
    using system_okD(2) [OF ok] by (simp add: books_ok_def ledger_ok_def tables_ok_def)
  moreover have "plans d2 = plans d"
    using mark claim by (auto simp: mark_performed_def update_transactions_def claim_intent_def update_intents_def)
  ultimately obtain u d3 where sale: "sale_of pid d2 i p now = Inr (u, d3)"
    using sale_of_succeeds [of d2 i pid p now] row i(3) by (auto simp: intent_row_ok_def sellable_def)
  note f = rail_frame_lookups [OF sale_of_facts(1) [OF sale]]
  have fresh: "transaction_by_payme_id d3 p = Some (t\<lparr>pt_state := Payme_PERFORMED, pt_perform_time := Some now,
      pt_updated_at := now\<rparr>)"
    using t by (simp add: f c m)
  have sale': "(case pi_telegram_user_id i of None \<Rightarrow> Inr ((), d2)
      | Some uid \<Rightarrow> write_sale pid d2 i uid (pt_payme_transaction_id t) now) = Inr (u, d3)"
    using sale unfolding sale_of_def at(2) .
  have "settle_perform cfg pid d t now = Inr (transaction_view (t\<lparr>pt_state := Payme_PERFORMED,
      pt_perform_time := Some now, pt_updated_at := now\<rparr>) (pi_public_ref i), d3)"
  proof (cases claimed)
    case True
    then show ?thesis
      using mark \<open>marked\<close> claim i at fresh sale' by (simp add: settle_perform_def intents_lookups(1) [OF m(3)])
  next
    case False
    have "sale_of pid d2 j (pt_payme_transaction_id t) now = Inr (u, d3)" using sale at by (simp add: sale_j)
    then have "(case pi_telegram_user_id j of None \<Rightarrow> Inr ((), d2)
        | Some uid \<Rightarrow> write_sale pid d2 j uid (pt_payme_transaction_id t) now) = Inr (u, d3)"
      by (simp add: sale_of_def)
    moreover have "pi_public_ref j = pi_public_ref i" by (simp add: j_def)
    ultimately show ?thesis
      using False mark \<open>marked\<close> claim i at fresh j
      by (simp add: settle_perform_def intents_lookups(1) [OF m(3)] already_settled_by_this_transaction_or_refuse_def raising_def)
  qed
  then show ?thesis
    using t window by (simp add: ledger_perform_def run_guarded_def transaction_view_def)
qed

lemma s_created_performable:
  "map_option (\<lambda>t. (pt_state t, pt_intent_id t, pt_payme_time t)) (transaction_by_payme_id s_created [51])
     = Some (Payme_CREATED, [1], s_t)"
  "map_option (\<lambda>i. (pi_merchant_id i, pi_product i)) (intent_by_id s_created [1]) = Some ([77], SINGLE)"
  "pc_merchant_id s_cfg = [77]" "is_expired s_t (s_t + 5000000) (pc_timeout_ms s_cfg) = False"
  by code_simp+

theorem open_transaction_can_be_performed_witness:
  "\<exists>d' v. ledger_perform s_cfg [21] [51] (s_t + 5000000) s_created = (d', Inr v) \<and> tv_state v = Payme_PERFORMED"
proof -
  obtain t where t: "transaction_by_payme_id s_created [51] = Some t" "pt_state t = Payme_CREATED"
    "pt_intent_id t = [1]" "pt_payme_time t = s_t" using s_created_performable(1) by auto
  obtain i where i: "intent_by_id s_created [1] = Some i" "pi_merchant_id i = [77]" "pi_product i = SINGLE"
    using s_created_performable(2) by auto
  show ?thesis
    using open_transaction_can_be_performed [OF s_run_created t(1,2), of i s_cfg "[21]" "s_t + 5000000"] t i
      s_created_performable(3,4) by (auto simp: sellable_def)
qed

section \<open>The operator and the rail\<close>

text \<open>C12. The recovery button and the rail's late call are one sale: after a forced settlement of a
  single-song intent the buyer's balance holds its credit, and a later PerformTransaction by anyone
  moves no balance, in whatever state of the run it comes.\<close>

theorem forced_settlement_is_the_sale:
  assumes "rail_run (d # past)" and force: "ledger_force_settle pid ref now note d = (d', Inr s)"
    and i: "intent_by_ref d ref = Some i" "pi_product i = SINGLE" "pi_telegram_user_id i = Some uid"
    and later: "rail_run (e # past')" "d' = e \<or> d' \<in> set past'"
    and t: "transaction_by_payme_id e p = Some t" "pt_intent_id t = pi_id i"
    and perform: "ledger_perform cfg pid' p now' e = (e', Inr v)"
  shows "balance_of d' u = balance_of d u + (if u = uid \<and> ledger_by_key d (pi_idempotency_key i) = None then topup_credits else 0)
     \<and> balance_of e' u = balance_of e u"
proof -
  note ok = rail_run_now [OF assms(1)]
  have ok': "system_ok d'" using force_settle_good [OF ok, of pid ref now "note"] force by (simp add: good_step_def)
  have e: "system_ok e" "rail_later d' e"
    using rail_run_now [OF later(1)] rail_run_later [OF later(1), of d'] later(2) by auto
  note at = intent_by_ref_id [OF system_ok_tables [OF ok] i(1)]
  have first: "balance_of d' u = balance_of d u + (if u = uid \<and> ledger_by_key d (pi_idempotency_key i) = None then topup_credits else 0)
     \<and> (\<exists>j. intent_by_id d' (pi_id i) = Some j \<and> pi_state j = Intent_PAID)"
    using force
  proof (cases rule: force_settle_cases)
    case (already j)
    then have "ledger_by_key d (pi_idempotency_key i) \<noteq> None"
      using payme_okD(3) [OF system_okD(1) [OF ok]] at i by (auto simp: paid_ok_def)
    then show ?thesis using already at i by auto
  next
    case (settled j uid' d1 x s')
    then have j: "j = i" "uid' = uid" using i by simp_all
    note claim = update_intents_lookups [OF settled(4) [unfolded claim_intent_for_operator_def], simplified]
    note sale = write_sale_single [OF settled(5) [unfolded j] i(2)]
    note frame = rail_frame_lookups [OF rail_frame_moved [OF sale(1)]]
    have "ledger_total d' u = ledger_total d u
        + (if ledger_by_key d (pi_idempotency_key i) = None \<and> u = uid then topup_credits else 0)"
      using sale(3) [of u] claim(6,9) by (simp add: ledger_total_def)
    moreover have "pi_state i = Intent_PENDING \<or> pi_state i = Intent_AWAITING"
      using claim_for_operator_won [OF system_ok_tables [OF ok] settled(4)] at j by auto
    then have "\<exists>j. intent_by_id d' (pi_id i) = Some j \<and> pi_state j = Intent_PAID"
      using at j by (simp add: frame claim)
    ultimately show ?thesis
      using books_balance [OF system_okD(2) [OF ok], of u] books_balance [OF system_okD(2) [OF ok'], of u] by simp
  qed
  then obtain j where j: "intent_by_id d' (pi_id i) = Some j" "pi_state j = Intent_PAID" by blast
  have key: "ledger_by_key d' (pi_idempotency_key i) \<noteq> None"
    using force
  proof (cases rule: force_settle_cases)
    case (already j')
    then show ?thesis
      using payme_okD(3) [OF system_okD(1) [OF ok]] at i by (auto simp: paid_ok_def)
  next
    case (settled j' uid' d1 x s')
    then show ?thesis using write_sale_single(2) [OF settled(5)] i by simp
  qed
  obtain k where k: "intent_by_id e (pi_id i) = Some k" "intent_later j k"
    using e(2) j unfolding rail_later_def by blast
  have later_i: "intent_later i j"
  proof -
    have "rail_later d d'" using force_settle_good [OF ok, of pid ref now "note"] force by (simp add: good_step_def)
    then show ?thesis using at j(1) unfolding rail_later_def by (metis option.inject)
  qed
  have paid_k: "pi_state k = Intent_PAID" "pi_product k = SINGLE" "pi_idempotency_key k = pi_idempotency_key i"
    using k(2) later_i j(2) i(2) by (auto simp: intent_later_def)
  have e': "system_ok e'" by (rule perform_good_step [OF e(1) perform])
  have "balance_of e' u = balance_of e u"
  proof (cases "pi_telegram_user_id k")
    case (Some w)
    then have "ledger_by_key e (pi_idempotency_key k) \<noteq> None"
      using payme_okD(3) [OF system_okD(1) [OF e(1)] k(1)] paid_k by (simp add: paid_ok_def)
    then show ?thesis
      using perform_credits_balance [OF e(1) perform t(1), of k w u] k(1) t(2) paid_k(2) Some by auto
  next
    case None
    then show ?thesis
      using perform_erased_balance [OF e(1) perform t(1), of k u] k(1) t(2) by simp
  qed
  then show ?thesis using first by simp
qed

definition s_forced :: db where
  "s_forced = fst (ledger_force_settle [31] [101] (s_t + 1000000) [111, 107] s_created)"

lemma s_force_ok: "\<not> isl (snd (ledger_force_settle [31] [101] (s_t + 1000000) [111, 107] s_created))"
  "\<not> isl (snd (ledger_perform s_cfg [21] [51] (s_t + 5000000) s_forced))"
  "map_option pt_intent_id (transaction_by_payme_id s_forced [51]) = Some [1]"
  "map_option (\<lambda>i. (pi_product i, pi_telegram_user_id i, pi_id i)) (intent_by_ref s_created [101]) = Some (SINGLE, Some 7, [1])"
  by code_simp+

theorem forced_settlement_witness:
  "\<exists>e' v. ledger_perform s_cfg [21] [51] (s_t + 5000000) s_forced = (e', Inr v) \<and> balance_of e' 7 = balance_of s_forced 7"
proof -
  obtain s where f: "ledger_force_settle [31] [101] (s_t + 1000000) [111, 107] s_created = (s_forced, Inr s)"
    using not_isl_Inr [OF s_force_ok(1)] unfolding s_forced_def by (metis prod.collapse)
  obtain e' v where q: "ledger_perform s_cfg [21] [51] (s_t + 5000000) s_forced = (e', Inr v)"
    using not_isl_Inr [OF s_force_ok(2)] by (metis prod.collapse)
  obtain t where t: "transaction_by_payme_id s_forced [51] = Some t" "pt_intent_id t = [1]" using s_force_ok(3) by auto
  obtain i where i: "intent_by_ref s_created [101] = Some i" "pi_product i = SINGLE" "pi_telegram_user_id i = Some 7"
    "pi_id i = [1]" using s_force_ok(4) by auto
  have run: "rail_run [s_forced, s_created, s_opened, empty_db]"
    unfolding s_forced_def by (rule rail_run.step [OF s_run_created rail_step.force])
  show ?thesis
    using forced_settlement_is_the_sale [OF s_run_created f i(1-3) run _ t(1) _ q] t i(4) q by auto
qed

text \<open>A forced settlement writes a receipt in a window in which no transaction was performed.\<close>

lemma forced_settlement_parts_the_counts:
  "(sc_transactions_performed (ledger_settlement_counts s_t (s_t + 3600000000) s_forced),
    sc_receipts_written (ledger_settlement_counts s_t (s_t + 3600000000) s_forced)) = (0, 1)"
  by code_simp

end
