(* ===== verification/Charge_Decides.thy ===== *)
theory Charge_Decides
  imports Credit_Store Sale_Progress
begin

text \<open>
  The balance a customer is shown against the charge that spends it: how each step of \<^verbatim>\<open>charge\<close> moves
  what \<^verbatim>\<open>read_balance\<close> adds up (the account, the allowance that is due and the songs left on a plan),
  and that each of them succeeds on tables that are in order.
\<close>

section \<open>What the shown balance is made of\<close>

definition due_allowance :: "db \<Rightarrow> int \<Rightarrow> instant \<Rightarrow> entitlement_policy \<Rightarrow> int" where
  "due_allowance d uid now policy =
     (if (case snd (account_state d uid) of None \<Rightarrow> True
            | Some m \<Rightarrow> m < period_index_for now (allowance_period_days policy))
         \<and> \<not> has_period_grant d uid (period_index_for now (allowance_period_days policy))
      then allowance_credits policy else 0)"

definition plan_songs :: "db \<Rightarrow> int \<Rightarrow> instant \<Rightarrow> int" where
  "plan_songs d uid now =
     (case live_plan d uid now of None \<Rightarrow> 0 | Some p \<Rightarrow> pp_songs_included p - pp_songs_used p)"

lemma read_balance_credits:
  "cb_credits (read_balance d uid now policy ex)
     = balance_of d uid + due_allowance d uid now policy + plan_songs d uid now"
  by (auto simp: read_balance_def due_allowance_def plan_songs_def balance_of_def Let_def
      split: prod.splits option.splits)

lemma read_balance_gates:
  "cb_is_blocked (read_balance d uid now policy ex) = is_blocked d uid"
  "cb_in_flight (read_balance d uid now policy ex)
     = count_in_flight d uid (now - settlement_grace_s policy * us_per_second) ex"
  by (auto simp: read_balance_def Let_def split: prod.splits option.splits)

lemma plan_songs_nonneg: "0 \<le> plan_songs d uid now"
  by (auto simp: plan_songs_def split: option.splits dest: live_plan_Some)

lemma balance_nonneg: "tables_ok d \<Longrightarrow> 0 \<le> balance_of d uid"
  by (auto simp: balance_of_def account_state_def account_row_def tables_ok_def balance_not_negative_def
      split: option.splits dest!: select_one_SomeD)

section \<open>Grants do not touch what gates a charge\<close>

lemma grows_is_settled:
  assumes "grows d d' P"
  shows "is_settled d' r = is_settled d r"
proof -
  from assms obtain new where new: "ledger d' = ledger d @ new" "\<forall>r \<in> set new. cl_kind r = GRANT"
    by (auto simp: grows_def)
  have "\<not> list_ex (\<lambda>s. cl_order_id s \<noteq> None \<and> cl_order_id s = cl_order_id r
        \<and> cl_generation s = cl_generation r \<and> cl_kind s \<in> set settling_kinds) new"
    using new(2) by (auto simp: list_ex_iff settling_kinds_def)
  then show ?thesis by (simp add: is_settled_def new(1))
qed

lemma grows_in_flight: "grows d d' P \<Longrightarrow> count_in_flight d' uid cutoff ex = count_in_flight d uid cutoff ex"
proof -
  assume g: "grows d d' P"
  then obtain new where new: "ledger d' = ledger d @ new" "\<forall>r \<in> set new. cl_kind r = GRANT"
    by (auto simp: grows_def)
  have "filter (\<lambda>r. cl_telegram_user_id r = Some uid \<and> cl_kind r = DEBIT \<and> cl_created_at r \<ge> cutoff
      \<and> \<not> is_settled d r \<and> (case ex of None \<Rightarrow> True
         | Some x \<Rightarrow> cl_order_id r \<noteq> None \<and> cl_order_id r \<noteq> Some x)) new = []"
    using new(2) by (simp add: filter_empty_conv)
  then show ?thesis
    by (simp add: count_in_flight_def rowcount_def grows_is_settled [OF g] new(1))
qed

section \<open>The steps\<close>

lemma add_credits_state:
  assumes ok: "tables_ok d" and ex: "account_exists d uid" and "0 \<le> credits"
  obtains d' where "add_credits d uid credits lifetime now index = Inr ((), d')"
    "account_state d' uid = (balance_of d uid + credits,
       case index of None \<Rightarrow> snd (account_state d uid) | Some i \<Rightarrow> Some i)"
    "account_exists d' uid" "tables_ok d'" "ledger d' = ledger d" "plans d' = plans d" "users d' = users d"
proof -
  from add_credits_succeeds [OF assms] obtain d' where
    a: "add_credits d uid credits lifetime now index = Inr ((), d')" by blast
  then have d': "d' = d\<lparr>accounts := sql_update (\<lambda>a. ac_telegram_user_id a = uid)
      (\<lambda>a. a\<lparr>ac_balance := ac_balance a + credits, ac_lifetime_granted := ac_lifetime_granted a + lifetime,
         ac_allowance_period_index := (case index of None \<Rightarrow> ac_allowance_period_index a | Some i \<Rightarrow> Some i),
         ac_updated_at := now\<rparr>) (accounts d)\<rparr>"
    by (auto simp: add_credits_def tx_then_eq_Inr split: if_splits dest: update_accounts_Inr(1))
  from ex obtain a where "account_row d uid = Some a" by (auto simp: account_exists_def)
  moreover from this have "ac_telegram_user_id a = uid" by (auto simp: account_row_def dest: select_one_SomeD)
  ultimately have st: "account_state d' uid = (balance_of d uid + credits,
       case index of None \<Rightarrow> snd (account_state d uid) | Some i \<Rightarrow> Some i)" and "account_exists d' uid"
    by (auto simp: d' account_state_def account_exists_def account_row_def balance_of_def
        select_one_update split: option.splits)
  then show thesis
    by (intro that [OF a st]) (use moved_tables_ok [OF add_credits_Inr(1) [OF a] ok] in \<open>simp_all add: d'\<close>)
qed

lemma open_account_state:
  obtains w d' where "open_account d uid now = Inr (w, d')" "account_state d' uid = account_state d uid"
    "account_exists d' uid" "ledger d' = ledger d" "plans d' = plans d" "users d' = users d"
    "tables_ok d \<Longrightarrow> tables_ok d'"
proof -
  from open_account_succeeds obtain w d' where op: "open_account d uid now = Inr (w, d')" by blast
  then have "account_state d' uid = account_state d uid" "users d' = users d"
    by (auto simp: open_account_def account_state_def account_row_def insert_or_ignore_def select_one_append
        split: sum.splits if_splits option.splits)
  then show thesis
    by (rule that [OF op _ open_account_Inr(3) [OF op] open_account_Inr(2) [OF op] open_account_Inr(4) [OF op]])
      (rule moved_tables_ok [OF open_account_Inr(1) [OF op]])
qed

lemma due_allowance_cong:
  "snd (account_state d' uid) = snd (account_state d uid) \<Longrightarrow> ledger d' = ledger d \<Longrightarrow>
     due_allowance d' uid now policy = due_allowance d uid now policy"
  by (simp add: due_allowance_def has_period_grant_def ledger_by_key_def)

lemma plan_songs_cong: "plans d' = plans d \<Longrightarrow> plan_songs d' uid now = plan_songs d uid now"
  by (simp add: plan_songs_def live_plan_def)

text \<open>Minting the allowance moves it from what is due into the account.\<close>

lemma mint_due_allowance_state:
  assumes ok: "tables_ok d" and ex: "account_exists d uid" and a: "0 \<le> allowance_credits policy"
  obtains m d' where "mint_due_allowance d uid now policy = Inr (m, d')"
    "balance_of d' uid = balance_of d uid + due_allowance d uid now policy"
    "due_allowance d' uid now policy = 0" "account_exists d' uid" "tables_ok d'"
    "plans d' = plans d" "users d' = users d"
proof -
  let ?i = "period_index_for now (allowance_period_days policy)"
  let ?old = "case snd (account_state d uid) of None \<Rightarrow> True | Some m \<Rightarrow> m < ?i"
  show thesis
  proof (cases "allowance_credits policy < 1 \<or> \<not> ?old")
    case True
    then have "mint_due_allowance d uid now policy = Inr (False, d)"
      by (auto simp: mint_due_allowance_def Let_def split: option.splits if_splits)
    moreover have "due_allowance d uid now policy = 0"
      using True a by (auto simp: due_allowance_def)
    ultimately show thesis by (intro that [of False d]) (use ok ex in simp_all)
  next
    case False
    let ?reason = "if snd (account_state d uid) = None then SIGNUP_ALLOWANCE else PERIOD_ALLOWANCE"
    obtain w d1 where we: "write_entry d uid GRANT ?reason (allowance_credits policy)
        (period_grant_key uid ?i) (ustr ''allowance'') now None 0 = Inr (w, d1)"
      using write_entry_succeeds [of uid GRANT ?reason "allowance_credits policy" None 0 "period_grant_key uid ?i"
          "ustr ''allowance''" now d] False by (auto simp: delta_matches_kind_def)
    have mint: "mint_due_allowance d uid now policy =
        (if \<not> w then Inr (False, d1)
         else tx_then (add_credits d1 uid (allowance_credits policy) (allowance_credits policy) now (Some ?i))
           (\<lambda>_ d. Inr (True, d)))"
      using False we by (auto simp: mint_due_allowance_def Let_def split: option.splits)
    show thesis
    proof (cases w)
      case no: False
      then have "d1 = d" "ledger_by_key d (period_grant_key uid ?i) \<noteq> None"
        using write_entry_Inr(1,2) [OF we] by simp_all
      then show thesis
        by (intro that [of False d]) (use no mint ok ex in \<open>simp_all add: due_allowance_def has_period_grant_def\<close>)
    next
      case yes: True
      note wr = write_entry_Inr(1,3) [OF we]
      have ok1: "tables_ok d1" by (rule moved_tables_ok [OF write_entry_moved [OF we] ok])
      have st1: "account_state d1 uid = account_state d uid" and ex1: "account_exists d1 uid"
        using wr yes ex by (simp_all add: account_state_def account_row_def account_exists_def)
      obtain d2 where ad: "add_credits d1 uid (allowance_credits policy) (allowance_credits policy) now (Some ?i) = Inr ((), d2)"
        and st: "account_state d2 uid = (balance_of d1 uid + allowance_credits policy, Some ?i)"
        and fr: "account_exists d2 uid" "tables_ok d2" "plans d2 = plans d1" "users d2 = users d1"
        by (rule add_credits_state [OF ok1 ex1 a, where lifetime = "allowance_credits policy" and now = now
              and index = "Some ?i"]) simp
      have "due_allowance d uid now policy = allowance_credits policy"
        using False wr(1) yes by (auto simp: due_allowance_def has_period_grant_def)
      then show thesis
        by (intro that [of True d2])
          (use mint yes ad st fr wr(2) st1 in \<open>simp_all add: balance_of_def due_allowance_def\<close>)
    qed
  qed
qed

text \<open>A song of a running plan becomes a credit, when its key is free.\<close>

lemma mint_plan_song_state:
  assumes ok: "tables_ok d" and ex: "account_exists d uid" and ids: "distinct (map pp_id (plans d))"
    and free: "\<And>p. live_plan d uid now = Some p \<Longrightarrow> ledger_by_key d (plan_grant_key (pp_id p) (pp_songs_used p)) = None"
  obtains m d' where "mint_plan_song d uid now actor server_now = Inr (m, d')"
    "balance_of d' uid = balance_of d uid + (if live_plan d uid now = None then 0 else 1)"
    "live_plan d uid now = None \<Longrightarrow> d' = d" "tables_ok d'" "account_exists d' uid"
proof (cases "live_plan d uid now")
  case None
  then show thesis using that [of False d] ok ex by (simp add: mint_plan_song_def)
next
  case (Some p)
  let ?c = "claim_plan_song d (pp_id p) (pp_songs_used p) server_now"
  obtain won d1 where cl: "?c = (won, d1)" by fastforce
  have p: "p \<in> set (plans d)" using live_plan_Some [OF Some] by simp
  have won: won using cl rowcount_key [OF ids, of "pp_id p" "\<lambda>r. pp_songs_used r = pp_songs_used p"]
    select_one_self [OF ids p] by (auto simp: claim_plan_song_def Let_def)
  have d1: "ledger d1 = ledger d" "accounts d1 = accounts d"
    using cl by (auto simp: claim_plan_song_def Let_def)
  have ok1: "tables_ok d1" by (rule moved_tables_ok [OF claim_plan_song_moved [OF cl] ok])
  obtain w d2 where we: "write_entry d1 uid GRANT PLAN_SONG 1 (plan_grant_key (pp_id p) (pp_songs_used p)) actor now None 0 = Inr (w, d2)"
    using write_entry_succeeds [of uid GRANT PLAN_SONG 1 None 0 "plan_grant_key (pp_id p) (pp_songs_used p)" actor now d1]
    by (auto simp: delta_matches_kind_def)
  have w: w using write_entry_Inr(1) [OF we] free [OF Some] by (simp add: ledger_by_key_def d1)
  note d2 = write_entry_Inr(3) [OF we w]
  have ok2: "tables_ok d2" by (rule moved_tables_ok [OF write_entry_moved [OF we] ok1])
  have ex2: "account_exists d2 uid" and b2: "balance_of d2 uid = balance_of d uid"
    using ex by (simp_all add: d2 account_exists_def account_row_def balance_of_def account_state_def d1)
  obtain d3 where ad: "add_credits d2 uid 1 1 now None = Inr ((), d3)"
    and st: "account_state d3 uid = (balance_of d2 uid + 1, snd (account_state d2 uid))"
    and fr: "tables_ok d3" "account_exists d3 uid"
    by (rule add_credits_state [OF ok2 ex2, where credits = 1 and lifetime = 1 and now = now and index = None]) simp_all
  show thesis
    by (rule that [of True d3]) (use Some cl won we w ad st fr b2 d1 d2 in
        \<open>simp_all add: mint_plan_song_def balance_of_def Let_def\<close>)
qed

lemma debit_balance_state:
  assumes ok: "tables_ok d" and ex: "account_exists d uid"
  obtains d' where "debit_balance d uid cost now = Inr (cost \<le> balance_of d uid, d')"
    "cost \<le> balance_of d uid \<longrightarrow> account_state d' uid = (balance_of d uid - cost, snd (account_state d uid))"
    "ledger d' = ledger d" "plans d' = plans d"
proof -
  from ex obtain a where a: "account_row d uid = Some a" by (auto simp: account_exists_def)
  then have uid: "ac_telegram_user_id a = uid" by (auto simp: account_row_def dest: select_one_SomeD)
  have b: "balance_of d uid = ac_balance a" using a by (simp add: balance_of_def account_state_def)
  let ?p = "\<lambda>a. ac_telegram_user_id a = uid \<and> ac_balance a \<ge> cost"
  let ?f = "\<lambda>a. a\<lparr>ac_balance := ac_balance a - cost, ac_updated_at := now\<rparr>"
  have "rowcount ?p (accounts d) = 1 \<longleftrightarrow> cost \<le> balance_of d uid"
    using ok a by (simp add: tables_ok_def rowcount_key b account_row_def)
  moreover have "\<not> list_ex (\<lambda>a. ?p a \<and> \<not> balance_not_negative (?f a)) (accounts d)"
    by (auto simp: list_ex_iff balance_not_negative_def)
  ultimately have "debit_balance d uid cost now =
      Inr (cost \<le> balance_of d uid, d\<lparr>accounts := sql_update ?p ?f (accounts d)\<rparr>)"
    by (simp add: debit_balance_def update_accounts_def)
  then show thesis
    by (rule that) (use a uid b in \<open>simp_all add: account_state_def account_row_def select_one_update\<close>)
qed

end
