(* ===== verification/Credit_Claims.thy ===== *)
theory Credit_Claims
  imports Charge_Decides
begin

text \<open>
  What the credit ledger promises: the balance a customer is shown decides whether a render is
  sold, a failed render is paid back once, and erasing an account leaves the books of everybody
  else as they were.
\<close>

section \<open>The shown balance decides\<close>

lemma charge_shown:
  assumes ok: "tables_ok d" and a: "0 \<le> allowance_credits policy" and free: "\<not> is_blocked d uid"
    and net: "net_position d order = 0"
    and flight: "count_in_flight d uid (now - settlement_grace_s policy * us_per_second) (Some order)
      < max_orders_in_flight policy"
    and key: "ledger_by_key d (debit_key order (generation_for d order)) = None"
    and ids: "distinct (map pp_id (plans d))"
    and song: "\<And>p. live_plan d uid now = Some p \<Longrightarrow> ledger_by_key d (plan_grant_key (pp_id p) (pp_songs_used p)) = None"
  obtains e state where "cb_telegram_user_id state = uid"
    "cb_credits state = cb_credits (read_balance d uid now policy (Some order))"
    "charge d uid order actor now default_cost policy server_now
       = pay_for_render e state order (generation_for d order) default_cost now policy"
    "tables_ok e" "account_exists e uid"
    "balance_of e uid = balance_of d uid + due_allowance d uid now policy
       + (if live_plan d uid now = None then 0 else 1)"
    "live_plan d uid now = None \<longrightarrow> due_allowance e uid now policy = 0 \<and> plans e = plans d"
proof -
  obtain w d1 where op: "open_account d uid now = Inr (w, d1)" and s1: "account_state d1 uid = account_state d uid"
    and ex1: "account_exists d1 uid" and f1: "ledger d1 = ledger d" "plans d1 = plans d" "users d1 = users d"
    and ok1: "tables_ok d1"
    by (rule open_account_state [of d uid now]) (use ok in blast)
  obtain m d2 where mi: "mint_due_allowance d1 uid now policy = Inr (m, d2)"
    and b2: "balance_of d2 uid = balance_of d1 uid + due_allowance d1 uid now policy"
    and due2: "due_allowance d2 uid now policy = 0" and ex2: "account_exists d2 uid" and ok2: "tables_ok d2"
    and f2: "plans d2 = plans d1" "users d2 = users d1"
    by (rule mint_due_allowance_state [OF ok1 ex1 a, where now = now])
  have g1: "grows d d1 P" for P by (rule grows_same [OF f1(1)])
  have g: "grows d d2 (\<lambda>k. \<not> is_cover_key k)"
    by (rule grows_trans [OF g1 mint_due_allowance_grows [OF mi]])
  have b2': "balance_of d2 uid = balance_of d uid + due_allowance d uid now policy"
    using b2 s1 due_allowance_cong [OF arg_cong [OF s1, of snd] f1(1)] by (simp add: balance_of_def)
  let ?state = "read_balance d2 uid now policy (Some order)"
  have shown: "cb_credits ?state = cb_credits (read_balance d uid now policy (Some order))"
    using b2' due2 f1(2) f2(1) by (simp add: read_balance_credits plan_songs_cong [of d2 d])
  have live: "live_plan d2 uid now = live_plan d uid now" by (simp add: live_plan_def f1 f2)
  have c1: "charge d uid order actor now default_cost policy server_now
      = charge_unpaid d2 ?state uid order actor now default_cost policy server_now"
    using op mi free f1(3) f2(2) net grows_net [OF g, of order]
    by (simp add: charge_def default_cost_def Let_def refuse_a_blocked_account_def read_balance_gates is_blocked_def)
  have added: "grows d d2 (\<lambda>k. take 12 k = ustr ''grant:period'')"
    by (rule grows_trans [OF g1 mint_due_allowance_adds [OF mi]]) (simp add: period_grant_key_def)
  have songs: "ledger_by_key d2 (plan_grant_key (pp_id p) (pp_songs_used p)) = None"
    if "live_plan d2 uid now = Some p" for p
  proof -
    have "take 12 (plan_grant_key (pp_id p) (pp_songs_used p)) \<noteq> ustr ''grant:period''"
      by (simp add: plan_grant_key_def)
    then show ?thesis using grows_key [OF added] song [of p] that live by metis
  qed
  obtain n d3 where ms: "mint_plan_song d2 uid now actor server_now = Inr (n, d3)"
    and b3: "balance_of d3 uid = balance_of d2 uid + (if live_plan d2 uid now = None then 0 else 1)"
    and same: "live_plan d2 uid now = None \<Longrightarrow> d3 = d2" and ok3: "tables_ok d3"
    and ex3: "account_exists d3 uid"
    by (rule mint_plan_song_state [OF ok2 ex2 _ songs, where actor = actor and server_now = server_now])
      (use ids f1 f2 in auto)
  have g3: "grows d d3 (\<lambda>k. take 6 k = ustr ''grant:'')"
    by (rule grows_trans [OF grows_trans [OF g1 mint_due_allowance_adds [OF mi]] mint_plan_song_adds [OF ms]])
      (simp_all add: period_grant_key_def plan_grant_key_def)
  have k3: "ledger_by_key d3 (debit_key order (generation_for d order)) = None"
    using grows_key [OF g3, of "debit_key order (generation_for d order)"] key by (fastforce simp: debit_key_def)
  obtain w e where wd: "write_debit d3 uid order (generation_for d order) default_cost actor now = Inr (w, e)"
    using write_entry_succeeds [of uid DEBIT ORDER_RENDER "- default_cost" "Some order" "generation_for d order"
        "debit_key order (generation_for d order)" actor now d3]
    by (auto simp: write_debit_def delta_matches_kind_def default_cost_def)
  note we = wd [unfolded write_debit_def]
  have w: w using write_entry_Inr(1) [OF we] k3 by simp
  note e = write_entry_Inr(3) [OF we w]
  show thesis
  proof (rule that [of ?state e])
    show "charge d uid order actor now default_cost policy server_now
       = pay_for_render e ?state order (generation_for d order) default_cost now policy"
      using c1 flight grows_in_flight [OF g] ms wd w grows_generation [OF g3, of order]
      by (simp add: charge_unpaid_def refuse_a_stacked_account_def read_balance_gates)
    show "tables_ok e" by (rule moved_tables_ok [OF write_entry_moved [OF we] ok3])
    have st: "account_state e v = account_state d3 v" for v by (simp add: e account_state_def account_row_def)
    show "account_exists e uid" using ex3 by (simp add: e account_exists_def account_row_def)
    show "balance_of e uid = balance_of d uid + due_allowance d uid now policy
       + (if live_plan d uid now = None then 0 else 1)"
      using st b3 b2' live by (simp add: balance_of_def)
    have pe: "plans e = plans d3" by (simp add: e)
    have "live_plan d uid now = None \<Longrightarrow> d3 = d2" using same live by simp
    moreover have "due_allowance e uid now policy = due_allowance d3 uid now policy"
      using st write_entry_by_key [OF we, of "period_grant_key uid (period_index_for now (allowance_period_days policy))"]
      by (auto simp: due_allowance_def has_period_grant_def period_grant_key_def debit_key_def)
    ultimately show "live_plan d uid now = None \<longrightarrow> due_allowance e uid now policy = 0 \<and> plans e = plans d"
      using due2 f1(2) f2(1) pe by metis
  qed (use shown in simp_all)
qed

text \<open>C18. The balance a customer is shown is the balance that decides: on an enforced account that is neither
  blocked nor at its limit of renders in flight, a render at the default price is charged exactly when
  the shown balance holds a credit, and without a plan the shown balance drops by that one credit;
  otherwise the refusal names the shown balance and the next window, and nothing is written.\<close>

theorem shown_balance_decides_the_charge:
  assumes "credit_reachable d" "is_balance_enforced policy" "0 \<le> allowance_credits policy"
    and "\<not> is_blocked d uid" "net_position d order = 0"
    and "count_in_flight d uid (now - settlement_grace_s policy * us_per_second) (Some order)
      < max_orders_in_flight policy"
    and "ledger_by_key d (debit_key order (generation_for d order)) = None"
    and "distinct (map pp_id (plans d))"
    and "\<And>p. live_plan d uid now = Some p \<Longrightarrow> ledger_by_key d (plan_grant_key (pp_id p) (pp_songs_used p)) = None"
    and shown: "shown = cb_credits (store_balance_for policy uid (Some order) now d)"
  shows "if 1 \<le> shown
    then \<exists>d' s. store_charge policy uid order actor now server_now default_cost d = (d', Inr (CHARGED, s))
      \<and> (live_plan d uid now = None \<longrightarrow> cb_credits s = shown - 1)
    else store_charge policy uid order actor now server_now default_cost d
      = (d, Inl (InsufficientCreditsError shown 1
          (period_start (period_index_for now (allowance_period_days policy) + 1) (allowance_period_days policy))))"
proof -
  have ok: "tables_ok d" using credit_reachable_books_ok [OF assms(1)] by (simp add: books_ok_def ledger_ok_def)
  obtain e state where st: "cb_telegram_user_id state = uid"
    and sh: "cb_credits state = cb_credits (read_balance d uid now policy (Some order))"
    and ch: "charge d uid order actor now default_cost policy server_now
       = pay_for_render e state order (generation_for d order) default_cost now policy"
    and oke: "tables_ok e" and ex: "account_exists e uid"
    and bal: "balance_of e uid = balance_of d uid + due_allowance d uid now policy
       + (if live_plan d uid now = None then 0 else 1)"
    and none: "live_plan d uid now = None \<longrightarrow> due_allowance e uid now policy = 0 \<and> plans e = plans d"
    by (rule charge_shown [OF ok assms(3-9), where actor = actor and server_now = server_now])
  obtain f where db: "debit_balance e uid default_cost now = Inr (default_cost \<le> balance_of e uid, f)"
    and fs: "default_cost \<le> balance_of e uid \<longrightarrow>
      account_state f uid = (balance_of e uid - default_cost, snd (account_state e uid))"
    and fl: "ledger f = ledger e" and fp: "plans f = plans e"
    by (rule debit_balance_state [OF oke ex, where cost = default_cost and now = now])
  have songs: "plan_songs d uid now = 0 \<longleftrightarrow> live_plan d uid now = None"
    by (auto simp: plan_songs_def split: option.splits dest: live_plan_Some)
  have parts: "shown = balance_of d uid + due_allowance d uid now policy + plan_songs d uid now"
    by (simp add: shown store_balance_for_def read_balance_credits)
  have "0 \<le> due_allowance d uid now policy" using assms(3) by (simp add: due_allowance_def)
  then have iff: "default_cost \<le> balance_of e uid \<longleftrightarrow> 1 \<le> shown"
    using parts bal balance_nonneg [OF ok, of uid] plan_songs_nonneg [of d uid now] songs
    by (auto simp: default_cost_def)
  show ?thesis
  proof (cases "1 \<le> shown")
    case True
    with db iff st have paid: "charge d uid order actor now default_cost policy server_now
        = Inr ((CHARGED, snapshot f state now policy), f)"
      by (simp add: ch pay_for_render_def)
    have "cb_credits (snapshot f state now policy) = shown - 1" if l: "live_plan d uid now = None"
    proof -
      have f: "account_state f uid = (balance_of e uid - default_cost, snd (account_state e uid))"
        using fs True iff by blast
      have "due_allowance f uid now policy = 0"
        using due_allowance_cong [of f uid e now policy] f fl none l by simp
      moreover have "plan_songs f uid now = 0"
        using plan_songs_cong [of f d uid now] fp none l by (simp add: plan_songs_def)
      moreover have "balance_of f uid = shown - 1"
        using f parts bal l by (simp add: balance_of_def default_cost_def plan_songs_def)
      ultimately show ?thesis by (simp add: snapshot_def read_balance_credits st)
    qed
    with paid True show ?thesis by (simp add: store_charge_def run_guarded_def)
  next
    case False
    with db iff st assms(2) have "charge d uid order actor now default_cost policy server_now
        = Inl (Raised (insufficient_credits state default_cost now policy))"
      by (simp add: ch pay_for_render_def)
    moreover have "insufficient_credits state default_cost now policy = InsufficientCreditsError shown 1
        (period_start (period_index_for now (allowance_period_days policy) + 1) (allowance_period_days policy))"
      by (simp add: insufficient_credits_def sh shown store_balance_for_def default_cost_def)
    ultimately show ?thesis using False by (simp add: store_charge_def run_guarded_def)
  qed
qed

lemma shown_balance_witness:
  "\<exists>d' s. store_charge default_entitlement_policy 7 (ustr ''o1'') (ustr ''bot'') 0 0 default_cost empty_db
     = (d', Inr (CHARGED, s)) \<and> cb_credits s = 2"
proof -
  have "live_plan empty_db 7 0 = None" "cb_credits (store_balance_for default_entitlement_policy 7 (Some (ustr ''o1'')) 0 empty_db) = 3"
    by code_simp+
  moreover have "\<not> is_blocked empty_db 7" "net_position empty_db (ustr ''o1'') = 0"
    "count_in_flight empty_db 7 (0 - settlement_grace_s default_entitlement_policy * us_per_second) (Some (ustr ''o1''))
      < max_orders_in_flight default_entitlement_policy"
    "ledger_by_key empty_db (debit_key (ustr ''o1'') (generation_for empty_db (ustr ''o1''))) = None"
    "is_balance_enforced default_entitlement_policy" "0 \<le> allowance_credits default_entitlement_policy"
    "distinct (map pp_id (plans empty_db))"
    by code_simp+
  ultimately show ?thesis
    using shown_balance_decides_the_charge [of empty_db default_entitlement_policy 7 "ustr ''o1''" 0 3 "ustr ''bot''" 0]
      credit_reachable.start by auto
qed

section \<open>A failed render is paid back once\<close>

lemma settled_order_stays: "net_position d order = 0 \<Longrightarrow> store_settle uid order outcome actor now d = (d, Inr False)"
  by (cases outcome) (simp_all add: store_settle_def run_guarded_def refund_def consume_def)

text \<open>C19. A failed render is paid back once: the account gets exactly what the order holds, nobody else's
  balance moves, the order holds nothing afterwards, and no later settlement of it, by anyone and with
  whatever outcome, writes anything.\<close>

theorem failed_render_is_refunded_once:
  assumes reach: "credit_reachable d" and held: "net_position d order < 0" and ex: "account_exists d uid"
    and key: "ledger_by_key d (refund_key order (generation_for d order)) = None"
  shows "\<exists>d'. store_settle uid order Outcome_FAILED actor now d = (d', Inr True)
    \<and> balance_of d' uid = balance_of d uid - net_position d order
    \<and> (\<forall>v. v \<noteq> uid \<longrightarrow> balance_of d' v = balance_of d v)
    \<and> net_position d' order = 0
    \<and> (\<forall>uid' outcome actor' now'. store_settle uid' order outcome actor' now' d' = (d', Inr False))"
proof -
  have books: "books_ok d" by (rule credit_reachable_books_ok [OF reach])
  then have lok: "ledger_ok d" and tok: "tables_ok d" by (simp_all add: books_ok_def ledger_ok_def)
  let ?n = "generation_for d order"
  obtain w d1 where we: "write_entry d uid REFUND ORDER_FAILED (- net_position d order) (refund_key order ?n)
      actor now (Some order) ?n = Inr (w, d1)"
    using write_entry_succeeds [of uid REFUND ORDER_FAILED "- net_position d order" "Some order" ?n
        "refund_key order ?n" actor now d] held by (auto simp: delta_matches_kind_def)
  then have w: w using key write_entry_Inr(1) by blast
  have "account_exists d1 uid" "tables_ok d1"
    using write_entry_Inr(3) [OF we w] ex moved_tables_ok [OF write_entry_moved [OF we] tok]
    by (simp_all add: account_exists_def account_row_def)
  then obtain d2 where ad: "add_credits d1 uid (- net_position d order) 0 now None = Inr ((), d2)"
    using add_credits_succeeds [of d1 uid "- net_position d order" 0 now None] held by auto
  have r: "refund d uid order ORDER_FAILED actor now = Inr (True, d2)"
    using held ex we w ad by (simp add: refund_def Let_def)
  then have m: "moved d d2 uid 0" and z: "net_position d2 order = 0"
    and t: "ledger_total d2 uid = ledger_total d uid - net_position d order"
    by (rule refund_cases; simp)+
  have "balance_of d2 uid = balance_of d uid - net_position d order"
    using ledger_ok_balance [OF lok] ledger_ok_balance [OF moved_ledger_ok [OF m lok]] t by simp
  moreover have "store_settle uid order Outcome_FAILED actor now d = (d2, Inr True)"
    using r by (simp add: store_settle_def run_guarded_def)
  ultimately show ?thesis using moved_other [OF m] z settled_order_stays [OF z] by blast
qed

definition s_charged :: db where
  "s_charged = fst (store_charge default_entitlement_policy 7 (ustr ''o1'') (ustr ''bot'') 0 0 1 empty_db)"

lemma s_charged_reachable: "credit_reachable s_charged"
  unfolding s_charged_def by (rule credit_reachable.step [OF credit_reachable.start credit_step.charge])

lemma failed_render_witness:
  "balance_of s_charged 7 = 2 \<and> (\<exists>d'. store_settle 7 (ustr ''o1'') Outcome_FAILED (ustr ''bot'') 5 s_charged = (d', Inr True)
     \<and> balance_of d' 7 = 3)"
proof -
  have "balance_of s_charged 7 = 2" "net_position s_charged (ustr ''o1'') = -1" "account_exists s_charged 7"
    "ledger_by_key s_charged (refund_key (ustr ''o1'') (generation_for s_charged (ustr ''o1''))) = None"
    by code_simp+
  then show ?thesis
    using failed_render_is_refunded_once [OF s_charged_reachable, of "ustr ''o1''" 7 "ustr ''bot''" 5] by auto
qed

text \<open>A delivered render that is reported failed afterwards is paid back all the same.\<close>

lemma delivered_then_failed_pays_back:
  "balance_of (fst (store_settle 7 (ustr ''o1'') Outcome_FAILED (ustr ''bot'') 6
     (fst (store_settle 7 (ustr ''o1'') Outcome_DELIVERED (ustr ''bot'') 5 s_charged)))) 7 = 3"
  by code_simp

section \<open>Erasure\<close>



end
