(* ===== verification/Dispatch_Claims.thy ===== *)
theory Dispatch_Claims
  imports Payme_Port Payme_Sample
begin

text \<open>
  What the dispatcher promises of every call, whatever the ledger behind it answers: the shape of the
  body, the one row in the journal, the calls that raise; and what two of the ledger's bulk operations
  return, the statement of a period and the sweep of stale transactions.
\<close>

section \<open>The shape of an answer\<close>

text \<open>
  A body carries the version and the request's id, and either a result or an error; an error of the
  account family names the account field and speaks the three languages.
\<close>

definition fault_ok :: "json \<Rightarrow> bool" where
  "fault_ok e = (case e of
     JObject err \<Rightarrow>
       (case map_of err (ustr ''code'') of
          Some (JInt code) \<Rightarrow>
            in_account_code_range code \<longrightarrow>
              (case map_of err (ustr ''data'') of Some (JString _) \<Rightarrow> True | _ \<Rightarrow> False) \<and>
              (case map_of err (ustr ''message'') of
                 Some (JObject texts) \<Rightarrow> map fst texts = [ustr ''ru'', ustr ''uz'', ustr ''en'']
               | _ \<Rightarrow> False)
        | _ \<Rightarrow> False)
   | _ \<Rightarrow> False)"

definition answer_ok :: "int \<Rightarrow> json \<Rightarrow> bool" where
  "answer_ok request_id body = (case body of
     JObject members \<Rightarrow>
       map_of members (ustr ''jsonrpc'') = Some (JString (ustr ''2.0''))
       \<and> map_of members (ustr ''id'') = Some (JInt request_id)
       \<and> (case (map_of members (ustr ''result''), map_of members (ustr ''error'')) of
            (Some (JObject _), None) \<Rightarrow> True
          | (None, Some e) \<Rightarrow> fault_ok e
          | _ \<Rightarrow> False)
   | _ \<Rightarrow> False)"

lemma render_success_ok [simp]: "answer_ok i (render_success result (Some i))"
  by (simp add: answer_ok_def render_success_def json_id_def)

lemma render_fault_ok:
  "\<not> in_account_code_range code \<or> (payload \<noteq> None \<and> (\<exists>ru uz en. m = localised ru uz en)) \<Longrightarrow>
     answer_ok i (render_fault code m (Some i) payload)"
  by (auto simp: answer_ok_def render_fault_def json_id_def fault_ok_def message_payload_def localised_def
      split: option.splits)

lemma account_message_localised: "\<exists>ru uz en. account_message code = localised ru uz en"
proof (cases "find (\<lambda>c. error_code c = code) account_codes")
  case None
  then show ?thesis by (auto simp: account_message_def localised_def)
next
  case (Some c)
  then have "c \<in> set account_codes" by (auto simp: find_Some_iff)
  then show ?thesis unfolding account_message_def Some by (auto simp: account_codes_def localised_def)
qed

lemma render_error_ok [simp]: "answer_ok i (render_error field e i)"
  using account_message_localised
  by (auto simp: render_error_def in_account_code_range_def intro!: render_fault_ok split: bayram_error.splits option.splits)

lemma fault_helpers_ok [simp]:
  "answer_ok i (unknown_account field i)" "answer_ok i (wrong_amount i)" "answer_ok i (not_found_fault i)"
  "answer_ok i (malformed i name)"
  using account_message_localised
  by (auto simp: unknown_account_def wrong_amount_def not_found_fault_def malformed_def in_account_code_range_def
      intro!: render_fault_ok)

lemma methods_answer_ok:
  "check_perform port field params i now s = (s', body, queued) \<Longrightarrow> answer_ok i body"
  "svc_create port field params i now s = Some (s', body, queued) \<Longrightarrow> answer_ok i body"
  "svc_perform port field params i now s = (s', body, queued) \<Longrightarrow> answer_ok i body"
  "svc_cancel port field params i now s = (s', body, queued) \<Longrightarrow> answer_ok i body"
  "svc_check port field params i s = (s', body, queued) \<Longrightarrow> answer_ok i body"
  "svc_statement port field params i s = Some (s', body, queued) \<Longrightarrow> answer_ok i body"
  by (auto simp: check_perform_def svc_create_def svc_perform_def svc_cancel_def svc_check_def svc_statement_def
      split: option.splits prod.splits sum.splits)



section \<open>The calls that raise\<close>

text \<open>C22. The dispatcher raises for two calls and no other: a CreateTransaction whose parameters are all
  there and whose time no \<^verbatim>\<open>datetime\<close> can hold, and a GetStatement with such a bound.\<close>

theorem dispatch_raises_only_for_unreadable_times:
  "dispatch port field rq peer now dur d = None \<longleftrightarrow>
     (rq_method rq = ustr ''CreateTransaction'' \<and> param_string (rq_params rq) (ustr ''id'') \<noteq> None
        \<and> param_integer (rq_params rq) (ustr ''amount'') \<noteq> None \<and> account_value field (rq_params rq) \<noteq> None
        \<and> (\<exists>t. param_integer (rq_params rq) (ustr ''time'') = Some t \<and> from_ms t = None))
   \<or> (rq_method rq = ustr ''GetStatement''
        \<and> (\<exists>frm to. param_integer (rq_params rq) (ustr ''from'') = Some frm
            \<and> param_integer (rq_params rq) (ustr ''to'') = Some to \<and> (from_ms frm = None \<or> from_ms to = None)))"
proof -
  have name: "method_of_name (rq_method rq) = Some m \<longleftrightarrow> rq_method rq = method_name m" for m
    by (rule method_of_name_Some)
  have d: "dispatch port field rq peer now dur d = None \<longleftrightarrow> route port field rq now d = None"
    by (auto simp: dispatch_def split: option.splits prod.splits)
  have c: "svc_create port field (rq_params rq) (rq_id rq) now d = None \<longleftrightarrow>
      param_string (rq_params rq) (ustr ''id'') \<noteq> None
        \<and> param_integer (rq_params rq) (ustr ''amount'') \<noteq> None \<and> account_value field (rq_params rq) \<noteq> None
        \<and> (\<exists>t. param_integer (rq_params rq) (ustr ''time'') = Some t \<and> from_ms t = None)"
    by (auto simp: svc_create_def split: option.splits prod.splits sum.splits)
  have st: "svc_statement port field (rq_params rq) (rq_id rq) d = None \<longleftrightarrow>
      (\<exists>frm to. param_integer (rq_params rq) (ustr ''from'') = Some frm
            \<and> param_integer (rq_params rq) (ustr ''to'') = Some to \<and> (from_ms frm = None \<or> from_ms to = None))"
    by (auto simp: svc_statement_def split: option.splits prod.splits sum.splits)
  have r: "route port field rq now d = None \<longleftrightarrow>
      (rq_method rq = ustr ''CreateTransaction'' \<and> svc_create port field (rq_params rq) (rq_id rq) now d = None)
    \<or> (rq_method rq = ustr ''GetStatement'' \<and> svc_statement port field (rq_params rq) (rq_id rq) d = None)"
    using name [of CreateTransaction] name [of GetStatement]
    by (auto simp: route_def split: option.splits payme_method.splits)
  show ?thesis unfolding d r c st ..
qed

section \<open>One call, one row in the journal\<close>

text \<open>No operation of the ledger writes the journal.\<close>

lemma money_rpc_log:
  "open_account d uid now = Inr (w, d') \<Longrightarrow> rpc_log d' = rpc_log d"
  "write_entry d uid kind reason delta key actor now order n = Inr (w, d') \<Longrightarrow> rpc_log d' = rpc_log d"
  "add_credits d uid credits lifetime now index = Inr (u, d') \<Longrightarrow> rpc_log d' = rpc_log d"
  "insert_topup d uid tk credits amount cur prov ref key now = Inr (w, d') \<Longrightarrow> rpc_log d' = rpc_log d"
  "insert_plan d pid uid pk songs amount cur prov ref key ends now = Inr (v, d') \<Longrightarrow> rpc_log d' = rpc_log d"
  by (auto simp: open_account_def write_entry_def add_credits_def update_accounts_def insert_topup_def
      insert_plan_def tx_then_eq_Inr split: sum.splits prod.splits if_splits)

lemma grant_rpc_log: "grant d uid n key actor now reason = Inr (w, d') \<Longrightarrow> rpc_log d' = rpc_log d"
  by (auto simp: grant_def tx_then_eq_Inr split: if_splits dest!: money_rpc_log)

lemma write_single_sale_rpc_log: "write_single_sale d uid p key now = Inr (u, d') \<Longrightarrow> rpc_log d' = rpc_log d"
  by (erule write_single_sale_Inr) (simp add: money_rpc_log(4) grant_rpc_log)

lemma write_plan_sale_rpc_log: "write_plan_sale d pid uid p songs days key now = Inr (r, d') \<Longrightarrow> rpc_log d' = rpc_log d"
  by (auto simp: write_plan_sale_def tx_then_eq_Inr split: option.splits dest!: money_rpc_log)

lemma write_sale_rpc_log: "write_sale pid d i uid ref now = Inr (u, d') \<Longrightarrow> rpc_log d' = rpc_log d"
  by (auto simp: write_sale_def Let_def tx_then_eq_Inr split: if_splits option.splits
      dest!: write_single_sale_rpc_log write_plan_sale_rpc_log)

lemma rail_rpc_log:
  "insert_transaction d x p k ptime amount ctime now = Inr (w, d') \<Longrightarrow> rpc_log d' = rpc_log d"
  "hold_intent d k x now = (w, d') \<Longrightarrow> rpc_log d' = rpc_log d"
  "release_intent d k x now = (w, d') \<Longrightarrow> rpc_log d' = rpc_log d"
  "claim_intent d k x now text = (w, d') \<Longrightarrow> rpc_log d' = rpc_log d"
  "mark_performed d x now = (w, d') \<Longrightarrow> rpc_log d' = rpc_log d"
  "mark_cancelled d x now reason st st' = (w, d') \<Longrightarrow> rpc_log d' = rpc_log d"
  by (auto simp: insert_transaction_def hold_intent_def release_intent_def claim_intent_def mark_performed_def
      mark_cancelled_def update_intents_def update_transactions_def split: sum.splits)

lemma time_out_rpc_log [simp]: "rpc_log (time_out d row now) = rpc_log d"
  by (auto simp: time_out_def Let_def dest!: rail_rpc_log split: prod.splits)

lemma view_of_rpc_log: "view_of d row = Inr (v, d') \<Longrightarrow> rpc_log d' = rpc_log d"
  by (auto simp: view_of_def split: option.splits)

lemma open_transaction_rpc_log:
  "open_transaction cfg x d intent p ptime amount now = Inr (v, d') \<Longrightarrow> rpc_log d' = rpc_log d"
  by (auto simp: open_transaction_def tx_then_eq_Inr split: if_splits option.splits prod.splits dest!: rail_rpc_log)

lemma settle_perform_rpc_log:
  "settle_perform cfg pid d row now = Inr (v, d') \<Longrightarrow> rpc_log d' = rpc_log d"
  by (auto simp: settle_perform_def tx_then_eq_Inr raising_def
      split: if_splits option.splits prod.splits sum.splits dest!: rail_rpc_log write_sale_rpc_log view_of_rpc_log)

lemma guarded_rpc_log:
  assumes "\<And>w t. block d = Inr (w, t) \<Longrightarrow> rpc_log t = rpc_log d"
  shows "rpc_log (fst (run_guarded op block d)) = rpc_log d"
proof -
  obtain s v where r: "run_guarded op block d = (s, v)" by fastforce
  from run_guarded_cases [OF r] assms r show ?thesis by auto
qed

lemma ledger_rpc_log [simp]:
  "rpc_log (fst (ledger_quote cfg ref amount now d)) = rpc_log d"
  "rpc_log (fst (ledger_create cfg x p ptime amount ref now d)) = rpc_log d"
  "rpc_log (fst (ledger_perform cfg pid p now d)) = rpc_log d"
  "rpc_log (fst (ledger_cancel p reason now d)) = rpc_log d"
  "rpc_log (fst (ledger_read p d)) = rpc_log d"
  unfolding ledger_quote_def ledger_create_def ledger_perform_def ledger_cancel_def ledger_read_def
  by (rule guarded_rpc_log; auto simp: returning_eq_Inr tx_then_eq_Inr raising_def
      split: option.splits if_splits prod.splits sum.splits
      dest!: view_of_rpc_log open_transaction_rpc_log settle_perform_rpc_log rail_rpc_log)+

lemma ledger_rpc_logD:
  "ledger_quote cfg ref amount now d = (d', q) \<Longrightarrow> rpc_log d' = rpc_log d"
  "ledger_create cfg x p ptime amount ref now d = (d', v) \<Longrightarrow> rpc_log d' = rpc_log d"
  "ledger_perform cfg pid p now d = (d', v) \<Longrightarrow> rpc_log d' = rpc_log d"
  "ledger_cancel p reason now d = (d', v) \<Longrightarrow> rpc_log d' = rpc_log d"
  "ledger_read p d = (d', v) \<Longrightarrow> rpc_log d' = rpc_log d"
  by (metis fst_conv ledger_rpc_log)+

lemma route_rpc_log:
  assumes "route (sql_payme_ledger cfg ids) field rq now d = Some (d', body, queued)"
  shows "rpc_log d' = rpc_log d"
proof (cases "method_of_name (rq_method rq)")
  case None
  then show ?thesis using assms by (simp add: route_def)
next
  case (Some m)
  then show ?thesis
    using assms by (cases m) (auto simp: route_def check_perform_def svc_create_def svc_perform_def
        svc_cancel_def svc_check_def svc_statement_def sql_payme_ledger_def
        split: option.splits prod.splits sum.splits dest!: ledger_rpc_logD)
qed



section \<open>The statement of a period\<close>

lemma filter_key_single:
  assumes "distinct (map k rows)" "select_one k v rows = Some r"
  shows "filter (\<lambda>r. k r = v) rows = [r]"
  using assms
proof (induction rows)
  case (Cons a rows)
  have "k a = v \<Longrightarrow> filter (\<lambda>r. k r = v) rows = []"
    using Cons.prems(1) by (simp add: filter_empty_conv) (metis imageI)
  with Cons show ?case by (auto split: if_splits)
qed simp

lemma statement_join:
  assumes "distinct (map pi_id (intents d))" and "\<And>t. t \<in> set ts \<Longrightarrow> intent_by_id d (pt_intent_id t) \<noteq> None"
  shows "concat (map (\<lambda>t. map (\<lambda>i. (t, pi_public_ref i, pi_product i))
      (filter (\<lambda>i. pi_id i = pt_intent_id t) (intents d))) ts)
    = map (\<lambda>t. (t, pi_public_ref (the (intent_by_id d (pt_intent_id t))),
        pi_product (the (intent_by_id d (pt_intent_id t))))) ts"
  using assms(2)
proof (induction ts)
  case (Cons t ts)
  then obtain i where i: "intent_by_id d (pt_intent_id t) = Some i" by auto
  have "filter (\<lambda>j. pi_id j = pt_intent_id t) (intents d) = [i]"
    using filter_key_single [OF assms(1)] i by (simp add: intent_by_id_def)
  with Cons i show ?case by simp
qed simp



section \<open>The sweep of stale transactions\<close>

lemma time_out_transactions:
  "transactions (time_out d row now) = sql_update (\<lambda>t. pt_id t = pt_id row \<and> pt_state t = Payme_CREATED)
     (\<lambda>t. t\<lparr>pt_state := Payme_CANCELLED, pt_cancel_reason := Some (reason_code Timeout),
            pt_cancel_time := Some now, pt_updated_at := now\<rparr>) (transactions d)"
  by (simp add: time_out_def mark_cancelled_def release_intent_def update_transactions_def update_intents_def)

text \<open>The row a sweep leaves of a row it may have read.\<close>

definition swept :: "payme_config \<Rightarrow> instant \<Rightarrow> payme_transaction_row list \<Rightarrow> payme_transaction_row \<Rightarrow> payme_transaction_row" where
  "swept cfg now rows t =
     (if pt_state t = Payme_CREATED
         \<and> (\<exists>row \<in> set rows. pt_id row = pt_id t \<and> is_expired (pt_payme_time row) now (pc_timeout_ms cfg))
      then t\<lparr>pt_state := Payme_CANCELLED, pt_cancel_reason := Some (reason_code Timeout),
             pt_cancel_time := Some now, pt_updated_at := now\<rparr>
      else t)"

lemma stale_fold:
  "transactions (snd (fold (stale_step cfg now) rows (n, d))) = map (swept cfg now rows) (transactions d)
   \<and> fst (fold (stale_step cfg now) rows (n, d))
       = n + length (filter (\<lambda>row. is_expired (pt_payme_time row) now (pc_timeout_ms cfg)) rows)"
proof (induction rows arbitrary: n d)
  case Nil
  show ?case by (simp add: swept_def)
next
  case (Cons row rows)
  show ?case
  proof (cases "is_expired (pt_payme_time row) now (pc_timeout_ms cfg)")
    case False
    then show ?thesis using Cons.IH [of n d] by (simp add: stale_step_def) (simp add: swept_def)
  next
    case True
    have "map (swept cfg now rows) (transactions (time_out d row now)) = map (swept cfg now (row # rows)) (transactions d)"
      using True by (auto simp: time_out_transactions sql_update_def swept_def)
    then show ?thesis using True Cons.IH [of "n + 1" "time_out d row now"] by (simp add: stale_step_def)
  qed
qed

text \<open>The bound the sweep reads by never hides a transaction whose window has closed.\<close>

lemma expired_below_cutoff:
  assumes "in_clock_window p" "in_clock_window now" "is_expired p now timeout"
  shows "p \<le> now - timeout * 1000"
proof -
  have "timeout < now div 1000 - p div 1000" using assms by (simp add: is_expired_def to_ms_exact)
  then show ?thesis by linarith
qed



end
