(* ===== verification/Membership.thy ===== *)
theory Membership
  imports Credit_Store
begin

text \<open>
  The \<^verbatim>\<open>users\<close> row and who writes it: \<^verbatim>\<open>ensure_user\<close> (\<^verbatim>\<open>src/src/bayram/db/users_sql.py\<close>), the customer's
  own block of the bot with its history (\<^verbatim>\<open>db/churn.py\<close>), beside the \<^verbatim>\<open>touch\<close> and \<^verbatim>\<open>set_blocked\<close> of the
  credit ledger. The history is append-only and the column is its last word; the operator's bar and
  the customer's block are two facts that no writer of the one may move in the other.
\<close>

section \<open>The writers\<close>

definition default_ui_language :: language where "default_ui_language = UZ_LATN"

definition ensure_user ::
    "db \<Rightarrow> uuid \<Rightarrow> int \<Rightarrow> language option \<Rightarrow> instant \<Rightarrow> bool \<Rightarrow> (db, uuid) outcome" where
  "ensure_user d fresh uid ui_language now is_language_authoritative =
     (if is_language_authoritative \<and> ui_language = None
      then Inl (Raised (ValidationError ''ensure_user was told the language is authoritative but given no language''))
      else
        (let d = d\<lparr>users := upsert_user
               (\<lambda>r. (case ui_language of
                       Some l \<Rightarrow> if is_language_authoritative then r\<lparr>us_ui_language := l\<rparr> else r
                     | None \<Rightarrow> r)\<lparr>us_last_seen_at := now, us_updated_at := now\<rparr>)
               \<lparr>us_id = fresh, us_telegram_user_id = uid,
                us_ui_language = (case ui_language of None \<Rightarrow> default_ui_language | Some l \<Rightarrow> l),
                us_is_blocked = False, us_last_seen_at = now, us_blocked_bot_at = None,
                us_created_at = now, us_updated_at = now\<rparr> (users d)\<rparr>
         in case select_one us_telegram_user_id uid (users d) of
              None \<Rightarrow> Inl (Raised (ValidationError ''the users row vanished between its upsert and its read-back''))
            | Some r \<Rightarrow> Inr (us_id r, d)))"

definition new_user_values :: "uuid \<Rightarrow> int \<Rightarrow> instant \<Rightarrow> instant option \<Rightarrow> user_row" where
  "new_user_values fresh uid at blocked_bot_at =
     \<lparr>us_id = fresh, us_telegram_user_id = uid, us_ui_language = default_ui_language, us_is_blocked = False,
      us_last_seen_at = at, us_blocked_bot_at = blocked_bot_at, us_created_at = at, us_updated_at = at\<rparr>"

definition append_membership_event ::
    "db \<Rightarrow> int \<Rightarrow> bot_membership_event \<Rightarrow> bot_block_source \<Rightarrow> instant \<Rightarrow> db" where
  "append_membership_event d uid event source at =
     d\<lparr>membership_events := membership_events d @
        [\<lparr>me_telegram_user_id = Some uid, me_event = event, me_source = source, me_at = at\<rparr>]\<rparr>"

definition mark_bot_blocked ::
    "db \<Rightarrow> uuid \<Rightarrow> int \<Rightarrow> instant \<Rightarrow> bot_block_source \<Rightarrow> (db, bool) outcome" where
  "mark_bot_blocked d fresh uid at source =
     (case insert_or_ignore (\<lambda>_. True) us_telegram_user_id (\<lambda>r s. us_id s = us_id r)
             (new_user_values fresh uid at (Some at)) (users d) of
        Inl e \<Rightarrow> Inl e
      | Inr (inserted, rows) \<Rightarrow>
         (let p = (\<lambda>r. us_telegram_user_id r = uid \<and> us_blocked_bot_at r = None);
              updated = (if inserted then 0 else rowcount p rows);
              rows = (if inserted then rows
                else sql_update p (\<lambda>r. r\<lparr>us_blocked_bot_at := Some at, us_updated_at := at\<rparr>) rows);
              d = d\<lparr>users := rows\<rparr>
          in if \<not> (inserted \<or> updated = 1) then Inr (False, d)
             else Inr (True, append_membership_event d uid Event_BLOCKED source at)))"

definition mark_bot_unblocked ::
    "db \<Rightarrow> uuid \<Rightarrow> int \<Rightarrow> instant \<Rightarrow> bot_block_source \<Rightarrow> (db, bool) outcome" where
  "mark_bot_unblocked d fresh uid at source =
     (case insert_or_ignore (\<lambda>_. True) us_telegram_user_id (\<lambda>r s. us_id s = us_id r)
             (new_user_values fresh uid at None) (users d) of
        Inl e \<Rightarrow> Inl e
      | Inr (_, rows) \<Rightarrow>
         (let p = (\<lambda>r. us_telegram_user_id r = uid \<and> us_blocked_bot_at r \<noteq> None);
              d = d\<lparr>users := sql_update p (\<lambda>r. r\<lparr>us_blocked_bot_at := None, us_updated_at := at\<rparr>) rows\<rparr>
          in if rowcount p rows \<noteq> 1 then Inr (False, d)
             else Inr (True, append_membership_event d uid Event_UNBLOCKED source at)))"

definition record_bot_blocked ::
    "uuid \<Rightarrow> int \<Rightarrow> instant \<Rightarrow> bot_block_source \<Rightarrow> db \<Rightarrow> db \<times> (bayram_error + bool)" where
  "record_bot_blocked fresh uid at source =
     run_guarded ''churn.record_bot_blocked'' (\<lambda>d. returning (mark_bot_blocked d fresh uid at source))"

definition record_bot_unblocked ::
    "uuid \<Rightarrow> int \<Rightarrow> instant \<Rightarrow> bot_block_source \<Rightarrow> db \<Rightarrow> db \<times> (bayram_error + bool)" where
  "record_bot_unblocked fresh uid at source =
     run_guarded ''churn.record_bot_unblocked'' (\<lambda>d. returning (mark_bot_unblocked d fresh uid at source))"

section \<open>The history and the column\<close>

definition history :: "db \<Rightarrow> int \<Rightarrow> bot_membership_event list" where
  "history d uid = map me_event (filter (\<lambda>e. me_telegram_user_id e = Some uid) (membership_events d))"

text \<open>A history is sound when it alternates; it may open with either event, an erasure cuts it.\<close>

fun alternates :: "bot_membership_event list \<Rightarrow> bool" where
  "alternates (e # f # es) \<longleftrightarrow> e \<noteq> f \<and> alternates (f # es)"
| "alternates _ \<longleftrightarrow> True"

definition user_of :: "db \<Rightarrow> int \<Rightarrow> user_row option" where
  "user_of d uid = select_one us_telegram_user_id uid (users d)"

definition bot_blocked :: "db \<Rightarrow> int \<Rightarrow> bool" where
  "bot_blocked d uid = (case user_of d uid of None \<Rightarrow> False | Some r \<Rightarrow> us_blocked_bot_at r \<noteq> None)"

definition churn_ok :: "db \<Rightarrow> bool" where
  "churn_ok d \<longleftrightarrow> distinct (map us_telegram_user_id (users d)) \<and> (\<forall>uid. alternates (history d uid)
     \<and> (history d uid \<noteq> [] \<longrightarrow> (last (history d uid) = Event_BLOCKED \<longleftrightarrow> bot_blocked d uid)))"

lemma alternates_snoc: "alternates (es @ [e]) \<longleftrightarrow> alternates es \<and> (es \<noteq> [] \<longrightarrow> last es \<noteq> e)"
  by (induction es rule: alternates.induct) auto

lemma history_append:
  "history (append_membership_event d uid event source at) v
     = history d v @ (if v = uid then [event] else [])"
  by (simp add: history_def append_membership_event_def)

lemma history_users [simp]: "history (d\<lparr>users := rows\<rparr>) v = history d v"
  by (simp add: history_def)

lemma user_of_append [simp]: "user_of (append_membership_event d uid event source at) v = user_of d v"
  "users (append_membership_event d uid event source at) = users d"
  by (simp_all add: user_of_def append_membership_event_def)

section \<open>Every run of the writers\<close>

inductive membership_step :: "db \<Rightarrow> db \<Rightarrow> bool" where
  touch: "membership_step d (store_touch fresh uid lang now d)"
| block: "membership_step d (store_set_blocked fresh uid blocked now d)"
| ensure: "ensure_user d fresh uid lang now auth = Inr (k, d') \<Longrightarrow> membership_step d d'"
| blocked: "membership_step d (fst (record_bot_blocked fresh uid at source d))"
| unblocked: "membership_step d (fst (record_bot_unblocked fresh uid at source d))"
| forget: "membership_step d (store_forget uid d)"

inductive membership_reachable :: "db \<Rightarrow> bool" where
  start: "membership_reachable empty_db"
| step: "membership_reachable d \<Longrightarrow> membership_step d d' \<Longrightarrow> membership_reachable d'"

lemma upsert_user_distinct:
  "distinct (map us_telegram_user_id rows) \<Longrightarrow> (\<And>r. us_telegram_user_id (f r) = us_telegram_user_id r) \<Longrightarrow>
     distinct (map us_telegram_user_id (upsert_user f row rows))"
  by (auto simp: upsert_user_def select_one_None_iff)

lemma upsert_user_lookup:
  assumes "\<And>r. us_telegram_user_id (f r) = us_telegram_user_id r"
  shows "select_one us_telegram_user_id v (upsert_user f row rows) =
     (case select_one us_telegram_user_id v rows of
        None \<Rightarrow> if v = us_telegram_user_id row then Some row else None
      | Some r \<Rightarrow> Some (if v = us_telegram_user_id row then f r else r))"
  using assms by (auto simp: upsert_user_def select_one_append select_one_update split: option.splits
      dest: select_one_SomeD)

text \<open>An upsert of the liveness columns moves neither the history nor the customer's block.\<close>

lemma upsert_churn_ok:
  assumes "churn_ok d" "\<And>r. us_telegram_user_id (f r) = us_telegram_user_id r"
    and "\<And>r. us_blocked_bot_at (f r) = us_blocked_bot_at r" "us_blocked_bot_at row = None"
  shows "churn_ok (d\<lparr>users := upsert_user f row (users d)\<rparr>)"
    and "bot_blocked (d\<lparr>users := upsert_user f row (users d)\<rparr>) v = bot_blocked d v"
proof -
  have same: "bot_blocked (d\<lparr>users := upsert_user f row (users d)\<rparr>) v = bot_blocked d v" for v
    using assms(3,4) by (auto simp: bot_blocked_def user_of_def upsert_user_lookup [OF assms(2)] split: option.splits)
  show "churn_ok (d\<lparr>users := upsert_user f row (users d)\<rparr>)"
    using assms(1) upsert_user_distinct [OF _ assms(2)] by (simp add: churn_ok_def same)
  show "bot_blocked (d\<lparr>users := upsert_user f row (users d)\<rparr>) v = bot_blocked d v" by (rule same)
qed

lemma ensure_user_Inr:
  assumes "ensure_user d fresh uid lang now auth = Inr (k, d')"
  obtains f row where "d' = d\<lparr>users := upsert_user f row (users d)\<rparr>"
    "\<And>r. us_telegram_user_id (f r) = us_telegram_user_id r" "\<And>r. us_blocked_bot_at (f r) = us_blocked_bot_at r"
    "\<And>r. us_is_blocked (f r) = us_is_blocked r" "us_blocked_bot_at row = None" "\<not> us_is_blocked row"
proof (rule that)
  show "d' = d\<lparr>users := upsert_user
      (\<lambda>r. (case lang of Some l \<Rightarrow> if auth then r\<lparr>us_ui_language := l\<rparr> else r
              | None \<Rightarrow> r)\<lparr>us_last_seen_at := now, us_updated_at := now\<rparr>)
      \<lparr>us_id = fresh, us_telegram_user_id = uid,
       us_ui_language = (case lang of None \<Rightarrow> default_ui_language | Some l \<Rightarrow> l),
       us_is_blocked = False, us_last_seen_at = now, us_blocked_bot_at = None,
       us_created_at = now, us_updated_at = now\<rparr> (users d)\<rparr>"
    using assms by (simp add: ensure_user_def Let_def split: if_splits option.splits)
qed (simp_all split: option.split)

lemma bot_blocked_user: "user_of d uid = Some r \<Longrightarrow> bot_blocked d uid \<longleftrightarrow> us_blocked_bot_at r \<noteq> None"
  by (simp add: bot_blocked_def)

lemma churn_ok_event:
  assumes "churn_ok d" and "distinct (map us_telegram_user_id rows)"
    and "bot_blocked d uid \<longleftrightarrow> e = Event_UNBLOCKED"
    and "\<And>v. bot_blocked (d\<lparr>users := rows\<rparr>) v = (if v = uid then e = Event_BLOCKED else bot_blocked d v)"
  shows "churn_ok (append_membership_event (d\<lparr>users := rows\<rparr>) uid e source at)"
proof -
  have last: "last (history d uid) \<noteq> e" if "history d uid \<noteq> []"
    using assms(1,3) that by (cases e) (auto simp: churn_ok_def)
  have "bot_blocked (append_membership_event (d\<lparr>users := rows\<rparr>) uid e source at) v
      = bot_blocked (d\<lparr>users := rows\<rparr>) v" for v
    by (simp add: bot_blocked_def)
  then show ?thesis
    using assms(1,2,4) last by (auto simp: churn_ok_def history_append alternates_snoc)
qed

lemma mark_bot_blocked_Inr:
  assumes "mark_bot_blocked d fresh uid at source = Inr (w, d')" and ok: "churn_ok d"
  shows "churn_ok d' \<and> bot_blocked d' v = (v = uid \<or> bot_blocked d v) \<and> (w \<longleftrightarrow> \<not> bot_blocked d uid)
    \<and> history d' v = history d v @ (if w \<and> v = uid then [Event_BLOCKED] else [])"
proof -
  let ?p = "\<lambda>r. us_telegram_user_id r = uid \<and> us_blocked_bot_at r = None"
  let ?f = "\<lambda>r. r\<lparr>us_blocked_bot_at := Some at, us_updated_at := at\<rparr>"
  have dist: "distinct (map us_telegram_user_id (users d))" using ok by (simp add: churn_ok_def)
  from assms(1) obtain ins rows where
    io: "insert_or_ignore (\<lambda>_. True) us_telegram_user_id (\<lambda>r s. us_id s = us_id r)
        (new_user_values fresh uid at (Some at)) (users d) = Inr (ins, rows)"
    and w: "w \<longleftrightarrow> ins \<or> rowcount ?p rows = 1"
    and d': "d' = (if w then append_membership_event (d\<lparr>users := if ins then rows else sql_update ?p ?f rows\<rparr>) uid Event_BLOCKED source at
        else d\<lparr>users := sql_update ?p ?f rows\<rparr>)"
    by (auto simp: mark_bot_blocked_def Let_def split: sum.splits if_splits)
  note io' = insert_or_ignore_Inr(2,3) [OF io]
  have uid: "us_telegram_user_id (new_user_values fresh uid at (Some at)) = uid" by (simp add: new_user_values_def)
  show ?thesis
  proof (cases "user_of d uid")
    case None
    then have ins and rows: "rows = users d @ [new_user_values fresh uid at (Some at)]" and nb: "\<not> bot_blocked d uid"
      using io' uid by (auto simp: user_of_def bot_blocked_def)
    then have b: "bot_blocked (d\<lparr>users := rows\<rparr>) v = (if v = uid then True else bot_blocked d v)" for v
      using None by (auto simp: bot_blocked_def user_of_def select_one_append new_user_values_def split: option.splits
          dest: select_one_SomeD)
    have "churn_ok (append_membership_event (d\<lparr>users := rows\<rparr>) uid Event_BLOCKED source at)"
      by (rule churn_ok_event [OF ok]) (use b nb dist None uid in \<open>auto simp: rows user_of_def select_one_None_iff\<close>)
    with \<open>ins\<close> w b nb show ?thesis by (auto simp: d' history_append bot_blocked_def)
  next
    case (Some r)
    then have n: "\<not> ins" and rows: "rows = users d" using io' uid by (auto simp: user_of_def)
    have cnt: "rowcount ?p rows = 1 \<longleftrightarrow> us_blocked_bot_at r = None"
      using Some dist by (simp add: rows rowcount_key user_of_def)
    have w': "w \<longleftrightarrow> \<not> bot_blocked d uid" using w n cnt bot_blocked_user [OF Some] by simp
    have b: "bot_blocked (d\<lparr>users := sql_update ?p ?f rows\<rparr>) v = (if v = uid then True else bot_blocked d v)" for v
      using Some by (auto simp: bot_blocked_def user_of_def rows select_one_update split: option.splits
          dest: select_one_SomeD)
    have e: "churn_ok (append_membership_event (d\<lparr>users := sql_update ?p ?f rows\<rparr>) uid Event_BLOCKED source at)" if w
      by (rule churn_ok_event [OF ok]) (use b w' that dist in \<open>simp_all add: rows\<close>)
    have "churn_ok (d\<lparr>users := sql_update ?p ?f rows\<rparr>)" if "\<not> w"
      using ok dist b that w' by (auto simp: churn_ok_def rows)
    with e b w' n show ?thesis by (auto simp: d' history_append bot_blocked_def)
  qed
qed

lemma mark_bot_unblocked_Inr:
  assumes "mark_bot_unblocked d fresh uid at source = Inr (w, d')" and ok: "churn_ok d"
  shows "churn_ok d' \<and> bot_blocked d' v = (v \<noteq> uid \<and> bot_blocked d v) \<and> (w \<longleftrightarrow> bot_blocked d uid)
    \<and> history d' v = history d v @ (if w \<and> v = uid then [Event_UNBLOCKED] else [])"
proof -
  let ?p = "\<lambda>r. us_telegram_user_id r = uid \<and> us_blocked_bot_at r \<noteq> None"
  let ?f = "\<lambda>r. r\<lparr>us_blocked_bot_at := None, us_updated_at := at\<rparr>"
  have dist: "distinct (map us_telegram_user_id (users d))" using ok by (simp add: churn_ok_def)
  from assms(1) obtain ins rows where
    io: "insert_or_ignore (\<lambda>_. True) us_telegram_user_id (\<lambda>r s. us_id s = us_id r)
        (new_user_values fresh uid at None) (users d) = Inr (ins, rows)"
    and w: "w \<longleftrightarrow> rowcount ?p rows = 1"
    and d': "d' = (if w then append_membership_event (d\<lparr>users := sql_update ?p ?f rows\<rparr>) uid Event_UNBLOCKED source at
        else d\<lparr>users := sql_update ?p ?f rows\<rparr>)"
    by (auto simp: mark_bot_unblocked_def Let_def split: sum.splits if_splits)
  have uid: "us_telegram_user_id (new_user_values fresh uid at None) = uid" by (simp add: new_user_values_def)
  have rdist: "distinct (map us_telegram_user_id rows)" by (rule insert_or_ignore_distinct [OF io dist])
  have look: "select_one us_telegram_user_id v rows =
      (case user_of d v of None \<Rightarrow> if v = uid then Some (new_user_values fresh uid at None) else None | Some r \<Rightarrow> Some r)" for v
    using insert_or_ignore_Inr(2,3) [OF io] uid
    by (auto simp: user_of_def select_one_append split: option.splits if_splits)
  have cnt: "w \<longleftrightarrow> bot_blocked d uid"
    using w by (simp add: rowcount_key [OF rdist] look bot_blocked_def new_user_values_def split: option.splits)
  have b: "bot_blocked (d\<lparr>users := sql_update ?p ?f rows\<rparr>) v = (v \<noteq> uid \<and> bot_blocked d v)" for v
    by (auto simp: bot_blocked_def user_of_def select_one_update look [unfolded user_of_def] new_user_values_def
        split: option.splits dest: select_one_SomeD)
  have e: "churn_ok (append_membership_event (d\<lparr>users := sql_update ?p ?f rows\<rparr>) uid Event_UNBLOCKED source at)" if w
    by (rule churn_ok_event [OF ok]) (use b cnt that rdist in auto)
  have "churn_ok (d\<lparr>users := sql_update ?p ?f rows\<rparr>)" if "\<not> w"
    using ok rdist b that cnt by (auto simp: churn_ok_def)
  with e b cnt show ?thesis by (auto simp: d' history_append bot_blocked_def)
qed

lemma store_upserts:
  shows "churn_ok d \<Longrightarrow> churn_ok (store_touch fresh uid lang now d)"
    and "churn_ok d \<Longrightarrow> churn_ok (store_set_blocked fresh uid blocked now d)"
    and "churn_ok d \<Longrightarrow> bot_blocked (store_touch fresh uid lang now d) v = bot_blocked d v"
    and "churn_ok d \<Longrightarrow> bot_blocked (store_set_blocked fresh uid blocked now d) v = bot_blocked d v"
  unfolding store_touch_def store_set_blocked_def touch_def set_blocked_def
  by (cases lang; simp add: upsert_churn_ok)+

lemma erased_history:
  "map me_event (filter (\<lambda>e. me_telegram_user_id e = Some v)
      (sql_update (\<lambda>r. me_telegram_user_id r = Some uid) (\<lambda>r. r\<lparr>me_telegram_user_id := None\<rparr>) rows))
     = (if v = uid then [] else map me_event (filter (\<lambda>e. me_telegram_user_id e = Some v) rows))"
  by (induction rows) (auto simp: sql_update_def)

lemma forget_churn:
  assumes "churn_ok d"
  shows "churn_ok (store_forget uid d)" and "users (store_forget uid d) = users d"
proof -
  show u: "users (store_forget uid d) = users d"
    by (simp add: store_forget_def forget_account_def anonymise_plans_def anonymise_topups_def
        anonymise_bot_membership_events_def Let_def)
  have "history (store_forget uid d) v = (if v = uid then [] else history d v)" for v
    unfolding history_def store_forget_def forget_account_tables by (rule erased_history)
  moreover have "bot_blocked (store_forget uid d) v = bot_blocked d v" for v
    by (simp add: bot_blocked_def user_of_def u)
  ultimately show "churn_ok (store_forget uid d)"
    using assms by (simp add: churn_ok_def u)
qed

lemma guarded_churn:
  assumes "churn_ok d" and "\<And>a e. f d = Inr (a, e) \<Longrightarrow> churn_ok e"
  shows "churn_ok (fst (run_guarded op (\<lambda>d. returning (f d)) d))"
proof -
  obtain s v where r: "run_guarded op (\<lambda>d. returning (f d)) d = (s, v)" by fastforce
  then have "churn_ok s"
    by (rule run_guarded_keeps [where P = churn_ok]) (use assms in \<open>auto simp: returning_eq_Inr\<close>)
  with r show ?thesis by simp
qed

lemma membership_step_churn_ok: "membership_step d d' \<Longrightarrow> churn_ok d \<Longrightarrow> churn_ok d'"
proof (induction rule: membership_step.induct)
  case (ensure d fresh uid lang now auth k d')
  then show ?case by (elim ensure_user_Inr) (simp add: upsert_churn_ok(1))
next
  case (blocked d fresh uid at source)
  then show ?case unfolding record_bot_blocked_def
    by (intro guarded_churn) (use mark_bot_blocked_Inr in blast)+
next
  case (unblocked d fresh uid at source)
  then show ?case unfolding record_bot_unblocked_def
    by (intro guarded_churn) (use mark_bot_unblocked_Inr in blast)+
qed (auto intro: store_upserts(1,2) forget_churn(1))

lemma churn_ok_empty: "churn_ok empty_db"
  by (simp add: churn_ok_def history_def empty_db_def)

text \<open>C27. The history of a customer's block is sound: in every state of every run the events of an
  account alternate, its last event says what the account's column says, and recording a block or an
  unblock answers true exactly when it is the passage, in which case it adds the one event.\<close>

theorem membership_history_is_sound:
  assumes "membership_reachable d"
  shows "alternates (history d uid)
    \<and> (history d uid \<noteq> [] \<longrightarrow> (last (history d uid) = Event_BLOCKED \<longleftrightarrow> bot_blocked d uid))
    \<and> (\<forall>fresh at source w d'. record_bot_blocked fresh uid at source d = (d', Inr w) \<longrightarrow>
         (w \<longleftrightarrow> \<not> bot_blocked d uid) \<and> bot_blocked d' uid
         \<and> history d' uid = history d uid @ (if w then [Event_BLOCKED] else []))
    \<and> (\<forall>fresh at source w d'. record_bot_unblocked fresh uid at source d = (d', Inr w) \<longrightarrow>
         (w \<longleftrightarrow> bot_blocked d uid) \<and> \<not> bot_blocked d' uid
         \<and> history d' uid = history d uid @ (if w then [Event_UNBLOCKED] else []))"
proof -
  have ok: "churn_ok d"
    using assms by (induction rule: membership_reachable.induct) (auto intro: churn_ok_empty membership_step_churn_ok)
  then have "alternates (history d uid)"
    "history d uid \<noteq> [] \<longrightarrow> (last (history d uid) = Event_BLOCKED \<longleftrightarrow> bot_blocked d uid)"
    by (simp_all add: churn_ok_def)
  then show ?thesis
    using mark_bot_blocked_Inr [OF _ ok, where v = uid] mark_bot_unblocked_Inr [OF _ ok, where v = uid]
    unfolding record_bot_blocked_def record_bot_unblocked_def run_guarded_returning_Inr by simp
qed

lemma membership_witness:
  "snd (record_bot_unblocked [2] 7 20 MEMBERSHIP_UPDATE (fst (record_bot_blocked [1] 7 10 DELIVERY_REFUSAL empty_db))) = Inr True
   \<and> history (fst (record_bot_unblocked [2] 7 20 MEMBERSHIP_UPDATE (fst (record_bot_blocked [1] 7 10 DELIVERY_REFUSAL empty_db)))) 7
     = [Event_BLOCKED, Event_UNBLOCKED]"
proof -
  let ?d = "fst (record_bot_blocked [1] 7 10 DELIVERY_REFUSAL empty_db)"
  have r: "membership_reachable ?d"
    by (rule membership_reachable.step [OF membership_reachable.start membership_step.blocked])
  have h: "history ?d 7 = [Event_BLOCKED]" "snd (record_bot_unblocked [2] 7 20 MEMBERSHIP_UPDATE ?d) = Inr True"
    by code_simp+
  then have "record_bot_unblocked [2] 7 20 MEMBERSHIP_UPDATE ?d
      = (fst (record_bot_unblocked [2] 7 20 MEMBERSHIP_UPDATE ?d), Inr True)" by (metis prod.collapse)
  with membership_history_is_sound [OF r, of 7] h show ?thesis by fastforce
qed

text \<open>C28. Two facts, two writers: whoever touches, bars or registers an account leaves the customer's block
  of the bot as it was for everybody, and recording a block or an unblock leaves the operator's bar.\<close>

theorem bar_and_block_are_independent:
  assumes "membership_reachable d"
  shows "bot_blocked (store_touch fresh uid lang now d) v = bot_blocked d v
    \<and> bot_blocked (store_set_blocked fresh uid barred now d) v = bot_blocked d v
    \<and> (\<forall>auth k d'. ensure_user d fresh uid lang now auth = Inr (k, d') \<longrightarrow> bot_blocked d' v = bot_blocked d v)
    \<and> is_blocked (fst (record_bot_blocked fresh uid at source d)) v = is_blocked d v
    \<and> is_blocked (fst (record_bot_unblocked fresh uid at source d)) v = is_blocked d v"
proof -
  have ok: "churn_ok d"
    using assms by (induction rule: membership_reachable.induct) (auto intro: churn_ok_empty membership_step_churn_ok)
  have "bot_blocked d' v = bot_blocked d v" if "ensure_user d fresh uid lang now auth = Inr (k, d')" for auth k d'
    using that by (rule ensure_user_Inr) (simp add: upsert_churn_ok(2) [OF ok])
  moreover have "is_blocked (fst (record_bot_blocked fresh uid at source d)) v = is_blocked d v"
    by (auto simp: record_bot_blocked_def run_guarded_def mark_bot_blocked_def insert_or_ignore_def is_blocked_def
        append_membership_event_def new_user_values_def Let_def select_one_update select_one_append
        split: sum.splits exn.splits option.splits if_splits dest: select_one_SomeD)
  moreover have "is_blocked (fst (record_bot_unblocked fresh uid at source d)) v = is_blocked d v"
    by (auto simp: record_bot_unblocked_def run_guarded_def mark_bot_unblocked_def insert_or_ignore_def is_blocked_def
        append_membership_event_def new_user_values_def Let_def select_one_update select_one_append
        split: sum.splits exn.splits option.splits if_splits dest: select_one_SomeD)
  ultimately show ?thesis using store_upserts(3,4) [OF ok] by blast
qed

lemma bar_and_block_witness: "bot_blocked (store_set_blocked [1] 7 True 5 empty_db) 7 = False"
proof -
  have "bot_blocked empty_db 7 = False" by code_simp
  then show ?thesis using bar_and_block_are_independent [OF membership_reachable.start, of "[1]" 7] by blast
qed

end
