(* ===== verification/Support.thy ===== *)
theory Support
  imports Credit_Store "HOL-Library.List_Lexorder" "HOL-Library.Product_Lexorder"
begin

text \<open>
  The support desk: the vocabulary of \<^verbatim>\<open>src/src/bayram/support.py\<close> (references, legal moves, quota,
  authors) and the statements of \<^verbatim>\<open>db/support_tickets.py\<close>. A ticket row is the present and its events
  are the history; every move is a conditional update. The random ids are arguments, the candidates of
  \<^verbatim>\<open>mint_ticket_identity\<close> a list; an insert that breaks a key of the schema is a constraint violation.
\<close>

section \<open>Vocabulary\<close>

definition support_public_ref_chars :: nat where "support_public_ref_chars = 8"

definition public_ref_for :: "uuid \<Rightarrow> pystr" where
  "public_ref_for ticket_id = take support_public_ref_chars ticket_id"

fun legal_moves_from :: "support_ticket_status \<Rightarrow> support_ticket_status list" where
  "legal_moves_from Ticket_NEW = [Ticket_IN_PROGRESS, Ticket_WAITING, Ticket_RESOLVED]"
| "legal_moves_from Ticket_IN_PROGRESS = [Ticket_WAITING, Ticket_RESOLVED]"
| "legal_moves_from Ticket_WAITING = [Ticket_IN_PROGRESS, Ticket_RESOLVED]"
| "legal_moves_from Ticket_RESOLVED = [Ticket_IN_PROGRESS]"

definition is_legal_move :: "support_ticket_status \<Rightarrow> support_ticket_status \<Rightarrow> bool" where
  "is_legal_move from_status to_status \<longleftrightarrow> to_status \<in> set (legal_moves_from from_status)"

definition reopen_target :: "support_ticket_status \<Rightarrow> support_ticket_status option" where
  "reopen_target status =
     (if status \<in> {Ticket_WAITING, Ticket_RESOLVED} then Some Ticket_IN_PROGRESS else None)"

record support_quota =
  sq_max_undescribed :: int
  sq_max_per_day :: int

definition quota_post_init :: "support_quota \<Rightarrow> string + support_quota" where
  "quota_post_init q =
     (if sq_max_undescribed q < 1 then Inl ''a support quota must allow at least one open ticket''
      else if sq_max_per_day q < 1 then Inl ''a support quota must allow at least one ticket a day''
      else Inr q)"

definition default_support_quota :: support_quota where
  "default_support_quota = \<lparr>sq_max_undescribed = 3, sq_max_per_day = 5\<rparr>"

definition positive_int_or :: "attr \<Rightarrow> int \<Rightarrow> int" where
  "positive_int_or a fallback = (case a of IntValue i \<Rightarrow> if i < 1 then fallback else i | _ \<Rightarrow> fallback)"

text \<open>The two attributes of the settings object, when there is one.\<close>

definition resolve_support_quota :: "(attr \<times> attr) option \<Rightarrow> support_quota" where
  "resolve_support_quota settings =
     (case settings of
        None \<Rightarrow> default_support_quota
      | Some (undescribed, per_day) \<Rightarrow>
          \<lparr>sq_max_undescribed = positive_int_or undescribed 3, sq_max_per_day = positive_int_or per_day 5\<rparr>)"

record ticket_quota_verdict =
  qv_is_allowed :: bool
  qv_undescribed :: int
  qv_opened_today :: int
  qv_quota :: support_quota

definition is_holding_too_many :: "ticket_quota_verdict \<Rightarrow> bool" where
  "is_holding_too_many v = (qv_undescribed v \<ge> sq_max_undescribed (qv_quota v))"

definition is_over_daily :: "ticket_quota_verdict \<Rightarrow> bool" where
  "is_over_daily v = (qv_opened_today v \<ge> sq_max_per_day (qv_quota v))"

record event_author =
  ea_kind :: support_author_kind
  ea_admin_username :: "pystr option"
  ea_telegram_user_id :: "int option"
  ea_display_name :: "pystr option"

definition author_customer :: "int \<Rightarrow> event_author" where
  "author_customer uid = \<lparr>ea_kind = CUSTOMER, ea_admin_username = None, ea_telegram_user_id = Some uid,
     ea_display_name = None\<rparr>"

definition author_operator :: "pystr \<Rightarrow> event_author" where
  "author_operator username = \<lparr>ea_kind = OPERATOR, ea_admin_username = Some username,
     ea_telegram_user_id = None, ea_display_name = None\<rparr>"

definition author_staff_group :: "int \<Rightarrow> pystr option \<Rightarrow> event_author" where
  "author_staff_group uid display_name = \<lparr>ea_kind = STAFF_GROUP, ea_admin_username = None,
     ea_telegram_user_id = Some uid, ea_display_name = display_name\<rparr>"

definition author_system :: event_author where
  "author_system = \<lparr>ea_kind = SYSTEM, ea_admin_username = None, ea_telegram_user_id = None,
     ea_display_name = None\<rparr>"

record ticket_snapshot =
  ts_id :: uuid
  ts_public_ref :: pystr
  ts_telegram_user_id :: int
  ts_language :: language
  ts_source :: support_ticket_source
  ts_order_id :: "uuid option"
  ts_status :: support_ticket_status
  ts_body :: "pystr option"
  ts_prompt_message_id :: "int option"
  ts_described_at :: "instant option"
  ts_assigned_admin_username :: "pystr option"
  ts_group_chat_id :: "int option"
  ts_group_message_id :: "int option"
  ts_group_posted_at :: "instant option"
  ts_created_at :: instant

definition snapshot_of :: "support_ticket_row \<Rightarrow> ticket_snapshot" where
  "snapshot_of row = \<lparr>ts_id = st_id row, ts_public_ref = st_public_ref row,
     ts_telegram_user_id = st_telegram_user_id row, ts_language = st_language row,
     ts_source = st_source row, ts_order_id = st_order_id row, ts_status = st_status row,
     ts_body = st_body row, ts_prompt_message_id = st_prompt_message_id row,
     ts_described_at = st_described_at row, ts_assigned_admin_username = st_assigned_admin_username row,
     ts_group_chat_id = st_group_chat_id row, ts_group_message_id = st_group_message_id row,
     ts_group_posted_at = st_group_posted_at row, ts_created_at = st_created_at row\<rparr>"

definition is_described :: "ticket_snapshot \<Rightarrow> bool" where
  "is_described t = (ts_described_at t \<noteq> None)"

definition is_posted :: "ticket_snapshot \<Rightarrow> bool" where
  "is_posted t = (ts_group_message_id t \<noteq> None)"

section \<open>Reading\<close>

definition load_ticket :: "db \<Rightarrow> uuid \<Rightarrow> ticket_snapshot option" where
  "load_ticket d ticket_id = map_option snapshot_of (select_one st_id ticket_id (tickets d))"

definition require_ticket :: "ticket_snapshot option \<Rightarrow> db \<Rightarrow> (db, ticket_snapshot) outcome" where
  "require_ticket ticket d =
     (case ticket of
        None \<Rightarrow> Inl (Raised (StorageError ''a support ticket disappeared inside its own transaction''))
      | Some t \<Rightarrow> Inr (t, d))"

text \<open>\<^verbatim>\<open>ORDER BY created_at DESC, id DESC LIMIT 1\<close>.\<close>

definition latest_ticket :: "(support_ticket_row \<Rightarrow> bool) \<Rightarrow> db \<Rightarrow> ticket_snapshot option" where
  "latest_ticket p d =
     (case rev (sort_key (\<lambda>t. (st_created_at t, st_id t)) (filter p (tickets d))) of
        [] \<Rightarrow> None | t # _ \<Rightarrow> Some (snapshot_of t))"

definition find_latest_undescribed :: "db \<Rightarrow> int \<Rightarrow> ticket_snapshot option" where
  "find_latest_undescribed d uid = latest_ticket (\<lambda>t. st_telegram_user_id t = uid \<and> st_described_at t = None
     \<and> st_status t \<noteq> Ticket_RESOLVED) d"

definition find_by_prompt :: "db \<Rightarrow> int \<Rightarrow> int \<Rightarrow> ticket_snapshot option" where
  "find_by_prompt d uid prompt_message_id = latest_ticket (\<lambda>t. st_telegram_user_id t = uid
     \<and> st_prompt_message_id t = Some prompt_message_id) d"

definition find_by_group_message :: "db \<Rightarrow> int \<Rightarrow> int \<Rightarrow> ticket_snapshot option" where
  "find_by_group_message d group_chat_id group_message_id = map_option snapshot_of
     (select_one (\<lambda>t. (st_group_chat_id t, st_group_message_id t)) (Some group_chat_id, Some group_message_id)
        (tickets d))"

definition day_start :: "instant \<Rightarrow> instant" where
  "day_start now = (now div us_per_day) * us_per_day"

definition quota_verdict :: "db \<Rightarrow> int \<Rightarrow> instant \<Rightarrow> support_quota \<Rightarrow> ticket_quota_verdict" where
  "quota_verdict d uid now quota =
     (let held = int (rowcount (\<lambda>t. st_telegram_user_id t = uid \<and> st_described_at t = None
            \<and> st_status t \<noteq> Ticket_RESOLVED) (tickets d));
          today = int (rowcount (\<lambda>t. st_telegram_user_id t = uid \<and> st_created_at t \<ge> day_start now) (tickets d))
      in \<lparr>qv_is_allowed = held < sq_max_undescribed quota \<and> today < sq_max_per_day quota,
          qv_undescribed = held, qv_opened_today = today, qv_quota = quota\<rparr>)"

section \<open>Writing\<close>

definition mint_attempts :: nat where "mint_attempts = 5"

fun mint_from :: "db \<Rightarrow> uuid list \<Rightarrow> bayram_error + uuid \<times> pystr" where
  "mint_from d [] = Inl (StorageError ''could not mint an unused support reference'')"
| "mint_from d (candidate # rest) =
     (if select_one st_public_ref (public_ref_for candidate) (tickets d) = None
      then Inr (candidate, public_ref_for candidate) else mint_from d rest)"

definition mint_ticket_identity :: "db \<Rightarrow> uuid list \<Rightarrow> bayram_error + uuid \<times> pystr" where
  "mint_ticket_identity d candidates = mint_from d (take mint_attempts candidates)"

text \<open>The event names its ticket by a foreign key.\<close>

definition add_event ::
    "db \<Rightarrow> uuid \<Rightarrow> uuid \<Rightarrow> support_ticket_event_kind \<Rightarrow> event_author \<Rightarrow> instant \<Rightarrow> pystr option
      \<Rightarrow> support_ticket_status option \<Rightarrow> support_ticket_status option \<Rightarrow> (db, uuid) outcome" where
  "add_event d event_id ticket_id kind author now body from_status to_status =
     (if select_one st_id ticket_id (tickets d) = None \<or> select_one se_id event_id (ticket_events d) \<noteq> None
      then Inl IntegrityError
      else Inr (event_id, d\<lparr>ticket_events := ticket_events d @
        [\<lparr>se_id = event_id, se_ticket_id = ticket_id, se_kind = kind, se_author_kind = ea_kind author,
          se_author_admin_username = ea_admin_username author,
          se_author_telegram_user_id = ea_telegram_user_id author,
          se_author_display_name = ea_display_name author, se_from_status = from_status,
          se_to_status = to_status, se_body = body, se_relayed_at = None, se_created_at = now\<rparr>]\<rparr>))"

definition append_event ::
    "db \<Rightarrow> uuid \<Rightarrow> uuid \<Rightarrow> support_ticket_event_kind \<Rightarrow> event_author \<Rightarrow> instant \<Rightarrow> pystr option \<Rightarrow> (db, uuid) outcome" where
  "append_event d event_id ticket_id kind author now body =
     add_event d event_id ticket_id kind author now body None None"

definition open_ticket ::
    "db \<Rightarrow> uuid list \<Rightarrow> uuid \<Rightarrow> int \<Rightarrow> language \<Rightarrow> support_ticket_source \<Rightarrow> uuid option \<Rightarrow> instant
      \<Rightarrow> (db, ticket_snapshot) outcome" where
  "open_ticket d candidates event_id uid language source order now =
     (case mint_ticket_identity d candidates of
        Inl e \<Rightarrow> Inl (Raised e)
      | Inr (ticket_id, reference) \<Rightarrow>
         if select_one st_id ticket_id (tickets d) \<noteq> None then Inl IntegrityError
         else
           (let d = d\<lparr>tickets := tickets d @
                  [\<lparr>st_id = ticket_id, st_public_ref = reference, st_telegram_user_id = uid,
                    st_language = language, st_source = source, st_order_id = order, st_status = Ticket_NEW,
                    st_body = None, st_prompt_message_id = None, st_described_at = None,
                    st_assigned_admin_username = None, st_assigned_at = None, st_group_chat_id = None,
                    st_group_message_id = None, st_group_posted_at = None, st_resolved_at = None,
                    st_created_at = now, st_updated_at = now\<rparr>]\<rparr>
            in tx_then (append_event d event_id ticket_id Ticket_OPENED (author_customer uid) now None)
                 (\<lambda>_ d. require_ticket (load_ticket d ticket_id) d)))"

definition update_tickets ::
    "(support_ticket_row \<Rightarrow> bool) \<Rightarrow> (support_ticket_row \<Rightarrow> support_ticket_row) \<Rightarrow> db \<Rightarrow> bool \<times> db" where
  "update_tickets p f d = (rowcount p (tickets d) = 1, d\<lparr>tickets := sql_update p f (tickets d)\<rparr>)"

definition attach_prompt :: "db \<Rightarrow> uuid \<Rightarrow> int \<Rightarrow> instant \<Rightarrow> bool \<times> db" where
  "attach_prompt d ticket_id prompt_message_id now =
     update_tickets (\<lambda>t. st_id t = ticket_id \<and> st_prompt_message_id t = None)
       (\<lambda>t. t\<lparr>st_prompt_message_id := Some prompt_message_id, st_updated_at := now\<rparr>) d"

definition listen_on :: "db \<Rightarrow> uuid \<Rightarrow> int \<Rightarrow> instant \<Rightarrow> bool \<times> db" where
  "listen_on d ticket_id prompt_message_id now =
     update_tickets (\<lambda>t. st_id t = ticket_id)
       (\<lambda>t. t\<lparr>st_prompt_message_id := Some prompt_message_id, st_updated_at := now\<rparr>) d"

definition describe ::
    "db \<Rightarrow> uuid \<Rightarrow> uuid \<Rightarrow> pystr \<Rightarrow> instant \<Rightarrow> (db, ticket_snapshot option) outcome" where
  "describe d event_id ticket_id body now =
     (case update_tickets (\<lambda>t. st_id t = ticket_id \<and> st_described_at t = None)
             (\<lambda>t. t\<lparr>st_body := Some body, st_described_at := Some now, st_updated_at := now\<rparr>) d of
        (won, d) \<Rightarrow>
          if \<not> won then Inr (None, d)
          else tx_then (require_ticket (load_ticket d ticket_id) d) (\<lambda>ticket d.
            tx_then (append_event d event_id ticket_id Ticket_DESCRIBED
                       (author_customer (ts_telegram_user_id ticket)) now (Some body))
              (\<lambda>_ d. Inr (Some ticket, d))))"

text \<open>The unique index on the pair of the chat and the message refuses a pair another ticket holds.\<close>

definition claim_group_post :: "db \<Rightarrow> uuid \<Rightarrow> int \<Rightarrow> int \<Rightarrow> (db, bool) outcome" where
  "claim_group_post d ticket_id group_chat_id group_message_id =
     (let p = (\<lambda>t. st_id t = ticket_id \<and> st_group_message_id t = None)
      in if list_ex p (tickets d) \<and> list_ex (\<lambda>t. \<not> p t \<and> st_group_chat_id t = Some group_chat_id
              \<and> st_group_message_id t = Some group_message_id) (tickets d)
         then Inl IntegrityError
         else Inr (update_tickets p
           (\<lambda>t. t\<lparr>st_group_chat_id := Some group_chat_id, st_group_message_id := Some group_message_id\<rparr>) d))"

definition settle_group_post :: "db \<Rightarrow> uuid \<Rightarrow> uuid \<Rightarrow> instant \<Rightarrow> (db, bool) outcome" where
  "settle_group_post d event_id ticket_id now =
     (case update_tickets (\<lambda>t. st_id t = ticket_id \<and> st_group_message_id t \<noteq> None \<and> st_group_posted_at t = None)
             (\<lambda>t. t\<lparr>st_group_posted_at := Some now, st_updated_at := now\<rparr>) d of
        (won, d) \<Rightarrow>
          if \<not> won then Inr (False, d)
          else tx_then (append_event d event_id ticket_id Ticket_GROUP_POSTED author_system now None)
                 (\<lambda>_ d. Inr (True, d)))"

definition release_group_post :: "db \<Rightarrow> uuid \<Rightarrow> bool \<times> db" where
  "release_group_post d ticket_id =
     update_tickets (\<lambda>t. st_id t = ticket_id \<and> st_group_posted_at t = None)
       (\<lambda>t. t\<lparr>st_group_chat_id := None, st_group_message_id := None\<rparr>) d"

definition move_status ::
    "db \<Rightarrow> uuid \<Rightarrow> uuid \<Rightarrow> support_ticket_status \<Rightarrow> support_ticket_status \<Rightarrow> event_author \<Rightarrow> instant
      \<Rightarrow> (db, ticket_snapshot option) outcome" where
  "move_status d event_id ticket_id expected to_status author now =
     (if \<not> is_legal_move expected to_status
      then Inl (Raised (ValidationError ''that support status move is not allowed''))
      else
        (case update_tickets (\<lambda>t. st_id t = ticket_id \<and> st_status t = expected)
                (\<lambda>t. (if to_status = Ticket_RESOLVED then t\<lparr>st_resolved_at := Some now\<rparr> else t)
                       \<lparr>st_status := to_status, st_updated_at := now\<rparr>) d of
           (won, d) \<Rightarrow>
             if \<not> won then Inr (None, d)
             else tx_then (add_event d event_id ticket_id Ticket_STATUS_CHANGE author now None
                             (Some expected) (Some to_status))
               (\<lambda>_ d. tx_then (require_ticket (load_ticket d ticket_id) d) (\<lambda>t d. Inr (Some t, d)))))"

definition assign ::
    "db \<Rightarrow> uuid \<Rightarrow> uuid \<Rightarrow> pystr \<Rightarrow> event_author \<Rightarrow> instant \<Rightarrow> (db, ticket_snapshot option) outcome" where
  "assign d event_id ticket_id admin_username author now =
     (case update_tickets (\<lambda>t. st_id t = ticket_id)
             (\<lambda>t. t\<lparr>st_assigned_admin_username := Some admin_username, st_assigned_at := Some now,
                    st_updated_at := now\<rparr>) d of
        (won, d) \<Rightarrow>
          if \<not> won then Inr (None, d)
          else tx_then (add_event d event_id ticket_id Ticket_ASSIGNED author now None None None)
            (\<lambda>_ d. tx_then (require_ticket (load_ticket d ticket_id) d) (\<lambda>t d. Inr (Some t, d))))"

definition mark_relayed :: "db \<Rightarrow> uuid \<Rightarrow> instant \<Rightarrow> bool \<times> db" where
  "mark_relayed d event_id now =
     (let p = (\<lambda>e. se_id e = event_id \<and> se_relayed_at e = None)
      in (rowcount p (ticket_events d) = 1,
          d\<lparr>ticket_events := sql_update p (\<lambda>e. e\<lparr>se_relayed_at := Some now\<rparr>) (ticket_events d)\<rparr>))"

end
