(* ===== verification/Support_Store.thy ===== *)
theory Support_Store
  imports Support
begin

text \<open>
  The support store \<^verbatim>\<open>SqlSupportTickets\<close> (\<^verbatim>\<open>src/src/bayram/db/support_tickets.py\<close>): every method is one statement
  function of \<^verbatim>\<open>Support\<close> inside one guarded transaction. Then every run of the store, the erasure and
  the writers of other tables included, and the invariant of the desk: the keys of the schema, the
  latches of each row, and each ticket's status as the replay of its history of legal moves.
\<close>

section \<open>The store\<close>

definition in_session ::
    "string \<Rightarrow> (db \<Rightarrow> (db, 'a) outcome) \<Rightarrow> db \<Rightarrow> db \<times> (bayram_error + 'a)" where
  "in_session operation work = run_guarded operation (\<lambda>d. returning (work d))"

definition desk_check_open_quota ::
    "support_quota \<Rightarrow> int \<Rightarrow> instant \<Rightarrow> support_quota option \<Rightarrow> db \<Rightarrow> db \<times> (bayram_error + ticket_quota_verdict)" where
  "desk_check_open_quota own uid now quota =
     in_session ''support_check_open_quota''
       (\<lambda>d. Inr (quota_verdict d uid now (case quota of None \<Rightarrow> own | Some q \<Rightarrow> q), d))"

definition desk_open_ticket ::
    "uuid list \<Rightarrow> uuid \<Rightarrow> int \<Rightarrow> language \<Rightarrow> support_ticket_source \<Rightarrow> uuid option \<Rightarrow> instant \<Rightarrow> db
      \<Rightarrow> db \<times> (bayram_error + ticket_snapshot)" where
  "desk_open_ticket candidates event_id uid language source order now =
     in_session ''support_open_ticket'' (\<lambda>d. open_ticket d candidates event_id uid language source order now)"

definition desk_attach_prompt :: "uuid \<Rightarrow> int \<Rightarrow> instant \<Rightarrow> db \<Rightarrow> db \<times> (bayram_error + bool)" where
  "desk_attach_prompt ticket_id prompt_message_id now =
     in_session ''support_attach_prompt'' (\<lambda>d. Inr (attach_prompt d ticket_id prompt_message_id now))"

definition desk_listen_on :: "uuid \<Rightarrow> int \<Rightarrow> instant \<Rightarrow> db \<Rightarrow> db \<times> (bayram_error + bool)" where
  "desk_listen_on ticket_id prompt_message_id now =
     in_session ''support_listen_on'' (\<lambda>d. Inr (listen_on d ticket_id prompt_message_id now))"

definition desk_latest_undescribed_ticket :: "int \<Rightarrow> db \<Rightarrow> db \<times> (bayram_error + ticket_snapshot option)" where
  "desk_latest_undescribed_ticket uid =
     in_session ''support_latest_undescribed_ticket'' (\<lambda>d. Inr (find_latest_undescribed d uid, d))"

definition desk_ticket_listening_on :: "int \<Rightarrow> int \<Rightarrow> db \<Rightarrow> db \<times> (bayram_error + ticket_snapshot option)" where
  "desk_ticket_listening_on uid prompt_message_id =
     in_session ''support_ticket_listening_on'' (\<lambda>d. Inr (find_by_prompt d uid prompt_message_id, d))"

definition desk_describe_ticket ::
    "uuid \<Rightarrow> uuid \<Rightarrow> pystr \<Rightarrow> instant \<Rightarrow> db \<Rightarrow> db \<times> (bayram_error + ticket_snapshot option)" where
  "desk_describe_ticket event_id ticket_id body now =
     in_session ''support_describe_ticket'' (\<lambda>d. describe d event_id ticket_id body now)"

definition desk_claim_group_post :: "uuid \<Rightarrow> int \<Rightarrow> int \<Rightarrow> db \<Rightarrow> db \<times> (bayram_error + bool)" where
  "desk_claim_group_post ticket_id group_chat_id group_message_id =
     in_session ''support_claim_group_post'' (\<lambda>d. claim_group_post d ticket_id group_chat_id group_message_id)"

definition desk_settle_group_post :: "uuid \<Rightarrow> uuid \<Rightarrow> instant \<Rightarrow> db \<Rightarrow> db \<times> (bayram_error + bool)" where
  "desk_settle_group_post event_id ticket_id now =
     in_session ''support_settle_group_post'' (\<lambda>d. settle_group_post d event_id ticket_id now)"

definition desk_release_group_post :: "uuid \<Rightarrow> db \<Rightarrow> db \<times> (bayram_error + bool)" where
  "desk_release_group_post ticket_id =
     in_session ''support_release_group_post'' (\<lambda>d. Inr (release_group_post d ticket_id))"

definition desk_ticket_for_group_message :: "int \<Rightarrow> int \<Rightarrow> db \<Rightarrow> db \<times> (bayram_error + ticket_snapshot option)" where
  "desk_ticket_for_group_message group_chat_id group_message_id =
     in_session ''support_ticket_for_group_message''
       (\<lambda>d. Inr (find_by_group_message d group_chat_id group_message_id, d))"

definition desk_move_status ::
    "uuid \<Rightarrow> uuid \<Rightarrow> support_ticket_status \<Rightarrow> support_ticket_status \<Rightarrow> event_author \<Rightarrow> instant \<Rightarrow> db
      \<Rightarrow> db \<times> (bayram_error + ticket_snapshot option)" where
  "desk_move_status event_id ticket_id expected to_status author now =
     in_session ''support_move_status'' (\<lambda>d. move_status d event_id ticket_id expected to_status author now)"

definition desk_assign_ticket ::
    "uuid \<Rightarrow> uuid \<Rightarrow> pystr \<Rightarrow> event_author \<Rightarrow> instant \<Rightarrow> db \<Rightarrow> db \<times> (bayram_error + ticket_snapshot option)" where
  "desk_assign_ticket event_id ticket_id admin_username author now =
     in_session ''support_assign_ticket'' (\<lambda>d. assign d event_id ticket_id admin_username author now)"

definition desk_append_event ::
    "uuid \<Rightarrow> uuid \<Rightarrow> support_ticket_event_kind \<Rightarrow> event_author \<Rightarrow> instant \<Rightarrow> pystr option \<Rightarrow> db
      \<Rightarrow> db \<times> (bayram_error + uuid)" where
  "desk_append_event event_id ticket_id kind author now body =
     in_session ''support_append_event'' (\<lambda>d. append_event d event_id ticket_id kind author now body)"

definition desk_mark_relayed :: "uuid \<Rightarrow> instant \<Rightarrow> db \<Rightarrow> db \<times> (bayram_error + bool)" where
  "desk_mark_relayed event_id now = in_session ''support_mark_relayed'' (\<lambda>d. Inr (mark_relayed d event_id now))"

definition desk_load_ticket :: "uuid \<Rightarrow> db \<Rightarrow> db \<times> (bayram_error + ticket_snapshot option)" where
  "desk_load_ticket ticket_id = in_session ''support_load_ticket'' (\<lambda>d. Inr (load_ticket d ticket_id, d))"

section \<open>Every run of the desk\<close>

text \<open>
  The panel composes the same statements into its own transactions, so its moves are the same steps;
  a step elsewhere leaves both support tables alone.
\<close>

inductive desk_step :: "db \<Rightarrow> db \<Rightarrow> bool" where
  open_ticket: "desk_step d (fst (desk_open_ticket candidates event_id uid lang source order now d))"
| attach: "desk_step d (fst (desk_attach_prompt tid msg now d))"
| listen: "desk_step d (fst (desk_listen_on tid msg now d))"
| describe: "desk_step d (fst (desk_describe_ticket event_id tid body now d))"
| claim: "desk_step d (fst (desk_claim_group_post tid chat msg d))"
| settle: "desk_step d (fst (desk_settle_group_post event_id tid now d))"
| release: "desk_step d (fst (desk_release_group_post tid d))"
| move: "desk_step d (fst (desk_move_status event_id tid expected to_status author now d))"
| assign: "desk_step d (fst (desk_assign_ticket event_id tid username author now d))"
| append: "desk_step d (fst (desk_append_event event_id tid kind author now text d))"
| relayed: "desk_step d (fst (desk_mark_relayed event_id now d))"
| forget: "desk_step d (store_forget uid d)"
| elsewhere: "tickets d' = tickets d \<Longrightarrow> ticket_events d' = ticket_events d \<Longrightarrow> desk_step d d'"

inductive desk_reachable :: "db \<Rightarrow> bool" where
  start: "desk_reachable empty_db"
| step: "desk_reachable d \<Longrightarrow> desk_step d d' \<Longrightarrow> desk_reachable d'"

section \<open>The invariant\<close>

text \<open>The moves the timeline records for a ticket, oldest first, and a run of legal moves.\<close>

definition status_log :: "db \<Rightarrow> uuid \<Rightarrow> (support_ticket_status option \<times> support_ticket_status option) list" where
  "status_log d ticket_id = map (\<lambda>e. (se_from_status e, se_to_status e))
     (filter (\<lambda>e. se_ticket_id e = ticket_id \<and> se_to_status e \<noteq> None) (ticket_events d))"

fun follows :: "support_ticket_status \<Rightarrow> (support_ticket_status option \<times> support_ticket_status option) list
    \<Rightarrow> support_ticket_status \<Rightarrow> bool" where
  "follows s [] t \<longleftrightarrow> s = t"
| "follows s ((a, b) # es) t \<longleftrightarrow> a = Some s \<and>
     (case b of None \<Rightarrow> False | Some u \<Rightarrow> is_legal_move s u \<and> follows u es t)"

definition ticket_ok :: "support_ticket_row \<Rightarrow> bool" where
  "ticket_ok t \<longleftrightarrow> st_public_ref t = public_ref_for (st_id t) \<and> (st_body t = None \<longleftrightarrow> st_described_at t = None)
     \<and> (st_group_chat_id t = None \<longleftrightarrow> st_group_message_id t = None)
     \<and> (st_group_posted_at t \<noteq> None \<longrightarrow> st_group_message_id t \<noteq> None)
     \<and> (st_status t = Ticket_RESOLVED \<longrightarrow> st_resolved_at t \<noteq> None)"

definition same_post :: "support_ticket_row \<Rightarrow> support_ticket_row \<Rightarrow> bool" where
  "same_post t u \<longleftrightarrow> st_group_message_id t \<noteq> None \<and> st_group_message_id t = st_group_message_id u
     \<and> st_group_chat_id t = st_group_chat_id u"

definition desk_ok :: "db \<Rightarrow> bool" where
  "desk_ok d \<longleftrightarrow> distinct (map st_id (tickets d))
     \<and> (\<forall>t \<in> set (tickets d). \<forall>u \<in> set (tickets d). same_post t u \<longrightarrow> st_id t = st_id u)
     \<and> (\<forall>e \<in> set (ticket_events d). \<exists>t \<in> set (tickets d). st_id t = se_ticket_id e)
     \<and> (\<forall>t \<in> set (tickets d). ticket_ok t \<and> follows Ticket_NEW (status_log d (st_id t)) (st_status t))"

lemma follows_snoc:
  "follows s es u \<Longrightarrow> is_legal_move u v \<Longrightarrow> follows s (es @ [(Some u, Some v)]) v"
  by (induction s es u rule: follows.induct) (auto split: option.splits)

lemma desk_okD:
  assumes "desk_ok d" "t \<in> set (tickets d)"
  shows "ticket_ok t" "follows Ticket_NEW (status_log d (st_id t)) (st_status t)"
    and "u \<in> set (tickets d) \<Longrightarrow> st_id u = st_id t \<Longrightarrow> u = t"
    and "select_one st_id (st_id t) (tickets d) = Some t"
  using assms by (auto simp: desk_ok_def inj_on_def distinct_map intro: select_one_self)

text \<open>A write that touches the tickets of one id, keeping their keys and their status.\<close>

lemma desk_ok_update:
  assumes ok: "desk_ok d"
    and id: "\<And>t. st_id (f t) = st_id t" "\<And>t. st_public_ref (f t) = st_public_ref t"
    and status: "\<And>t. st_status (f t) = st_status t"
    and row: "\<And>t. t \<in> set (tickets d) \<Longrightarrow> p t \<Longrightarrow> ticket_ok (f t)"
    and post: "\<And>t u. \<lbrakk>t \<in> set (tickets d); u \<in> set (tickets d); p t; same_post (f t) (if p u then f u else u)\<rbrakk> \<Longrightarrow> st_id t = st_id u"
    and sym: "\<And>t u. \<lbrakk>t \<in> set (tickets d); u \<in> set (tickets d); p u; \<not> p t; same_post t (f u)\<rbrakk> \<Longrightarrow> st_id t = st_id u"
  shows "desk_ok (d\<lparr>tickets := sql_update p f (tickets d)\<rparr>)"
  unfolding desk_ok_def
proof (intro conjI)
  show "distinct (map st_id (tickets (d\<lparr>tickets := sql_update p f (tickets d)\<rparr>)))"
    using ok id by (simp add: desk_ok_def)
  show "\<forall>e \<in> set (ticket_events (d\<lparr>tickets := sql_update p f (tickets d)\<rparr>)).
      \<exists>t \<in> set (tickets (d\<lparr>tickets := sql_update p f (tickets d)\<rparr>)). st_id t = se_ticket_id e"
  proof
    fix e assume "e \<in> set (ticket_events (d\<lparr>tickets := sql_update p f (tickets d)\<rparr>))"
    with ok obtain t where t: "t \<in> set (tickets d)" "st_id t = se_ticket_id e" by (auto simp: desk_ok_def)
    then have "(if p t then f t else t) \<in> set (tickets (d\<lparr>tickets := sql_update p f (tickets d)\<rparr>))"
      by (simp add: set_sql_update)
    with t id show "\<exists>t \<in> set (tickets (d\<lparr>tickets := sql_update p f (tickets d)\<rparr>)). st_id t = se_ticket_id e"
      by (metis (full_types))
  qed
  have "status_log (d\<lparr>tickets := x\<rparr>) = status_log d" for x by (simp add: status_log_def fun_eq_iff)
  then show "\<forall>t \<in> set (tickets (d\<lparr>tickets := sql_update p f (tickets d)\<rparr>)). ticket_ok t
      \<and> follows Ticket_NEW (status_log (d\<lparr>tickets := sql_update p f (tickets d)\<rparr>) (st_id t)) (st_status t)"
    using ok id status row by (auto simp: desk_ok_def set_sql_update)
  show "\<forall>t \<in> set (tickets (d\<lparr>tickets := sql_update p f (tickets d)\<rparr>)).
      \<forall>u \<in> set (tickets (d\<lparr>tickets := sql_update p f (tickets d)\<rparr>)). same_post t u \<longrightarrow> st_id t = st_id u"
  proof (intro ballI impI)
    fix t' u'
    assume "t' \<in> set (tickets (d\<lparr>tickets := sql_update p f (tickets d)\<rparr>))"
      and "u' \<in> set (tickets (d\<lparr>tickets := sql_update p f (tickets d)\<rparr>))" and same: "same_post t' u'"
    then obtain t u where t: "t \<in> set (tickets d)" "t' = (if p t then f t else t)"
      and u: "u \<in> set (tickets d)" "u' = (if p u then f u else u)"
      by (auto simp: set_sql_update)
    have old: "same_post t u \<Longrightarrow> st_id t = st_id u" using ok t(1) u(1) by (simp add: desk_ok_def)
    show "st_id t' = st_id u'"
      using t u same old post [of t u] sym [of t u] id by (cases "p t"; cases "p u"; simp)
  qed
qed

lemma desk_ok_event:
  assumes "desk_ok d" "add_event d event_id tid kind author now body None to_status = Inr (k, d')" "to_status = None"
  shows "desk_ok d'"
proof -
  from assms(2,3) obtain e where e: "d' = d\<lparr>ticket_events := ticket_events d @ [e]\<rparr>" "se_ticket_id e = tid"
      "se_to_status e = None" and t: "\<exists>t \<in> set (tickets d). st_id t = tid"
    by (auto simp: add_event_def select_one_None_iff split: if_splits)
  have "status_log d' v = status_log d v" for v using e by (simp add: status_log_def)
  then show ?thesis using assms(1) t e(1,2) by (simp add: desk_ok_def)
qed

lemma append_event_ok: "desk_ok d \<Longrightarrow> append_event d event_id tid kind author now body = Inr (k, d') \<Longrightarrow> desk_ok d'"
  unfolding append_event_def by (erule desk_ok_event) simp_all

lemma same_post_frame:
  assumes "\<And>t. st_group_message_id (f t) = st_group_message_id t" "\<And>t. st_group_chat_id (f t) = st_group_chat_id t"
  shows "same_post (f t) u = same_post t u" "same_post u (f t) = same_post u t"
  using assms by (simp_all add: same_post_def)

text \<open>Most writes leave the post of the row alone.\<close>

lemma desk_ok_plain_update:
  assumes ok: "desk_ok d"
    and "\<And>t. st_id (f t) = st_id t" "\<And>t. st_public_ref (f t) = st_public_ref t" "\<And>t. st_status (f t) = st_status t"
    and post: "\<And>t. st_group_message_id (f t) = st_group_message_id t" "\<And>t. st_group_chat_id (f t) = st_group_chat_id t"
    and "\<And>t. t \<in> set (tickets d) \<Longrightarrow> p t \<Longrightarrow> ticket_ok (f t)"
  shows "desk_ok (d\<lparr>tickets := sql_update p f (tickets d)\<rparr>)"
proof (rule desk_ok_update)
  have "same_post t u \<Longrightarrow> st_id t = st_id u" if "t \<in> set (tickets d)" "u \<in> set (tickets d)" for t u
    using ok that by (simp add: desk_ok_def)
  then show "st_id t = st_id u"
    if "t \<in> set (tickets d)" "u \<in> set (tickets d)" "p t" "same_post (f t) (if p u then f u else u)" for t u
    using that by (auto simp: same_post_frame [of f, OF post] split: if_splits)
  show "st_id t = st_id u" if "t \<in> set (tickets d)" "u \<in> set (tickets d)" "p u" "\<not> p t" "same_post t (f u)" for t u
    using that ok by (simp add: same_post_frame [of f, OF post] desk_ok_def)
qed (use assms in auto)

end
