(* ===== verification/Support_Claims.thy ===== *)
theory Support_Claims
  imports Support_Store
begin

text \<open>
  The properties of the support desk: every operation keeps its invariant, the status is the replay of the
  timeline, a move is a compare-and-swap, a described or posted ticket stays so, a reply in the staff group
  finds the one ticket whose card it answers, and the quota is exact.
\<close>

section \<open>Every operation keeps the invariant\<close>

lemma in_session_Inr: "in_session op work d = (d', Inr a) \<longleftrightarrow> work d = Inr (a, d')"
  by (simp add: in_session_def run_guarded_returning_Inr)

lemma in_session_cases: "fst (in_session op work d) = d \<or> (\<exists>a. work d = Inr (a, fst (in_session op work d)))"
  by (cases "work d") (auto simp: in_session_def run_guarded_def split: sum.splits exn.splits)

lemma in_session_keeps: "(\<And>a d'. work d = Inr (a, d') \<Longrightarrow> P d') \<Longrightarrow> P d \<Longrightarrow> P (fst (in_session op work d))"
  using in_session_cases [of op work d] by auto

lemma in_session_total_keeps: "P (snd (work d)) \<Longrightarrow> P (fst (in_session op (\<lambda>d. Inr (work d)) d))"
  by (cases "work d") (simp add: in_session_def run_guarded_def)

lemma add_event_Inr:
  assumes "add_event d event_id tid kind author now body from_status to_status = Inr (k, d')"
  shows "tickets d' = tickets d"
    and "status_log d' v = status_log d v @ (if v = tid \<and> to_status \<noteq> None then [(from_status, to_status)] else [])"
    and "\<exists>t \<in> set (tickets d). st_id t = tid"
    and "set (ticket_events d') \<subseteq> set (ticket_events d) \<union> {e. se_ticket_id e = tid}"
  using assms by (auto simp: add_event_def status_log_def select_one_None_iff split: if_splits)

lemma require_ticket_Inr: "require_ticket x d = Inr (t, d') \<longleftrightarrow> d' = d \<and> x = Some t"
  by (auto simp: require_ticket_def split: option.splits)

lemma mint_from_Inr:
  "mint_from d cs = Inr (tid, ref) \<Longrightarrow> ref = public_ref_for tid \<and> select_one st_public_ref ref (tickets d) = None"
  by (induction d cs rule: mint_from.induct) (auto split: if_splits)

lemma open_ticket_Inr:
  assumes "open_ticket d candidates event_id uid lang source order now = Inr (t, d')"
  obtains tid d1 k where "select_one st_id tid (tickets d) = None"
    and "select_one st_public_ref (public_ref_for tid) (tickets d) = None"
    and "d1 = d\<lparr>tickets := tickets d @ [\<lparr>st_id = tid, st_public_ref = public_ref_for tid, st_telegram_user_id = uid,
         st_language = lang, st_source = source, st_order_id = order, st_status = Ticket_NEW,
         st_body = None, st_prompt_message_id = None, st_described_at = None,
         st_assigned_admin_username = None, st_assigned_at = None, st_group_chat_id = None,
         st_group_message_id = None, st_group_posted_at = None, st_resolved_at = None,
         st_created_at = now, st_updated_at = now\<rparr>]\<rparr>"
    and "append_event d1 event_id tid Ticket_OPENED (author_customer uid) now None = Inr (k, d')"
    and "load_ticket d' tid = Some t"
  using assms mint_from_Inr unfolding open_ticket_def mint_ticket_identity_def
  by (fastforce simp: Let_def require_ticket_Inr tx_then_eq_Inr split: sum.splits if_splits)

lemma open_ticket_ok:
  assumes "desk_ok d" "open_ticket d candidates event_id uid lang source order now = Inr (t, d')"
  shows "desk_ok d'"
  using assms(2)
proof (rule open_ticket_Inr)
  fix tid d1 k
  assume fresh: "select_one st_id tid (tickets d) = None"
    and d1: "d1 = d\<lparr>tickets := tickets d @ [\<lparr>st_id = tid, st_public_ref = public_ref_for tid, st_telegram_user_id = uid,
         st_language = lang, st_source = source, st_order_id = order, st_status = Ticket_NEW,
         st_body = None, st_prompt_message_id = None, st_described_at = None,
         st_assigned_admin_username = None, st_assigned_at = None, st_group_chat_id = None,
         st_group_message_id = None, st_group_posted_at = None, st_resolved_at = None,
         st_created_at = now, st_updated_at = now\<rparr>]\<rparr>"
    and a: "append_event d1 event_id tid Ticket_OPENED (author_customer uid) now None = Inr (k, d')"
  have "status_log d tid = []"
    using assms(1) fresh by (fastforce simp: status_log_def desk_ok_def select_one_None_iff filter_empty_conv)
  moreover have "status_log d1 = status_log d" by (simp add: d1 status_log_def fun_eq_iff)
  ultimately have "desk_ok d1"
    using assms(1) fresh by (auto simp: d1 desk_ok_def ticket_ok_def same_post_def select_one_None_iff)
  then show ?thesis using a by (rule append_event_ok)
qed

text \<open>The writes that keep status and post.\<close>

lemma update_tickets_eq: "update_tickets p f d = (w, d') \<longleftrightarrow>
    w = (rowcount p (tickets d) = 1) \<and> d' = d\<lparr>tickets := sql_update p f (tickets d)\<rparr>"
  by (auto simp: update_tickets_def)

lemma relayed_log:
  "map (\<lambda>e. (se_from_status e, se_to_status e)) (filter (\<lambda>e. se_ticket_id e = v \<and> q (se_to_status e))
      (sql_update p (se_relayed_at_update f) es))
     = map (\<lambda>e. (se_from_status e, se_to_status e)) (filter (\<lambda>e. se_ticket_id e = v \<and> q (se_to_status e)) es)"
  by (induction es) (auto simp: sql_update_def)

lemma plain_writes_ok:
  assumes "desk_ok d"
  shows "desk_ok (snd (attach_prompt d tid msg now))" and "desk_ok (snd (listen_on d tid msg now))"
    and "desk_ok (snd (mark_relayed d event_id now))"
proof -
  show "desk_ok (snd (attach_prompt d tid msg now))" "desk_ok (snd (listen_on d tid msg now))"
    unfolding attach_prompt_def listen_on_def update_tickets_def snd_conv
    by (rule desk_ok_plain_update [OF assms]; use desk_okD(1) [OF assms] in \<open>simp add: ticket_ok_def\<close>)+
  have "status_log (snd (mark_relayed d event_id now)) v = status_log d v" for v
    unfolding status_log_def mark_relayed_def Let_def snd_conv by (simp add: relayed_log [where q = "\<lambda>x. x \<noteq> None", simplified])
  then show "desk_ok (snd (mark_relayed d event_id now))"
    using assms by (auto simp: desk_ok_def mark_relayed_def Let_def set_sql_update)
qed

lemma release_group_post_ok:
  assumes ok: "desk_ok d"
  shows "desk_ok (snd (release_group_post d tid))"
  unfolding release_group_post_def update_tickets_def snd_conv
  by (rule desk_ok_update [OF ok])
    (use desk_okD(1) [OF ok] in \<open>auto simp: ticket_ok_def same_post_def\<close>)

lemma describe_ok:
  assumes ok: "desk_ok d" and r: "describe d event_id tid text now = Inr (t, d')"
  shows "desk_ok d'"
proof -
  have 1: "desk_ok (d\<lparr>tickets := sql_update (\<lambda>t. st_id t = tid \<and> st_described_at t = None)
      (\<lambda>t. t\<lparr>st_body := Some text, st_described_at := Some now, st_updated_at := now\<rparr>) (tickets d)\<rparr>)"
    by (rule desk_ok_plain_update [OF ok]; use desk_okD(1) [OF ok] in \<open>simp add: ticket_ok_def\<close>)
  with r show ?thesis
    by (auto simp: describe_def update_tickets_def require_ticket_Inr tx_then_eq_Inr split: if_splits intro: append_event_ok)
qed

lemma assign_ok:
  assumes ok: "desk_ok d" and r: "assign d event_id tid username author now = Inr (t, d')"
  shows "desk_ok d'"
proof -
  have 1: "desk_ok (d\<lparr>tickets := sql_update (\<lambda>t. st_id t = tid)
      (\<lambda>t. t\<lparr>st_assigned_admin_username := Some username, st_assigned_at := Some now, st_updated_at := now\<rparr>) (tickets d)\<rparr>)"
    by (rule desk_ok_plain_update [OF ok]; use desk_okD(1) [OF ok] in \<open>simp add: ticket_ok_def\<close>)
  with r show ?thesis
    by (auto simp: assign_def update_tickets_def require_ticket_Inr tx_then_eq_Inr split: if_splits intro: desk_ok_event)
qed

lemma settle_group_post_ok:
  assumes ok: "desk_ok d" and r: "settle_group_post d event_id tid now = Inr (t, d')"
  shows "desk_ok d'"
proof -
  have 1: "desk_ok (d\<lparr>tickets := sql_update (\<lambda>t. st_id t = tid \<and> st_group_message_id t \<noteq> None \<and> st_group_posted_at t = None)
      (\<lambda>t. t\<lparr>st_group_posted_at := Some now, st_updated_at := now\<rparr>) (tickets d)\<rparr>)"
    by (rule desk_ok_plain_update [OF ok]; use desk_okD(1) [OF ok] in \<open>simp add: ticket_ok_def\<close>)
  with r show ?thesis
    by (auto simp: settle_group_post_def update_tickets_def tx_then_eq_Inr split: if_splits intro: append_event_ok)
qed

lemma claim_group_post_ok:
  assumes ok: "desk_ok d" and r: "claim_group_post d tid chat msg = Inr (w, d')"
  shows "desk_ok d'"
proof -
  let ?p = "\<lambda>t. st_id t = tid \<and> st_group_message_id t = None"
  let ?f = "\<lambda>t. t\<lparr>st_group_chat_id := Some chat, st_group_message_id := Some msg\<rparr>"
  have free: "\<not> (st_group_chat_id u = Some chat \<and> st_group_message_id u = Some msg)"
    if "t \<in> set (tickets d)" "?p t" "u \<in> set (tickets d)" "\<not> ?p u" for t u
    using r that unfolding claim_group_post_def Let_def list_ex_iff by (auto split: if_splits)
  have d': "d' = d\<lparr>tickets := sql_update ?p ?f (tickets d)\<rparr>"
    using r by (simp add: claim_group_post_def Let_def update_tickets_def split: if_splits)
  show ?thesis unfolding d'
  proof (rule desk_ok_update [OF ok])
    show "st_id t = st_id u" if "t \<in> set (tickets d)" "u \<in> set (tickets d)" "?p t" "same_post (?f t) (if ?p u then ?f u else u)" for t u
      using that free [of t u] by (auto simp: same_post_def split: if_splits)
    show "st_id t = st_id u" if "t \<in> set (tickets d)" "u \<in> set (tickets d)" "?p u" "\<not> ?p t" "same_post t (?f u)" for t u
      using that free [of u t] by (auto simp: same_post_def)
  qed (use desk_okD(1) [OF ok] in \<open>auto simp: ticket_ok_def\<close>)
qed

text \<open>A won move: exactly what it writes.\<close>

lemma move_status_Inr:
  assumes "move_status d event_id tid expected to_status author now = Inr (r, d')" and ok: "desk_ok d"
  shows "is_legal_move expected to_status"
    and "r = None \<Longrightarrow> d' = d \<and> (\<forall>t \<in> set (tickets d). st_id t = tid \<longrightarrow> st_status t \<noteq> expected)"
    and "r = Some s \<Longrightarrow> (\<exists>t \<in> set (tickets d). st_id t = tid \<and> st_status t = expected)
      \<and> tickets d' = sql_update (\<lambda>t. st_id t = tid \<and> st_status t = expected)
           (\<lambda>t. (if to_status = Ticket_RESOLVED then t\<lparr>st_resolved_at := Some now\<rparr> else t)
              \<lparr>st_status := to_status, st_updated_at := now\<rparr>) (tickets d)
      \<and> status_log d' v = status_log d v @ (if v = tid then [(Some expected, Some to_status)] else [])
      \<and> set (ticket_events d') \<subseteq> set (ticket_events d) \<union> {e. se_ticket_id e = tid}
      \<and> load_ticket d' tid = Some s"
proof -
  let ?p = "\<lambda>t. st_id t = tid \<and> st_status t = expected"
  let ?f = "\<lambda>t. (if to_status = Ticket_RESOLVED then t\<lparr>st_resolved_at := Some now\<rparr> else t)
              \<lparr>st_status := to_status, st_updated_at := now\<rparr>"
  show legal: "is_legal_move expected to_status"
    using assms(1) by (simp add: move_status_def split: if_splits)
  have dist: "distinct (map st_id (tickets d))" using ok by (simp add: desk_ok_def)
  have cnt: "rowcount ?p (tickets d) = 1 \<longleftrightarrow> (\<exists>t \<in> set (tickets d). ?p t)"
    using desk_okD(3,4) [OF ok] by (auto simp: rowcount_key [OF dist] split: option.splits dest: select_one_SomeD)
  have run: "(if \<not> rowcount ?p (tickets d) = 1 then Inr (None, d\<lparr>tickets := sql_update ?p ?f (tickets d)\<rparr>)
      else tx_then (add_event (d\<lparr>tickets := sql_update ?p ?f (tickets d)\<rparr>) event_id tid Ticket_STATUS_CHANGE author now None
             (Some expected) (Some to_status))
         (\<lambda>_ d. tx_then (require_ticket (load_ticket d tid) d) (\<lambda>t d. Inr (Some t, d)))) = Inr (r, d')"
    using assms(1) legal by (simp add: move_status_def update_tickets_def)
  show "d' = d \<and> (\<forall>t \<in> set (tickets d). st_id t = tid \<longrightarrow> st_status t \<noteq> expected)" if "r = None"
    using run that cnt sql_update_none [of "tickets d" ?p ?f]
    by (auto simp: tx_then_eq_Inr split: if_splits)
  show "(\<exists>t \<in> set (tickets d). st_id t = tid \<and> st_status t = expected)
      \<and> tickets d' = sql_update ?p ?f (tickets d)
      \<and> status_log d' v = status_log d v @ (if v = tid then [(Some expected, Some to_status)] else [])
      \<and> set (ticket_events d') \<subseteq> set (ticket_events d) \<union> {e. se_ticket_id e = tid}
      \<and> load_ticket d' tid = Some s" if got: "r = Some s"
  proof -
    let ?d = "d\<lparr>tickets := sql_update ?p ?f (tickets d)\<rparr>"
    have won: "rowcount ?p (tickets d) = 1" using run got by (auto split: if_splits)
    then obtain k where a: "add_event ?d event_id tid Ticket_STATUS_CHANGE author now None
        (Some expected) (Some to_status) = Inr (k, d')" and l: "load_ticket d' tid = Some s"
      using run got by (auto simp: tx_then_eq_Inr require_ticket_Inr)
    have "status_log ?d v = status_log d v" by (simp add: status_log_def)
    then show ?thesis using add_event_Inr(1,4) [OF a] add_event_Inr(2) [OF a, of v] l won cnt by auto
  qed
qed

lemma same_post_move:
  "same_post (if P then (if Q then t\<lparr>st_resolved_at := x\<rparr> else t)\<lparr>st_status := s, st_updated_at := n\<rparr> else t) u
     = same_post t u"
  "same_post t (if P then (if Q then u\<lparr>st_resolved_at := x\<rparr> else u)\<lparr>st_status := s, st_updated_at := n\<rparr> else u)
     = same_post t u"
  by (simp_all add: same_post_def)

lemma move_status_ok:
  assumes "move_status d event_id tid expected to_status author now = Inr (r, d')" and ok: "desk_ok d"
  shows "desk_ok d'"
proof (cases r)
  case None
  with move_status_Inr(2) [OF assms] ok show ?thesis by simp
next
  case (Some s)
  let ?p = "\<lambda>t. st_id t = tid \<and> st_status t = expected"
  let ?f = "\<lambda>t. (if to_status = Ticket_RESOLVED then t\<lparr>st_resolved_at := Some now\<rparr> else t)
              \<lparr>st_status := to_status, st_updated_at := now\<rparr>"
  note m = move_status_Inr(3) [OF assms Some]
  have legal: "is_legal_move expected to_status" by (rule move_status_Inr(1) [OF assms])
  have T: "tickets d' = sql_update ?p ?f (tickets d)" using m by blast
  have keep: "st_id (?f t) = st_id t" "same_post (?f t) u = same_post t u" "same_post u (?f t) = same_post u t" for t u
    by (simp_all add: same_post_def)
  show ?thesis
    unfolding desk_ok_def
  proof (intro conjI)
    show "distinct (map st_id (tickets d'))" using ok by (simp add: T desk_ok_def)
    show "\<forall>t \<in> set (tickets d'). \<forall>u \<in> set (tickets d'). same_post t u \<longrightarrow> st_id t = st_id u"
    proof (intro ballI impI)
      fix t' u' assume "t' \<in> set (tickets d')" "u' \<in> set (tickets d')" and same: "same_post t' u'"
      then obtain t u where t: "t \<in> set (tickets d)" "t' = (if ?p t then ?f t else t)"
        and u: "u \<in> set (tickets d)" "u' = (if ?p u then ?f u else u)" by (auto simp: T set_sql_update)
      have "same_post t u" using same by (simp only: t(2) u(2) same_post_move)
      then have "st_id t = st_id u" using ok t(1) u(1) by (simp add: desk_ok_def)
      then show "st_id t' = st_id u'" by (simp add: t(2) u(2))
    qed
    have ids: "st_id ` set (tickets d') = st_id ` set (tickets d)"
    proof -
      have "map st_id (tickets d') = map st_id (tickets d)" by (simp add: T)
      then show ?thesis by (metis list.set_map)
    qed
    show "\<forall>e \<in> set (ticket_events d'). \<exists>t \<in> set (tickets d'). st_id t = se_ticket_id e"
    proof
      fix e assume "e \<in> set (ticket_events d')"
      then have "e \<in> set (ticket_events d) \<or> se_ticket_id e = tid" using m by blast
      then have "se_ticket_id e \<in> st_id ` set (tickets d)"
        using m ok unfolding desk_ok_def by (metis image_eqI)
      with ids show "\<exists>t \<in> set (tickets d'). st_id t = se_ticket_id e" by (metis imageE)
    qed
    show "\<forall>t \<in> set (tickets d'). ticket_ok t \<and> follows Ticket_NEW (status_log d' (st_id t)) (st_status t)"
    proof
      fix t' assume "t' \<in> set (tickets d')"
      then obtain t where t: "t \<in> set (tickets d)" and t': "t' = (if ?p t then ?f t else t)"
        by (auto simp: T set_sql_update)
      have log: "status_log d' v = status_log d v @ (if v = tid then [(Some expected, Some to_status)] else [])" for v
        using move_status_Inr(3) [OF assms Some, of v] by blast
      note o = desk_okD(1,2) [OF ok t]
      have 1: "ticket_ok (?f t)" using o(1) by (auto simp: ticket_ok_def)
      show "ticket_ok t' \<and> follows Ticket_NEW (status_log d' (st_id t')) (st_status t')"
      proof (cases "?p t")
        case True
        then show ?thesis using 1 follows_snoc [OF o(2)] legal t' by (simp add: log)
      next
        case False
        have "st_id t \<noteq> tid"
        proof
          assume "st_id t = tid"
          moreover obtain u where "u \<in> set (tickets d)" "st_id u = tid" "st_status u = expected" using m by blast
          ultimately show False using desk_okD(3) [OF ok t] False by metis
        qed
        then show ?thesis using o t' False by (simp add: log)
      qed
    qed
  qed
qed

lemma forget_desk_ok:
  assumes ok: "desk_ok d"
  shows "desk_ok (store_forget uid d)"
proof -
  let ?gone = "\<lambda>e. \<exists>t \<in> set (tickets d). st_telegram_user_id t = uid \<and> st_id t = se_ticket_id e"
  have T: "tickets (store_forget uid d) = filter (\<lambda>t. st_telegram_user_id t \<noteq> uid) (tickets d)"
    and E: "ticket_events (store_forget uid d) = filter (\<lambda>e. \<not> ?gone e) (ticket_events d)"
    unfolding store_forget_def by (simp_all add: forget_account_tables)
  have log: "status_log (store_forget uid d) (st_id t) = status_log d (st_id t)"
    if t: "t \<in> set (tickets d)" "st_telegram_user_id t \<noteq> uid" for t
  proof -
    have stays: "\<not> ?gone e" if "se_ticket_id e = st_id t" for e
      using desk_okD(3) [OF ok t(1)] t(2) that by metis
    have "filter (\<lambda>e. se_ticket_id e = st_id t \<and> se_to_status e \<noteq> None) (filter (\<lambda>e. \<not> ?gone e) (ticket_events d))
        = filter (\<lambda>e. se_ticket_id e = st_id t \<and> se_to_status e \<noteq> None) (ticket_events d)"
      unfolding filter_filter by (rule filter_cong [OF refl]) (use stays in blast)
    then show ?thesis by (simp only: status_log_def E)
  qed
  show ?thesis
    using ok log unfolding desk_ok_def T E by (auto simp: distinct_map_filter) metis
qed

lemma desk_step_ok:
  assumes "desk_step d d'" "desk_ok d"
  shows "desk_ok d'"
  using assms
proof (induction rule: desk_step.induct)
  case (forget d uid)
  then show ?case by (rule forget_desk_ok)
next
  case (elsewhere d' d)
  then show ?case by (simp add: desk_ok_def status_log_def)
next
  case (attach d tid msg now)
  show ?case unfolding desk_attach_prompt_def
    by (rule in_session_total_keeps) (rule plain_writes_ok(1) [OF attach])
next
  case (listen d tid msg now)
  show ?case unfolding desk_listen_on_def
    by (rule in_session_total_keeps) (rule plain_writes_ok(2) [OF listen])
next
  case (relayed d event_id now)
  show ?case unfolding desk_mark_relayed_def
    by (rule in_session_total_keeps) (rule plain_writes_ok(3) [OF relayed])
next
  case (release d tid)
  show ?case unfolding desk_release_group_post_def
    by (rule in_session_total_keeps) (rule release_group_post_ok [OF release])
next
  case (open_ticket d candidates event_id uid lang source order now)
  show ?case unfolding desk_open_ticket_def
    by (rule in_session_keeps) (rule open_ticket_ok [OF open_ticket], assumption, rule open_ticket)
next
  case (describe d event_id tid words now)
  show ?case unfolding desk_describe_ticket_def
    by (rule in_session_keeps) (rule describe_ok [OF describe], assumption, rule describe)
next
  case (claim d tid chat msg)
  show ?case unfolding desk_claim_group_post_def
    by (rule in_session_keeps) (rule claim_group_post_ok [OF claim], assumption, rule claim)
next
  case (settle d event_id tid now)
  show ?case unfolding desk_settle_group_post_def
    by (rule in_session_keeps) (rule settle_group_post_ok [OF settle], assumption, rule settle)
next
  case (move d event_id tid expected to_status author now)
  show ?case unfolding desk_move_status_def
    by (rule in_session_keeps) (rule move_status_ok [OF _ move], assumption, rule move)
next
  case (assign d event_id tid username author now)
  show ?case unfolding desk_assign_ticket_def
    by (rule in_session_keeps) (rule assign_ok [OF assign], assumption, rule assign)
next
  case (append d event_id tid kind author now words)
  show ?case unfolding desk_append_event_def
    by (rule in_session_keeps) (rule append_event_ok [OF append], assumption, rule append)
qed

lemma desk_ok_empty: "desk_ok empty_db"
  by (simp add: desk_ok_def empty_db_def)

lemma desk_reachable_ok: "desk_reachable d \<Longrightarrow> desk_ok d"
  by (induction rule: desk_reachable.induct) (auto intro: desk_ok_empty desk_step_ok)

lemma legal_move_moves: "is_legal_move s t \<Longrightarrow> s \<noteq> t"
  by (cases s; cases t; simp add: is_legal_move_def)

lemma lost_move:
  assumes "is_legal_move expected to_status" "\<And>t. t \<in> set (tickets d) \<Longrightarrow> st_id t = tid \<Longrightarrow> st_status t \<noteq> expected"
  shows "move_status d event_id tid expected to_status author now = Inr (None, d)"
proof -
  have "rowcount (\<lambda>t. st_id t = tid \<and> st_status t = expected) (tickets d) = 0"
    using assms(2) by (simp only: rowcount_0_iff) blast
  moreover have "sql_update (\<lambda>t. st_id t = tid \<and> st_status t = expected) f (tickets d) = tickets d" for f
    using assms(2) by (intro sql_update_none) blast
  ultimately show ?thesis using assms(1) by (simp add: move_status_def update_tickets_def)
qed

lemma move_status_runs:
  assumes ok: "desk_ok d" and legal: "is_legal_move expected to_status"
    and fresh: "select_one se_id event_id (ticket_events d) = None"
  shows "\<exists>r d'. move_status d event_id tid expected to_status author now = Inr (r, d')"
proof (cases "\<exists>t \<in> set (tickets d). st_id t = tid \<and> st_status t = expected")
  case False
  then show ?thesis using lost_move [OF legal] by blast
next
  case True
  then obtain t where t: "t \<in> set (tickets d)" "st_id t = tid" "st_status t = expected" by blast
  have look: "select_one st_id tid (tickets d) = Some t" using desk_okD(4) [OF ok t(1)] t(2) by simp
  have "distinct (map st_id (tickets d))" using ok by (simp add: desk_ok_def)
  then have "rowcount (\<lambda>t. st_id t = tid \<and> st_status t = expected) (tickets d) = 1"
    using look t(3) by (simp add: rowcount_key)
  then show ?thesis
    using legal fresh look t
    by (auto simp: move_status_def update_tickets_def add_event_def load_ticket_def require_ticket_def tx_then_def
        select_one_update)
qed

lemma won_move:
  assumes m: "move_status d event_id tid expected to_status author now = Inr (Some s, d')" and ok: "desk_ok d"
  shows "ts_id s = tid \<and> ts_status s = to_status
    \<and> (is_legal_move expected to2 \<longrightarrow> move_status d' event2 tid expected to2 author2 now2 = Inr (None, d'))"
proof -
  note w = move_status_Inr(3) [OF m ok refl]
  from w obtain t where t: "t \<in> set (tickets d)" "st_id t = tid" "st_status t = expected" by blast
  have T: "tickets d' = sql_update (\<lambda>t. st_id t = tid \<and> st_status t = expected)
           (\<lambda>t. (if to_status = Ticket_RESOLVED then t\<lparr>st_resolved_at := Some now\<rparr> else t)
              \<lparr>st_status := to_status, st_updated_at := now\<rparr>) (tickets d)" using w by blast
  have moved: "st_status u = to_status" if "u \<in> set (tickets d')" "st_id u = tid" for u
  proof -
    from that(1) obtain v where v: "v \<in> set (tickets d)" "u = (if st_id v = tid \<and> st_status v = expected
        then (if to_status = Ticket_RESOLVED then v\<lparr>st_resolved_at := Some now\<rparr> else v)
              \<lparr>st_status := to_status, st_updated_at := now\<rparr> else v)"
      by (auto simp: T set_sql_update)
    then have "st_id v = st_id t" using that(2) t(2) by (simp split: if_splits)
    then have "v = t" by (rule desk_okD(3) [OF ok t(1) v(1)])
    then show ?thesis using v(2) t(2,3) by simp
  qed
  have "load_ticket d' tid = Some s" using w by blast
  then obtain u where u: "select_one st_id tid (tickets d') = Some u" "s = snapshot_of u"
    unfolding load_ticket_def by blast
  then have "ts_id s = tid \<and> ts_status s = to_status"
    using select_one_SomeD [OF u(1)] moved by (simp add: snapshot_of_def)
  moreover have "move_status d' event2 tid expected to2 author2 now2 = Inr (None, d')" if "is_legal_move expected to2"
    by (rule lost_move [OF that]) (use moved legal_move_moves [OF move_status_Inr(1) [OF m ok]] in blast)
  ultimately show ?thesis by blast
qed

section \<open>A desk with one ticket\<close>

definition s_opened_desk :: db where
  "s_opened_desk = fst (desk_open_ticket [[65]] [201] 7 UZ_LATN SUPPORT_COMMAND None 1000000 empty_db)"

definition s_described_desk :: db where
  "s_described_desk = fst (desk_describe_ticket [202] [65] [104, 105] 2000000 s_opened_desk)"

definition s_claimed_desk :: db where
  "s_claimed_desk = fst (desk_claim_group_post [65] 900 41 s_described_desk)"

definition s_posted_desk :: db where
  "s_posted_desk = fst (desk_settle_group_post [203] [65] 3000000 s_claimed_desk)"

definition s_moved_desk :: db where
  "s_moved_desk = fst (desk_move_status [204] [65] Ticket_NEW Ticket_IN_PROGRESS (author_operator [111]) 4000000 s_posted_desk)"

lemma s_desk_reachable:
  "desk_reachable s_opened_desk" "desk_reachable s_described_desk" "desk_reachable s_claimed_desk"
  "desk_reachable s_posted_desk" "desk_reachable s_moved_desk"
proof -
  show 1: "desk_reachable s_opened_desk" unfolding s_opened_desk_def
    by (rule desk_reachable.step [OF desk_reachable.start desk_step.open_ticket])
  show 2: "desk_reachable s_described_desk" unfolding s_described_desk_def
    by (rule desk_reachable.step [OF 1 desk_step.describe])
  show 3: "desk_reachable s_claimed_desk" unfolding s_claimed_desk_def
    by (rule desk_reachable.step [OF 2 desk_step.claim])
  show 4: "desk_reachable s_posted_desk" unfolding s_posted_desk_def
    by (rule desk_reachable.step [OF 3 desk_step.settle])
  show "desk_reachable s_moved_desk" unfolding s_moved_desk_def
    by (rule desk_reachable.step [OF 4 desk_step.move])
qed

section \<open>Properties\<close>

text \<open>C29. The timeline is the truth: in every state of every run the moves recorded for a ticket are legal
  moves, each from where the one before ended, from new to the ticket's status; a resolved ticket says since when.\<close>

theorem ticket_status_is_its_history:
  assumes "desk_reachable d" "t \<in> set (tickets d)"
  shows "follows Ticket_NEW (status_log d (st_id t)) (st_status t)
    \<and> (st_status t = Ticket_RESOLVED \<longrightarrow> st_resolved_at t \<noteq> None)"
  using desk_okD [OF desk_reachable_ok [OF assms(1)] assms(2)] by (simp add: ticket_ok_def)

lemma ticket_status_witness: "follows Ticket_NEW [(Some Ticket_NEW, Some Ticket_IN_PROGRESS)] Ticket_IN_PROGRESS"
proof -
  have t: "hd (tickets s_moved_desk) \<in> set (tickets s_moved_desk)" by code_simp
  have "status_log s_moved_desk (st_id (hd (tickets s_moved_desk))) = [(Some Ticket_NEW, Some Ticket_IN_PROGRESS)]"
    "st_status (hd (tickets s_moved_desk)) = Ticket_IN_PROGRESS" by code_simp+
  with ticket_status_is_its_history [OF s_desk_reachable(5) t] show ?thesis by simp
qed

text \<open>C30. A move is a compare-and-swap on the status: it wins exactly when the ticket stands where the operator saw
  it and the move is legal, it answers the moved ticket, and whoever saw the same status afterwards loses and writes
  nothing; a move outside the table is refused and writes nothing.\<close>

theorem move_is_a_compare_and_swap:
  assumes "desk_reachable d"
  shows "(\<not> is_legal_move expected to_status \<longrightarrow> desk_move_status event_id tid expected to_status author now d
      = (d, Inl (ValidationError ''that support status move is not allowed'')))
    \<and> (is_legal_move expected to_status \<and> select_one se_id event_id (ticket_events d) = None \<longrightarrow>
      (\<exists>s. snd (desk_move_status event_id tid expected to_status author now d) = Inr (Some s))
        = (\<exists>t \<in> set (tickets d). st_id t = tid \<and> st_status t = expected))
    \<and> (desk_move_status event_id tid expected to_status author now d = (d', Inr (Some s)) \<longrightarrow>
      ts_id s = tid \<and> ts_status s = to_status
        \<and> (is_legal_move expected to2 \<longrightarrow> desk_move_status event2 tid expected to2 author2 now2 d' = (d', Inr None)))"
proof -
  have ok: "desk_ok d" using assms by (rule desk_reachable_ok)
  have 1: "desk_move_status event_id tid expected to_status author now d
      = (d, Inl (ValidationError ''that support status move is not allowed''))" if "\<not> is_legal_move expected to_status"
    using that by (simp add: desk_move_status_def in_session_def run_guarded_def move_status_def)
  have 2: "(\<exists>s. snd (desk_move_status event_id tid expected to_status author now d) = Inr (Some s))
        = (\<exists>t \<in> set (tickets d). st_id t = tid \<and> st_status t = expected)"
    if legal: "is_legal_move expected to_status" and fresh: "select_one se_id event_id (ticket_events d) = None"
  proof -
    obtain r d' where m: "move_status d event_id tid expected to_status author now = Inr (r, d')"
      using move_status_runs [OF ok legal fresh] by blast
    then have "snd (desk_move_status event_id tid expected to_status author now d) = Inr r"
      by (simp add: desk_move_status_def in_session_def run_guarded_def)
    with move_status_Inr(2,3) [OF m ok] show ?thesis by (cases r) auto
  qed
  have 3: "ts_id s = tid \<and> ts_status s = to_status
        \<and> (is_legal_move expected to2 \<longrightarrow> desk_move_status event2 tid expected to2 author2 now2 d' = (d', Inr None))"
    if won: "desk_move_status event_id tid expected to_status author now d = (d', Inr (Some s))"
    using won_move [OF _ ok] won unfolding desk_move_status_def in_session_Inr by blast
  show ?thesis by (intro conjI impI; (elim conjE)?) (fact 1, rule 2, assumption+, (use 3 in blast)+)
qed

lemma move_witness: "snd (desk_move_status [205] [65] Ticket_NEW Ticket_RESOLVED author_system 5000000 s_moved_desk) = Inr None"
proof -
  have w: "desk_move_status [204] [65] Ticket_NEW Ticket_IN_PROGRESS (author_operator [111]) 4000000 s_posted_desk
      = (s_moved_desk, Inr (load_ticket s_moved_desk [65]))" by code_simp
  have "load_ticket s_moved_desk [65] \<noteq> None" by code_simp
  then obtain s where "load_ticket s_moved_desk [65] = Some s" by blast
  moreover have "is_legal_move Ticket_NEW Ticket_RESOLVED" by code_simp
  ultimately show ?thesis using move_is_a_compare_and_swap [OF s_desk_reachable(4)] w by (metis snd_conv)
qed

text \<open>A described ticket and a posted card are frozen.\<close>

definition frozen_ticket :: "support_ticket_row \<Rightarrow> support_ticket_row \<Rightarrow> bool" where
  "frozen_ticket t t' \<longleftrightarrow> (st_described_at t \<noteq> None \<longrightarrow> st_body t' = st_body t \<and> st_described_at t' = st_described_at t)
     \<and> (st_group_posted_at t \<noteq> None \<longrightarrow> st_group_chat_id t' = st_group_chat_id t
          \<and> st_group_message_id t' = st_group_message_id t \<and> st_group_posted_at t' = st_group_posted_at t)"

definition tickets_frozen :: "db \<Rightarrow> db \<Rightarrow> bool" where
  "tickets_frozen d d' \<longleftrightarrow> (\<forall>t \<in> set (tickets d). \<forall>t' \<in> set (tickets d'). st_id t' = st_id t \<longrightarrow> frozen_ticket t t')"

lemma tickets_frozen_same:
  assumes "desk_ok d" "tickets d' = tickets d"
  shows "tickets_frozen d d'"
  using assms desk_okD(3) unfolding tickets_frozen_def frozen_ticket_def by metis

lemma tickets_frozen_update:
  assumes ok: "desk_ok d" and d': "tickets d' = sql_update p f (tickets d)"
    and f: "\<And>t. st_id (f t) = st_id t" "\<And>t. t \<in> set (tickets d) \<Longrightarrow> p t \<Longrightarrow> frozen_ticket t (f t)"
  shows "tickets_frozen d d'"
  unfolding tickets_frozen_def
proof (intro ballI impI)
  fix t t' assume t: "t \<in> set (tickets d)" and "t' \<in> set (tickets d')" and same: "st_id t' = st_id t"
  then obtain u where u: "u \<in> set (tickets d)" "t' = (if p u then f u else u)" by (auto simp: d' set_sql_update)
  then have "st_id u = st_id t" using same f(1) by (simp split: if_splits)
  then have "u = t" by (rule desk_okD(3) [OF ok t u(1)])
  then show "frozen_ticket t t'" using u(2) f(2) [OF t] by (simp add: frozen_ticket_def)
qed

lemma update_tickets_none:
  "(\<And>u. u \<in> set (tickets d) \<Longrightarrow> \<not> p u) \<Longrightarrow> update_tickets p f d = (False, d)"
  by (simp add: update_tickets_def sql_update_none rowcount_def)

lemma session_frozen:
  assumes "desk_ok d" "\<And>a d'. work d = Inr (a, d') \<Longrightarrow> tickets_frozen d d'"
  shows "tickets_frozen d (fst (in_session op work d))"
  using in_session_cases [of op work d] assms tickets_frozen_same [OF assms(1) refl] by auto

lemma update_frozen:
  assumes ok: "desk_ok d" and "\<And>t. st_id (f t) = st_id t" "\<And>t. t \<in> set (tickets d) \<Longrightarrow> p t \<Longrightarrow> frozen_ticket t (f t)"
  shows "tickets_frozen d (snd (update_tickets p f d))"
  by (rule tickets_frozen_update [OF ok, where p = p and f = f]) (use assms in \<open>simp_all add: update_tickets_def\<close>)

lemma event_frozen:
  assumes "tickets_frozen d d1" "add_event d1 event_id tid kind author now b from_status to_status = Inr (k, d')"
  shows "tickets_frozen d d'"
  using assms(1) add_event_Inr(1) [OF assms(2)] by (simp add: tickets_frozen_def)

lemma statement_frozen:
  assumes ok: "desk_ok d"
  shows "describe d event_id tid words now = Inr (r1, d') \<Longrightarrow> tickets_frozen d d'"
    and "assign d event_id tid username author now = Inr (r2, d') \<Longrightarrow> tickets_frozen d d'"
    and "settle_group_post d event_id tid now = Inr (r3, d') \<Longrightarrow> tickets_frozen d d'"
    and "claim_group_post d tid chat msg = Inr (r4, d') \<Longrightarrow> tickets_frozen d d'"
    and "move_status d event_id tid expected to_status author now = Inr (r5, d') \<Longrightarrow> tickets_frozen d d'"
    and "open_ticket d candidates event_id uid lang source order now = Inr (r6, d') \<Longrightarrow> tickets_frozen d d'"
proof -
  have unposted: "st_group_posted_at t = None" if "t \<in> set (tickets d)" "st_group_message_id t = None" for t
    using desk_okD(1) [OF ok that(1)] that(2) by (auto simp: ticket_ok_def)
  have 1: "tickets_frozen d (snd (update_tickets (\<lambda>t. st_id t = tid \<and> st_described_at t = None)
      (\<lambda>t. t\<lparr>st_body := Some words, st_described_at := Some now, st_updated_at := now\<rparr>) d))"
    by (rule update_frozen [OF ok]) (simp_all add: frozen_ticket_def)
  then show "describe d event_id tid words now = Inr (r1, d') \<Longrightarrow> tickets_frozen d d'"
    by (auto simp: describe_def append_event_def require_ticket_Inr tx_then_eq_Inr split: prod.splits if_splits intro: event_frozen)
  have 2: "tickets_frozen d (snd (update_tickets (\<lambda>t. st_id t = tid)
      (\<lambda>t. t\<lparr>st_assigned_admin_username := Some username, st_assigned_at := Some now, st_updated_at := now\<rparr>) d))"
    by (rule update_frozen [OF ok]) (simp_all add: frozen_ticket_def)
  then show "assign d event_id tid username author now = Inr (r2, d') \<Longrightarrow> tickets_frozen d d'"
    by (auto simp: assign_def require_ticket_Inr tx_then_eq_Inr split: prod.splits if_splits intro: event_frozen)
  have 3: "tickets_frozen d (snd (update_tickets (\<lambda>t. st_id t = tid \<and> st_group_message_id t \<noteq> None \<and> st_group_posted_at t = None)
      (\<lambda>t. t\<lparr>st_group_posted_at := Some now, st_updated_at := now\<rparr>) d))"
    by (rule update_frozen [OF ok]) (simp_all add: frozen_ticket_def)
  then show "settle_group_post d event_id tid now = Inr (r3, d') \<Longrightarrow> tickets_frozen d d'"
    by (auto simp: settle_group_post_def append_event_def tx_then_eq_Inr split: prod.splits if_splits intro: event_frozen)
  have "tickets_frozen d (snd (update_tickets (\<lambda>t. st_id t = tid \<and> st_group_message_id t = None)
      (\<lambda>t. t\<lparr>st_group_chat_id := Some chat, st_group_message_id := Some msg\<rparr>) d))"
    by (rule update_frozen [OF ok]) (use unposted in \<open>simp_all add: frozen_ticket_def\<close>)
  then show "claim_group_post d tid chat msg = Inr (r4, d') \<Longrightarrow> tickets_frozen d d'"
    by (auto simp: claim_group_post_def Let_def split: if_splits)
  have "tickets_frozen d (snd (update_tickets (\<lambda>t. st_id t = tid \<and> st_status t = expected)
       (\<lambda>t. (if to_status = Ticket_RESOLVED then t\<lparr>st_resolved_at := Some now\<rparr> else t)
              \<lparr>st_status := to_status, st_updated_at := now\<rparr>) d))"
    by (rule update_frozen [OF ok]) (simp_all add: frozen_ticket_def)
  then show "move_status d event_id tid expected to_status author now = Inr (r5, d') \<Longrightarrow> tickets_frozen d d'"
    by (auto simp: move_status_def require_ticket_Inr tx_then_eq_Inr split: prod.splits if_splits intro: event_frozen)
  show "tickets_frozen d d'" if opened: "open_ticket d candidates event_id uid lang source order now = Inr (r6, d')"
  proof -
    from opened obtain tid d1 k where fresh: "select_one st_id tid (tickets d) = None"
      and d1: "d1 = d\<lparr>tickets := tickets d @ [\<lparr>st_id = tid, st_public_ref = public_ref_for tid, st_telegram_user_id = uid,
         st_language = lang, st_source = source, st_order_id = order, st_status = Ticket_NEW,
         st_body = None, st_prompt_message_id = None, st_described_at = None,
         st_assigned_admin_username = None, st_assigned_at = None, st_group_chat_id = None,
         st_group_message_id = None, st_group_posted_at = None, st_resolved_at = None,
         st_created_at = now, st_updated_at = now\<rparr>]\<rparr>"
      and a: "append_event d1 event_id tid Ticket_OPENED (author_customer uid) now None = Inr (k, d')"
      by (rule open_ticket_Inr)
    have "tickets_frozen d d1"
      using fresh tickets_frozen_same [OF ok refl] by (auto simp: tickets_frozen_def d1 select_one_None_iff)
    then show ?thesis using a unfolding append_event_def by (rule event_frozen)
  qed
qed

lemma desk_step_frozen:
  assumes "desk_step d d'" "desk_ok d"
  shows "tickets_frozen d d'"
  using assms
proof (induction rule: desk_step.induct)
  case (forget d uid)
  then show ?case using tickets_frozen_same [OF forget refl]
    by (auto simp: tickets_frozen_def store_forget_def forget_account_tables)
next
  case (elsewhere d' d)
  then show ?case by (intro tickets_frozen_same)
next
  case (attach d tid msg now)
  have "tickets_frozen d (snd (attach_prompt d tid msg now))" unfolding attach_prompt_def
    by (rule update_frozen [OF attach]) (simp_all add: frozen_ticket_def)
  then show ?case unfolding desk_attach_prompt_def by (rule in_session_total_keeps)
next
  case (listen d tid msg now)
  have "tickets_frozen d (snd (listen_on d tid msg now))" unfolding listen_on_def
    by (rule update_frozen [OF listen]) (simp_all add: frozen_ticket_def)
  then show ?case unfolding desk_listen_on_def by (rule in_session_total_keeps)
next
  case (relayed d event_id now)
  have "tickets_frozen d (snd (mark_relayed d event_id now))"
    by (rule tickets_frozen_same [OF relayed]) (simp add: mark_relayed_def Let_def)
  then show ?case unfolding desk_mark_relayed_def by (rule in_session_total_keeps)
next
  case (release d tid)
  have "tickets_frozen d (snd (release_group_post d tid))" unfolding release_group_post_def
    by (rule update_frozen [OF release]) (simp_all add: frozen_ticket_def)
  then show ?case unfolding desk_release_group_post_def by (rule in_session_total_keeps)
next
  case (append d event_id tid kind author now words)
  show ?case unfolding desk_append_event_def append_event_def
    by (rule session_frozen [OF append]) (rule event_frozen [OF tickets_frozen_same [OF append refl]])
qed (auto simp: desk_open_ticket_def desk_describe_ticket_def desk_claim_group_post_def desk_settle_group_post_def
      desk_move_status_def desk_assign_ticket_def intro!: session_frozen intro: statement_frozen)

text \<open>C31. What the customer wrote is written once and the staff card is posted once: no operation of the desk changes
  the words of a described ticket or the card of a posted one, and describing it again or claiming a card again loses
  and writes nothing.\<close>

theorem described_and_posted_are_final:
  assumes "desk_reachable d" "desk_step d d'" "t \<in> set (tickets d)" "t' \<in> set (tickets d')" "st_id t' = st_id t"
  shows "(st_described_at t \<noteq> None \<longrightarrow> st_body t' = st_body t \<and> st_described_at t' = st_described_at t
      \<and> desk_describe_ticket event_id (st_id t) words now d = (d, Inr None))
    \<and> (st_group_posted_at t \<noteq> None \<longrightarrow> st_group_chat_id t' = st_group_chat_id t
      \<and> st_group_message_id t' = st_group_message_id t \<and> st_group_posted_at t' = st_group_posted_at t
      \<and> desk_claim_group_post (st_id t) chat msg d = (d, Inr False)
      \<and> desk_release_group_post (st_id t) d = (d, Inr False))"
proof -
  have ok: "desk_ok d" using assms(1) by (rule desk_reachable_ok)
  have only: "u = t" if "u \<in> set (tickets d)" "st_id u = st_id t" for u
    by (rule desk_okD(3) [OF ok assms(3) that])
  have "frozen_ticket t t'" using desk_step_frozen [OF assms(2) ok] assms(3-5) by (simp add: tickets_frozen_def)
  moreover have "desk_describe_ticket event_id (st_id t) words now d = (d, Inr None)" if "st_described_at t \<noteq> None"
  proof -
    have "update_tickets (\<lambda>u. st_id u = st_id t \<and> st_described_at u = None) f d = (False, d)" for f
      proof (rule update_tickets_none)
      fix u assume "u \<in> set (tickets d)"
      then show "\<not> (st_id u = st_id t \<and> st_described_at u = None)" using only [of u] that by auto
    qed
    then show ?thesis by (simp add: desk_describe_ticket_def in_session_Inr describe_def)
  qed
  moreover have "desk_claim_group_post (st_id t) chat msg d = (d, Inr False)" if "st_group_posted_at t \<noteq> None"
  proof -
    have m: "st_group_message_id t \<noteq> None" using that desk_okD(1) [OF ok assms(3)] by (simp add: ticket_ok_def)
    have n: "update_tickets (\<lambda>u. st_id u = st_id t \<and> st_group_message_id u = None) f d = (False, d)" for f
    proof (rule update_tickets_none)
      fix u assume "u \<in> set (tickets d)"
      then show "\<not> (st_id u = st_id t \<and> st_group_message_id u = None)" using only [of u] m by auto
    qed
    have "\<not> list_ex (\<lambda>u. st_id u = st_id t \<and> st_group_message_id u = None) (tickets d)"
      using only m by (auto simp: list_ex_iff)
    then show ?thesis by (simp add: desk_claim_group_post_def in_session_Inr claim_group_post_def Let_def n)
  qed
  moreover have "desk_release_group_post (st_id t) d = (d, Inr False)" if "st_group_posted_at t \<noteq> None"
  proof -
    have "update_tickets (\<lambda>u. st_id u = st_id t \<and> st_group_posted_at u = None) f d = (False, d)" for f
    proof (rule update_tickets_none)
      fix u assume "u \<in> set (tickets d)"
      then show "\<not> (st_id u = st_id t \<and> st_group_posted_at u = None)" using only [of u] that by auto
    qed
    then show ?thesis by (simp add: desk_release_group_post_def in_session_Inr release_group_post_def)
  qed
  ultimately show ?thesis by (simp add: frozen_ticket_def)
qed

lemma described_and_posted_witness:
  "desk_describe_ticket [206] [65] [] 6000000 s_posted_desk = (s_posted_desk, Inr None)
   \<and> desk_claim_group_post [65] 901 42 s_posted_desk = (s_posted_desk, Inr False)"
proof -
  let ?t = "hd (tickets s_posted_desk)" and ?t' = "hd (tickets s_moved_desk)"
  have t: "?t \<in> set (tickets s_posted_desk)" "?t' \<in> set (tickets s_moved_desk)" by code_simp+
  have id: "st_id ?t' = st_id ?t" "st_id ?t = [65]" "st_described_at ?t = Some 2000000" "st_group_posted_at ?t = Some 3000000"
    by code_simp+
  have "desk_step s_posted_desk s_moved_desk" unfolding s_moved_desk_def by (rule desk_step.move)
  from described_and_posted_are_final [OF s_desk_reachable(4) this t id(1)] show ?thesis unfolding id by blast
qed

lemma group_message_iff:
  assumes ok: "desk_ok d"
  shows "find_by_group_message d chat msg = Some s \<longleftrightarrow> (\<exists>t \<in> set (tickets d). s = snapshot_of t
     \<and> st_group_chat_id t = Some chat \<and> st_group_message_id t = Some msg)"
proof -
  have uni: "t = u" if "t \<in> set (tickets d)" "u \<in> set (tickets d)" "st_group_chat_id t = Some chat" "st_group_message_id t = Some msg"
      "st_group_chat_id u = Some chat" "st_group_message_id u = Some msg" for t u
  proof -
    have "same_post t u" using that by (simp add: same_post_def)
    then have "st_id t = st_id u" using ok that(1,2) by (simp add: desk_ok_def)
    then show ?thesis by (rule desk_okD(3) [OF ok that(2,1)])
  qed
  show ?thesis
  proof
    assume "find_by_group_message d chat msg = Some s"
    then show "\<exists>t \<in> set (tickets d). s = snapshot_of t \<and> st_group_chat_id t = Some chat \<and> st_group_message_id t = Some msg"
      by (auto simp: find_by_group_message_def dest!: select_one_SomeD)
  next
    assume "\<exists>t \<in> set (tickets d). s = snapshot_of t \<and> st_group_chat_id t = Some chat \<and> st_group_message_id t = Some msg"
    then obtain t where t: "t \<in> set (tickets d)" "s = snapshot_of t" "st_group_chat_id t = Some chat" "st_group_message_id t = Some msg"
      by blast
    have "select_one (\<lambda>t. (st_group_chat_id t, st_group_message_id t)) (Some chat, Some msg) (tickets d) \<noteq> None"
      using t by (auto simp: select_one_None_iff simp del: not_None_eq)
    then obtain u where u: "select_one (\<lambda>t. (st_group_chat_id t, st_group_message_id t)) (Some chat, Some msg) (tickets d) = Some u"
      by blast
    with uni [of t u] t select_one_SomeD [OF u] show "find_by_group_message d chat msg = Some s"
      by (simp add: find_by_group_message_def)
  qed
qed

text \<open>C32. A reply in the staff group finds its ticket: once the card of a ticket is claimed for a message, a reply to
  that message finds this ticket, replies to other messages find what they found before, and no state of the desk
  holds two tickets a reply could mean.\<close>

theorem staff_reply_finds_its_ticket:
  assumes "desk_reachable d" "desk_claim_group_post tid chat msg d = (d', Inr True)"
  shows "(\<exists>s. find_by_group_message d' chat msg = Some s \<and> ts_id s = tid)
    \<and> ((c, m) \<noteq> (chat, msg) \<longrightarrow> find_by_group_message d' c m = find_by_group_message d c m)
    \<and> find_by_group_message d chat msg = None
    \<and> (\<forall>t \<in> set (tickets d'). \<forall>u \<in> set (tickets d'). same_post t u \<longrightarrow> t = u)"
proof -
  let ?p = "\<lambda>t. st_id t = tid \<and> st_group_message_id t = None"
  let ?f = "\<lambda>t. t\<lparr>st_group_chat_id := Some chat, st_group_message_id := Some msg\<rparr>"
  have ok: "desk_ok d" using assms(1) by (rule desk_reachable_ok)
  have claimed: "claim_group_post d tid chat msg = Inr (True, d')"
    using assms(2) by (simp add: desk_claim_group_post_def in_session_Inr)
  have ok': "desk_ok d'" by (rule claim_group_post_ok [OF ok claimed])
  have cnt: "rowcount ?p (tickets d) = 1" and T: "tickets d' = sql_update ?p ?f (tickets d)"
    using claimed by (auto simp: claim_group_post_def Let_def update_tickets_def split: if_splits)
  have "\<not> (\<forall>t \<in> set (tickets d). \<not> ?p t)" using cnt rowcount_0_iff [of ?p "tickets d"] by (metis zero_neq_one)
  then obtain t where t: "t \<in> set (tickets d)" "?p t" by blast
  then have "?f t \<in> set (tickets d')" unfolding T set_sql_update by force
  then have 1: "find_by_group_message d' chat msg = Some (snapshot_of (?f t))"
    using group_message_iff [OF ok', of chat msg "snapshot_of (?f t)"] by force
  have old: "\<not> ?p u \<and> u \<in> set (tickets d')" if "u \<in> set (tickets d)" "st_group_message_id u = Some k" for u k
    using that unfolding T set_sql_update by force
  have 2: "find_by_group_message d' c m = Some s \<longleftrightarrow> find_by_group_message d c m = Some s" if "(c, m) \<noteq> (chat, msg)" for s
  proof -
    have "(\<exists>u \<in> set (tickets d'). s = snapshot_of u \<and> st_group_chat_id u = Some c \<and> st_group_message_id u = Some m)
        \<longleftrightarrow> (\<exists>u \<in> set (tickets d). s = snapshot_of u \<and> st_group_chat_id u = Some c \<and> st_group_message_id u = Some m)"
      (is "?L \<longleftrightarrow> ?R")
    proof
      assume ?L
      then obtain v where v: "v \<in> set (tickets d')" "s = snapshot_of v" "st_group_chat_id v = Some c" "st_group_message_id v = Some m"
        by blast
      then obtain u where "u \<in> set (tickets d)" "v = (if ?p u then ?f u else u)" by (auto simp: T set_sql_update)
      with v that show ?R by (auto split: if_splits)
    next
      assume ?R then show ?L using old by blast
    qed
    then show ?thesis using group_message_iff [OF ok] group_message_iff [OF ok'] by simp
  qed
  have "find_by_group_message d chat msg = None"
  proof (rule ccontr)
    assume "find_by_group_message d chat msg \<noteq> None"
    then obtain u where "u \<in> set (tickets d)" "st_group_chat_id u = Some chat" "st_group_message_id u = Some msg"
      using group_message_iff [OF ok] by fastforce
    then show False using claimed t by (auto simp: claim_group_post_def Let_def list_ex_iff split: if_splits)
  qed
  moreover have "\<forall>t \<in> set (tickets d'). \<forall>u \<in> set (tickets d'). same_post t u \<longrightarrow> t = u"
    using ok' desk_okD(3) [OF ok'] unfolding desk_ok_def by metis
  moreover have "(c, m) \<noteq> (chat, msg) \<longrightarrow> find_by_group_message d' c m = find_by_group_message d c m"
    using 2 by (metis option.exhaust)
  ultimately show ?thesis using 1 t(2) by (simp add: snapshot_of_def)
qed

lemma staff_reply_witness: "\<exists>s. find_by_group_message s_claimed_desk 900 41 = Some s \<and> ts_id s = [65]"
proof -
  have "desk_claim_group_post [65] 900 41 s_described_desk = (s_claimed_desk, Inr True)" by code_simp
  from staff_reply_finds_its_ticket [OF s_desk_reachable(2) this] show ?thesis by blast
qed

text \<open>C33. The quota is spent exactly: opening a ticket adds one to what its account holds undescribed and to what it
  opened that day and nothing to any other account, an allowed opening stays within both limits, and a verdict is
  allowed exactly when neither limit is reached.\<close>

theorem opening_spends_the_quota:
  assumes "desk_open_ticket candidates event_id uid lang source order now d = (d', Inr s)"
  shows "qv_undescribed (quota_verdict d' uid now q) = qv_undescribed (quota_verdict d uid now q) + 1
    \<and> qv_opened_today (quota_verdict d' uid now q) = qv_opened_today (quota_verdict d uid now q) + 1
    \<and> (v \<noteq> uid \<longrightarrow> quota_verdict d' v at q = quota_verdict d v at q)
    \<and> (qv_is_allowed (quota_verdict d uid now q) \<longrightarrow> qv_undescribed (quota_verdict d' uid now q) \<le> sq_max_undescribed q
        \<and> qv_opened_today (quota_verdict d' uid now q) \<le> sq_max_per_day q)
    \<and> qv_is_allowed (quota_verdict d uid now q)
        = (\<not> is_holding_too_many (quota_verdict d uid now q) \<and> \<not> is_over_daily (quota_verdict d uid now q))"
proof -
  have "open_ticket d candidates event_id uid lang source order now = Inr (s, d')"
    using assms by (simp add: desk_open_ticket_def in_session_Inr)
  then obtain row where row: "tickets d' = tickets d @ [row]" "st_telegram_user_id row = uid" "st_described_at row = None"
      "st_status row = Ticket_NEW" "st_created_at row = now"
    by (rule open_ticket_Inr) (auto simp: append_event_def dest!: add_event_Inr(1))
  have "day_start now \<le> now" by (simp add: day_start_def us_per_day_def minus_mod_eq_div_mult [symmetric])
  with row show ?thesis
    by (auto simp: quota_verdict_def Let_def rowcount_def is_holding_too_many_def is_over_daily_def)
qed

lemma opening_witness: "qv_undescribed (quota_verdict s_opened_desk 7 1000000 default_support_quota) = 1"
proof -
  have "desk_open_ticket [[65]] [201] 7 UZ_LATN SUPPORT_COMMAND None 1000000 empty_db
      = (s_opened_desk, Inr (hd (map snapshot_of (tickets s_opened_desk))))" by code_simp
  moreover have "qv_undescribed (quota_verdict empty_db 7 1000000 default_support_quota) = 0" by code_simp
  ultimately show ?thesis using opening_spends_the_quota by fastforce
qed

end
