(* ===== verification/Keyset.thy ===== *)
theory Keyset
  imports Db_Tables "HOL-Library.List_Lexorder" "HOL-Library.Product_Lexorder"
begin

text \<open>
  Keyset pagination (\<^verbatim>\<open>src/src/bayram/db/admin/page.py\<close>): the resuming predicate, the total order, the probe
  row, the sorted variant with its own cursor, and the bounded total. A cursor is kept as the value it
  stands for; the base64 text of its token is not modelled. The contract every paged listing promises is
  a locale, proved for the two orders: following the cursors yields the listing, each row once.
\<close>

section \<open>Requests and cursors\<close>

definition min_page_limit :: int where "min_page_limit = 1"
definition max_page_limit :: int where "max_page_limit = 200"
definition default_page_limit :: int where "default_page_limit = 50"
definition total_count_cap :: nat where "total_count_cap = 10000"
definition sort_epoch :: instant where "sort_epoch = 0"

record cursor =
  cu_at :: instant
  cu_id :: uuid

datatype sort_direction = Ascending | Descending

record sort_spec =
  ss_key :: pystr
  ss_direction :: sort_direction

record sorted_cursor =
  sc_k :: pystr
  sc_d :: sort_direction
  sc_v :: int
  sc_id :: uuid

definition sorted_cursor_sort :: "sorted_cursor \<Rightarrow> sort_spec" where
  "sorted_cursor_sort c = \<lparr>ss_key = sc_k c, ss_direction = sc_d c\<rparr>"

record 'c page_request =
  pr_limit :: int
  pr_cursor :: "'c option"

definition fetch_limit :: "'c page_request \<Rightarrow> int" where
  "fetch_limit r = pr_limit r + 1"

text \<open>Out-of-range limits are refused; \<open>decoded\<close> is what the cursor parameter, if any, decoded to.\<close>

definition page_request_of :: "int option \<Rightarrow> (bayram_error + 'c) option \<Rightarrow> bayram_error + 'c page_request" where
  "page_request_of limit decoded =
     (let resolved = (case limit of None \<Rightarrow> default_page_limit | Some l \<Rightarrow> l)
      in if \<not> (min_page_limit \<le> resolved \<and> resolved \<le> max_page_limit)
         then Inl (ValidationError ''limit must be between 1 and 200'')
         else case decoded of
           None \<Rightarrow> Inr \<lparr>pr_limit = resolved, pr_cursor = None\<rparr>
         | Some (Inl e) \<Rightarrow> Inl e
         | Some (Inr c) \<Rightarrow> Inr \<lparr>pr_limit = resolved, pr_cursor = Some c\<rparr>)"

record ('r, 'c) page =
  pg_items :: "'r list"
  pg_next_cursor :: "'c option"

definition has_more :: "('r, 'c) page \<Rightarrow> bool" where
  "has_more p = (pg_next_cursor p \<noteq> None)"

section \<open>The two walks\<close>

definition keyset_predicate :: "('r \<Rightarrow> instant) \<Rightarrow> ('r \<Rightarrow> uuid) \<Rightarrow> cursor option \<Rightarrow> 'r \<Rightarrow> bool" where
  "keyset_predicate at_column id_column c r =
     (case c of None \<Rightarrow> True
      | Some c \<Rightarrow> at_column r < cu_at c \<or> (at_column r = cu_at c \<and> id_column r < cu_id c))"

definition keyset_order :: "('r \<Rightarrow> instant) \<Rightarrow> ('r \<Rightarrow> uuid) \<Rightarrow> 'r list \<Rightarrow> 'r list" where
  "keyset_order at_column id_column rows = rev (sort_key (\<lambda>r. (at_column r, id_column r)) rows)"

definition build_page :: "'r list \<Rightarrow> 'c page_request \<Rightarrow> ('r \<Rightarrow> 'c) \<Rightarrow> ('r, 'c) page" where
  "build_page rows request key =
     (if int (length rows) \<le> pr_limit request then \<lparr>pg_items = rows, pg_next_cursor = None\<rparr>
      else let kept = take (nat (pr_limit request)) rows
           in \<lparr>pg_items = kept, pg_next_cursor = Some (key (last kept))\<rparr>)"

text \<open>\<^verbatim>\<open>COALESCE(expression, absent)\<close>.\<close>

definition total_sort_key :: "('r \<Rightarrow> int option) \<Rightarrow> int \<Rightarrow> 'r \<Rightarrow> int" where
  "total_sort_key expression absent r = (case expression r of None \<Rightarrow> absent | Some v \<Rightarrow> v)"

definition sorted_keyset_predicate ::
    "('r \<Rightarrow> int) \<Rightarrow> ('r \<Rightarrow> uuid) \<Rightarrow> sorted_cursor option \<Rightarrow> sort_spec \<Rightarrow> string + ('r \<Rightarrow> bool)" where
  "sorted_keyset_predicate sort_column id_column c spec =
     (case c of
        None \<Rightarrow> Inr (\<lambda>_. True)
      | Some c \<Rightarrow>
         if sorted_cursor_sort c \<noteq> spec then Inl ''cursor was minted under a different sort''
         else if ss_direction spec = Ascending
         then Inr (\<lambda>r. sort_column r > sc_v c \<or> (sort_column r = sc_v c \<and> id_column r > sc_id c))
         else Inr (\<lambda>r. sort_column r < sc_v c \<or> (sort_column r = sc_v c \<and> id_column r < sc_id c)))"

definition sorted_keyset_order ::
    "('r \<Rightarrow> int) \<Rightarrow> ('r \<Rightarrow> uuid) \<Rightarrow> sort_direction \<Rightarrow> 'r list \<Rightarrow> 'r list" where
  "sorted_keyset_order sort_column id_column direction rows =
     (if direction = Ascending then sort_key (\<lambda>r. (sort_column r, id_column r)) rows
      else rev (sort_key (\<lambda>r. (sort_column r, id_column r)) rows))"

definition build_sorted_page :: "'r list \<Rightarrow> 'c page_request \<Rightarrow> ('r \<Rightarrow> 'c) \<Rightarrow> ('r, 'c) page" where
  "build_sorted_page = build_page"

record bounded_count =
  bt_total :: nat
  bt_is_exact :: bool

definition bounded_total :: "'r list \<Rightarrow> bounded_count" where
  "bounded_total rows =
     (let total = length (take (total_count_cap + 1) rows)
      in if total > total_count_cap then \<lparr>bt_total = total_count_cap, bt_is_exact = False\<rparr>
         else \<lparr>bt_total = total, bt_is_exact = True\<rparr>)"

section \<open>A paged listing\<close>

text \<open>
  The statement a list endpoint runs: its filter, the resuming predicate, the order and one row more than the
  page, then the page. Its sorted counterpart refuses a cursor of another sort.
\<close>

definition list_page ::
    "('r \<Rightarrow> instant) \<Rightarrow> ('r \<Rightarrow> uuid) \<Rightarrow> ('r \<Rightarrow> bool) \<Rightarrow> 'r list \<Rightarrow> cursor page_request \<Rightarrow> ('r, cursor) page" where
  "list_page at_column id_column p rows request =
     build_page (take (nat (fetch_limit request)) (keyset_order at_column id_column
         (filter (\<lambda>r. p r \<and> keyset_predicate at_column id_column (pr_cursor request) r) rows)))
       request (\<lambda>r. \<lparr>cu_at = at_column r, cu_id = id_column r\<rparr>)"

definition list_sorted_page ::
    "('r \<Rightarrow> int) \<Rightarrow> ('r \<Rightarrow> uuid) \<Rightarrow> sort_spec \<Rightarrow> ('r \<Rightarrow> bool) \<Rightarrow> 'r list \<Rightarrow> sorted_cursor page_request
      \<Rightarrow> string + ('r, sorted_cursor) page" where
  "list_sorted_page sort_column id_column spec p rows request =
     (case sorted_keyset_predicate sort_column id_column (pr_cursor request) spec of
        Inl e \<Rightarrow> Inl e
      | Inr resume \<Rightarrow> Inr (build_sorted_page (take (nat (fetch_limit request))
          (sorted_keyset_order sort_column id_column (ss_direction spec) (filter (\<lambda>r. p r \<and> resume r) rows)))
          request (\<lambda>r. \<lparr>sc_k = ss_key spec, sc_d = ss_direction spec, sc_v = sort_column r, sc_id = id_column r\<rparr>)))"

text \<open>A client that follows the cursors, with fuel for as many pages as it asks for.\<close>

fun follow :: "('c option \<Rightarrow> ('r, 'c) page) \<Rightarrow> nat \<Rightarrow> 'c option \<Rightarrow> 'r list list option" where
  "follow page 0 c = None"
| "follow page (Suc n) c =
     (case pg_next_cursor (page c) of
        None \<Rightarrow> Some [pg_items (page c)]
      | Some c' \<Rightarrow> map_option ((#) (pg_items (page c))) (follow page n (Some c')))"

section \<open>The contract\<close>

definition window :: "nat \<Rightarrow> ('r \<Rightarrow> 'c) \<Rightarrow> 'r list \<Rightarrow> ('r, 'c) page" where
  "window n cursor_of rows =
     \<lparr>pg_items = take n rows,
      pg_next_cursor = (if length rows > n then Some (cursor_of (rows ! (n - 1))) else None)\<rparr>"

locale paged_listing =
  fixes page :: "'s \<Rightarrow> 'c option \<Rightarrow> ('r, 'c) page"
    and listing :: "'s \<Rightarrow> 'r list" and page_size :: "'s \<Rightarrow> nat" and cursor_of :: "'r \<Rightarrow> 'c"
    and ok :: "'s \<Rightarrow> bool"
  assumes size_pos: "ok s \<Longrightarrow> 0 < page_size s"
    and first_page: "ok s \<Longrightarrow> page s None = window (page_size s) cursor_of (listing s)"
    and next_page: "ok s \<Longrightarrow> listing s = xs @ r # ys \<Longrightarrow> page s (Some (cursor_of r)) = window (page_size s) cursor_of ys"
begin

lemma follow_tail:
  assumes "ok s" "listing s = xs @ ys" "page s c = window (page_size s) cursor_of ys" "length ys < n"
  shows "\<exists>pages. follow (page s) n c = Some pages \<and> concat pages = ys \<and> (\<forall>p \<in> set pages. length p \<le> page_size s)"
  using assms(2-4)
proof (induction n arbitrary: xs ys c)
  case 0
  then show ?case by simp
next
  case (Suc n)
  let ?k = "page_size s"
  have k: "0 < ?k" by (rule size_pos [OF assms(1)])
  show ?case
  proof (cases "length ys > ?k")
    case False
    with Suc.prems(2) show ?thesis by (simp add: window_def)
  next
    case True
    let ?r = "ys ! (?k - 1)"
    have "ys = take (?k - 1) ys @ ?r # drop ?k ys"
      using True k id_take_nth_drop [of "?k - 1" ys] by simp
    then have split: "listing s = (xs @ take (?k - 1) ys) @ ?r # drop ?k ys"
      using Suc.prems(1) by (metis append_assoc)
    have page': "page s (Some (cursor_of ?r)) = window ?k cursor_of (drop ?k ys)"
      by (rule next_page [OF assms(1) split])
    have "length (drop ?k ys) < n" using Suc.prems(3) k True by simp
    moreover have "listing s = (xs @ take ?k ys) @ drop ?k ys" using Suc.prems(1) by simp
    ultimately obtain pages where p: "follow (page s) n (Some (cursor_of ?r)) = Some pages"
      "concat pages = drop ?k ys" "\<forall>p \<in> set pages. length p \<le> ?k"
      using Suc.IH [OF _ page'] by blast
    then show ?thesis using Suc.prems(2) True by (simp add: window_def)
  qed
qed

lemma follow_complete:
  assumes "ok s" "length (listing s) < n"
  shows "\<exists>pages. follow (page s) n None = Some pages \<and> concat pages = listing s \<and> (\<forall>p \<in> set pages. length p \<le> page_size s)"
  by (rule follow_tail [where xs = "[]"]) (use assms first_page in simp_all)

end

section \<open>Both walks keep it\<close>

lemma build_page_window:
  "1 \<le> pr_limit request \<Longrightarrow> build_page (take (nat (fetch_limit request)) rows) request key = window (nat (pr_limit request)) key rows"
proof -
  assume l: "1 \<le> pr_limit request"
  have f: "nat (fetch_limit request) = Suc (nat (pr_limit request))" using l by (simp add: fetch_limit_def nat_add_distrib)
  have t: "take (nat (pr_limit request)) (take (Suc (nat (pr_limit request))) rows) = take (nat (pr_limit request)) rows"
    by (simp add: take_take min_def)
  have la: "last (take (nat (pr_limit request)) rows) = rows ! (nat (pr_limit request) - 1)"
    if "length rows > nat (pr_limit request)"
    using that l by (subst last_conv_nth) auto
  show ?thesis
    using l la by (auto simp: build_page_def window_def f t Let_def)
qed

text \<open>In a strictly descending list the rows after one of them are those with a smaller key.\<close>

lemma descending_tail:
  fixes k :: "'r \<Rightarrow> 'k::linorder"
  assumes "distinct (map k rows)" "rev (sort_key k rows) = xs @ r # ys"
  shows "rev (sort_key k (filter (\<lambda>s. k s < k r) rows)) = ys"
proof -
  have "rev (sort_key k (filter (\<lambda>s. k s < k r) rows)) = filter (\<lambda>s. k s < k r) (rev (sort_key k rows))"
    by (simp add: rev_filter [symmetric] filter_sort)
  also have "\<dots> = filter (\<lambda>s. k s < k r) xs @ filter (\<lambda>s. k s < k r) ys" using assms(2) by simp
  also have "\<dots> = ys"
  proof -
    have "sort_key k rows = rev ys @ r # rev xs" using assms(2) by (metis rev_append rev_rev_ident rev.simps(2) append.assoc append_Cons append_Nil)
    moreover have "sorted (map k (sort_key k rows))" "distinct (map k (sort_key k rows))"
      using assms(1) by (simp_all add: distinct_map)
    ultimately have s: "sorted (map k (rev ys @ r # rev xs))" "distinct (map k (rev ys @ r # rev xs))" by simp_all
    have "k r \<le> k s" if "s \<in> set xs" for s using s(1) that by (auto simp: sorted_append)
    moreover have "k s < k r" if "s \<in> set ys" for s
    proof -
      have "k s \<le> k r" using s(1) that by (simp add: sorted_append)
      moreover have "k s \<noteq> k r" using s(2) that by (metis disjoint_iff distinct_append image_eqI list.set_intros(1) list.set_map list.simps(9) map_append set_rev)
      ultimately show ?thesis by simp
    qed
    ultimately have "filter (\<lambda>s. k s < k r) xs = []" "filter (\<lambda>s. k s < k r) ys = ys"
      by (auto simp: filter_empty_conv filter_id_conv leD)
    then show ?thesis by simp
  qed
  finally show ?thesis .
qed

lemma ascending_tail:
  fixes k :: "'r \<Rightarrow> 'k::linorder"
  assumes "distinct (map k rows)" "sort_key k rows = xs @ r # ys"
  shows "sort_key k (filter (\<lambda>s. k s > k r) rows) = ys"
proof -
  have "sort_key k (filter (\<lambda>s. k s > k r) rows) = filter (\<lambda>s. k s > k r) (sort_key k rows)"
    by (simp add: filter_sort)
  also have "\<dots> = filter (\<lambda>s. k s > k r) xs @ filter (\<lambda>s. k s > k r) ys" using assms(2) by simp
  also have "\<dots> = ys"
  proof -
    have "sorted (map k (sort_key k rows))" "distinct (map k (sort_key k rows))"
      using assms(1) by (simp_all add: distinct_map)
    then have s: "sorted (map k (xs @ r # ys))" "distinct (map k (xs @ r # ys))" by (simp_all add: assms(2))
    have "k s \<le> k r" if "s \<in> set xs" for s using s(1) that by (auto simp: sorted_append)
    moreover have "k r < k s" if "s \<in> set ys" for s
    proof -
      have "k r \<le> k s" using s(1) that by (simp add: sorted_append)
      moreover have "k r \<noteq> k s" using s(2) that by (metis distinct.simps(2) distinct_append image_eqI list.set_map list.simps(9) map_append)
      ultimately show ?thesis by simp
    qed
    ultimately have "filter (\<lambda>s. k r < k s) xs = []" "filter (\<lambda>s. k r < k s) ys = ys"
      by (auto simp: filter_empty_conv filter_id_conv leD)
    then show ?thesis by simp
  qed
  finally show ?thesis .
qed

type_synonym 'r listing = "int \<times> 'r list"

text \<open>The newest-first walk of a table, whose state is the page size and the rows.\<close>

definition listing_ok :: "('r \<Rightarrow> int) \<Rightarrow> ('r \<Rightarrow> uuid) \<Rightarrow> 'r listing \<Rightarrow> bool" where
  "listing_ok at_column id_column s \<longleftrightarrow>
     1 \<le> fst s \<and> distinct (map (\<lambda>r. (at_column r, id_column r)) (snd s))"

lemma distinct_map_filter_key: "distinct (map k rows) \<Longrightarrow> distinct (map k (filter p rows))"
  by (simp add: distinct_map_filter)

lemma keyset_predicate_key:
  "keyset_predicate at_column id_column (Some \<lparr>cu_at = at_column r, cu_id = id_column r\<rparr>)
     = (\<lambda>s. (at_column s, id_column s) < (at_column r, id_column r))"
  by (auto simp: keyset_predicate_def fun_eq_iff)

interpretation newest_first: paged_listing
  "\<lambda>s c. list_page at_column id_column p (snd s) \<lparr>pr_limit = fst s, pr_cursor = c\<rparr>"
  "\<lambda>s. keyset_order at_column id_column (filter p (snd s))" "\<lambda>s. nat (fst s)"
  "\<lambda>r. \<lparr>cu_at = at_column r, cu_id = id_column r\<rparr>" "listing_ok at_column id_column"
  for at_column id_column p
proof
  fix s :: "'a listing" assume ok: "listing_ok at_column id_column s"
  then show "0 < nat (fst s)" by (simp add: listing_ok_def)
  let ?key = "\<lambda>r. \<lparr>cu_at = at_column r, cu_id = id_column r\<rparr>"
  have l: "1 \<le> pr_limit \<lparr>pr_limit = fst s, pr_cursor = c\<rparr>" for c :: "cursor option"
    using ok by (simp add: listing_ok_def)
  show "list_page at_column id_column p (snd s) \<lparr>pr_limit = fst s, pr_cursor = None\<rparr>
      = window (nat (fst s)) ?key (keyset_order at_column id_column (filter p (snd s)))"
    unfolding list_page_def build_page_window [OF l] by (simp add: keyset_predicate_def)
  fix xs r ys assume split: "keyset_order at_column id_column (filter p (snd s)) = xs @ r # ys"
  let ?k = "\<lambda>r. (at_column r, id_column r)"
  have "distinct (map ?k (filter p (snd s)))"
    using ok by (intro distinct_map_filter_key) (simp add: listing_ok_def)
  from descending_tail [OF this split [unfolded keyset_order_def]]
  have "keyset_order at_column id_column (filter (\<lambda>s. p s \<and> ?k s < ?k r) (snd s)) = ys"
    by (simp add: keyset_order_def conj_commute)
  then show "list_page at_column id_column p (snd s) \<lparr>pr_limit = fst s, pr_cursor = Some (?key r)\<rparr>
      = window (nat (fst s)) ?key ys"
    unfolding list_page_def build_page_window [OF l] by (simp add: keyset_predicate_key)
qed

text \<open>The sorted walk: a client keeps the sort it started with, so no page of it is refused.\<close>

definition sorted_page_or_empty :: "string + ('r, sorted_cursor) page \<Rightarrow> ('r, sorted_cursor) page" where
  "sorted_page_or_empty answer = (case answer of Inl _ \<Rightarrow> \<lparr>pg_items = [], pg_next_cursor = None\<rparr> | Inr p \<Rightarrow> p)"

lemma sorted_predicate_key:
  "sorted_keyset_predicate col id_column (Some \<lparr>sc_k = ss_key spec, sc_d = ss_direction spec, sc_v = col r, sc_id = id_column r\<rparr>) spec
     = Inr (\<lambda>s. if ss_direction spec = Ascending then (col s, id_column s) > (col r, id_column r)
             else (col s, id_column s) < (col r, id_column r))"
  by (auto simp: sorted_keyset_predicate_def sorted_cursor_sort_def fun_eq_iff)

interpretation sorted_by: paged_listing
  "\<lambda>s c. sorted_page_or_empty (list_sorted_page col id_column spec p (snd s) \<lparr>pr_limit = fst s, pr_cursor = c\<rparr>)"
  "\<lambda>s. sorted_keyset_order col id_column (ss_direction spec) (filter p (snd s))" "\<lambda>s. nat (fst s)"
  "\<lambda>r. \<lparr>sc_k = ss_key spec, sc_d = ss_direction spec, sc_v = col r, sc_id = id_column r\<rparr>" "listing_ok col id_column"
  for col id_column spec p
proof
  fix s :: "'a listing" assume ok: "listing_ok col id_column s"
  then show "0 < nat (fst s)" by (simp add: listing_ok_def)
  let ?key = "\<lambda>r. \<lparr>sc_k = ss_key spec, sc_d = ss_direction spec, sc_v = col r, sc_id = id_column r\<rparr>"
  let ?k = "\<lambda>r. (col r, id_column r)"
  have l: "1 \<le> pr_limit \<lparr>pr_limit = fst s, pr_cursor = c\<rparr>" for c :: "sorted_cursor option"
    using ok by (simp add: listing_ok_def)
  show "sorted_page_or_empty (list_sorted_page col id_column spec p (snd s) \<lparr>pr_limit = fst s, pr_cursor = None\<rparr>)
      = window (nat (fst s)) ?key (sorted_keyset_order col id_column (ss_direction spec) (filter p (snd s)))"
    by (simp add: sorted_page_or_empty_def list_sorted_page_def build_sorted_page_def build_page_window [OF l]
        sorted_keyset_predicate_def)
  fix xs r ys assume split: "sorted_keyset_order col id_column (ss_direction spec) (filter p (snd s)) = xs @ r # ys"
  have dist: "distinct (map ?k (filter p (snd s)))"
    using ok by (intro distinct_map_filter_key) (simp add: listing_ok_def)
  let ?resume = "\<lambda>s. if ss_direction spec = Ascending then ?k s > ?k r else ?k s < ?k r"
  have "sorted_keyset_order col id_column (ss_direction spec) (filter (\<lambda>s. p s \<and> ?resume s) (snd s)) = ys"
  proof (cases "ss_direction spec = Ascending")
    case True
    then have "sort_key ?k (filter p (snd s)) = xs @ r # ys" using split by (simp add: sorted_keyset_order_def)
    from ascending_tail [OF dist this] True show ?thesis by (simp add: sorted_keyset_order_def conj_commute)
  next
    case False
    then have "rev (sort_key ?k (filter p (snd s))) = xs @ r # ys" using split by (simp add: sorted_keyset_order_def)
    from descending_tail [OF dist this] False show ?thesis by (simp add: sorted_keyset_order_def conj_commute)
  qed
  then show "sorted_page_or_empty (list_sorted_page col id_column spec p (snd s) \<lparr>pr_limit = fst s, pr_cursor = Some (?key r)\<rparr>)
      = window (nat (fst s)) ?key ys"
    by (simp only: sorted_page_or_empty_def list_sorted_page_def build_sorted_page_def page_request.select_convs sorted_predicate_key
        sum.case build_page_window [OF l])
qed

section \<open>Properties\<close>

lemma set_keyset_order [simp]: "set (keyset_order at_column id_column rows) = set rows"
  and length_keyset_order [simp]: "length (keyset_order at_column id_column rows) = length rows"
  and length_sorted_keyset_order [simp]: "length (sorted_keyset_order at_column id_column dir rows) = length rows"
  by (simp_all add: keyset_order_def sorted_keyset_order_def)

lemma filter_length_less: "length (filter p rows) < Suc (length rows)"
  by (simp add: le_imp_less_Suc)

text \<open>C36. Paging is exact: a client that follows the cursors of a listing gets, in as many pages as it has rows at most,
  every matching row exactly once in the listing's order, newest first or by any sort key in either direction, and a cursor
  minted under another sort is refused.\<close>

theorem paging_visits_each_row_once:
  assumes "distinct (map (\<lambda>r. (at_column r, id_column r)) rows)" "1 \<le> limit"
  shows "(\<exists>pages. follow (\<lambda>c. list_page at_column id_column p rows \<lparr>pr_limit = limit, pr_cursor = c\<rparr>) (Suc (length rows)) None
        = Some pages \<and> concat pages = keyset_order at_column id_column (filter p rows)
        \<and> (\<forall>page \<in> set pages. int (length page) \<le> limit))
    \<and> (\<exists>pages. follow (\<lambda>c. sorted_page_or_empty (list_sorted_page at_column id_column spec p rows
              \<lparr>pr_limit = limit, pr_cursor = c\<rparr>)) (Suc (length rows)) None = Some pages
        \<and> concat pages = sorted_keyset_order at_column id_column (ss_direction spec) (filter p rows))
    \<and> (sorted_cursor_sort c \<noteq> spec \<longrightarrow>
        isl (list_sorted_page at_column id_column spec p rows \<lparr>pr_limit = limit, pr_cursor = Some c\<rparr>))"
proof -
  have ok: "listing_ok at_column id_column (limit, rows)" using assms by (simp add: listing_ok_def)
  have 1: "length (keyset_order at_column id_column (filter p (snd (limit, rows)))) < Suc (length rows)"
    "length (sorted_keyset_order at_column id_column (ss_direction spec) (filter p (snd (limit, rows)))) < Suc (length rows)"
    using filter_length_less [of p rows] by simp_all
  have "\<exists>pages. follow (\<lambda>c. list_page at_column id_column p rows \<lparr>pr_limit = limit, pr_cursor = c\<rparr>) (Suc (length rows)) None
        = Some pages \<and> concat pages = keyset_order at_column id_column (filter p rows)
        \<and> (\<forall>page \<in> set pages. length page \<le> nat limit)"
    using newest_first.follow_complete [where p = p, OF ok 1(1)] by simp
  moreover have "\<exists>pages. follow (\<lambda>c. sorted_page_or_empty (list_sorted_page at_column id_column spec p rows
              \<lparr>pr_limit = limit, pr_cursor = c\<rparr>)) (Suc (length rows)) None = Some pages
        \<and> concat pages = sorted_keyset_order at_column id_column (ss_direction spec) (filter p rows)"
    using sorted_by.follow_complete [where p = p and spec = spec, OF ok 1(2)] by auto
  moreover have "isl (list_sorted_page at_column id_column spec p rows \<lparr>pr_limit = limit, pr_cursor = Some c\<rparr>)"
    if "sorted_cursor_sort c \<noteq> spec"
    using that by (simp add: list_sorted_page_def sorted_keyset_predicate_def)
  moreover have "int n \<le> limit \<longleftrightarrow> n \<le> nat limit" for n using assms(2) by linarith
  ultimately show ?thesis by auto
qed

lemma paging_witness:
  "\<exists>pages. follow (\<lambda>c. list_page fst snd (\<lambda>_. True) [(3 :: int, [1 :: nat]), (5, [2]), (3, [9])] \<lparr>pr_limit = 2, pr_cursor = c\<rparr>) 4 None
     = Some pages \<and> concat pages = [(5, [2]), (3, [9]), (3, [1])]"
proof -
  let ?rows = "[(3 :: int, [1 :: nat]), (5, [2]), (3, [9])]"
  have d: "distinct (map (\<lambda>r. (fst r, snd r)) ?rows)" by simp
  have n: "Suc (length ?rows) = 4" and l: "(1 :: int) \<le> 2" by simp_all
  have k: "keyset_order fst snd (filter (\<lambda>_. True) ?rows) = [(5, [2]), (3, [9]), (3, [1])]"
    by (simp add: keyset_order_def)
  from paging_visits_each_row_once [OF d l, unfolded n, where p = "\<lambda>_. True", unfolded k] show ?thesis by blast
qed

end
