(* ===== verification/Broadcasts.thy ===== *)
theory Broadcasts
  imports Keyset Membership
begin

text \<open>
  The broadcast tables (\<^verbatim>\<open>src/src/bayram/db/broadcasts.py\<close>): composing and moving a campaign, expanding its frozen
  audience page by page, and the send ledger of its recipients. Every transition is a conditional update
  whose row count of one is the claim. The audience predicate of the compiled segment, the fresh
  identifiers and the clock are arguments.
\<close>

section \<open>Constants and shapes\<close>

definition expand_chunk_size :: nat where "expand_chunk_size = 500"
definition send_chunk_size :: nat where "send_chunk_size = 200"
definition due_scan_limit :: nat where "due_scan_limit = 50"
definition stale_sending_error_code :: pystr where "stale_sending_error_code = ustr ''sending_lease_expired''"

definition terminal_broadcast_states :: "broadcast_state set" where
  "terminal_broadcast_states = {Campaign_COMPLETED, Campaign_CANCELLED, Campaign_FAILED}"

definition terminal_recipient_states :: "broadcast_recipient_state set" where
  "terminal_recipient_states = {Recipient_SENT, Recipient_FAILED, Recipient_SKIPPED_BLOCKED,
     Recipient_UNDELIVERABLE, Recipient_UNKNOWN}"

definition editable_states :: "broadcast_state set" where
  "editable_states = {Campaign_DRAFT, Campaign_EXPANDING, Campaign_READY}"

record broadcast_actor =
  ba_admin_id :: "uuid option"
  ba_username :: "pystr option"

record broadcast_body =
  by_language :: language
  by_text :: pystr
  by_media_storage_key :: "pystr option"
  by_button_label :: "pystr option"
  by_button_url :: "pystr option"

record new_broadcast =
  nb_title :: pystr
  nb_kind :: broadcast_kind
  nb_segment :: pystr
  nb_segment_hash :: pystr
  nb_audience_size :: int
  nb_audience_evaluated_at :: instant
  nb_bodies :: "broadcast_body list"
  nb_scheduled_for :: "instant option"
  nb_created_by :: broadcast_actor
  nb_reason_code :: "audit_reason_code option"
  nb_reason_ref :: "pystr option"

record expansion_chunk =
  ec_scanned :: nat
  ec_inserted :: nat
  ec_suppressed :: nat
  ec_next_cursor :: "cursor option"
  ec_accepted :: bool

definition is_complete :: "expansion_chunk \<Rightarrow> bool" where
  "is_complete c \<longleftrightarrow> ec_accepted c \<and> ec_next_cursor c = None"

record claimed_recipient =
  cr_id :: uuid
  cr_telegram_user_id :: "int option"
  cr_language :: language
  cr_attempts :: int

record recipient_tally =
  rt_total :: nat
  rt_pending :: nat
  rt_sending :: nat
  rt_sent :: nat
  rt_failed :: nat
  rt_skipped :: nat
  rt_undeliverable :: nat
  rt_unknown :: nat

definition outstanding :: "recipient_tally \<Rightarrow> nat" where
  "outstanding t = rt_pending t + rt_sending t"

record broadcast_plan =
  bp_id :: uuid
  bp_state :: broadcast_state
  bp_kind :: broadcast_kind
  bp_segment :: pystr
  bp_audience_evaluated_at :: instant
  bp_expand_cursor :: "(instant \<times> uuid) option"
  bp_scheduled_for :: "instant option"
  bp_actor :: broadcast_actor
  bp_actor_role :: "admin_role option"
  bp_reason_code :: "audit_reason_code option"
  bp_reason_ref :: "pystr option"

record composed_body =
  cb_language :: language
  cb_text :: pystr
  cb_media_storage_key :: "pystr option"
  cb_media_file_id :: "pystr option"
  cb_button_label :: "pystr option"
  cb_button_url :: "pystr option"

record due_broadcast =
  du_id :: uuid
  du_state :: broadcast_state
  du_scheduled_for :: "instant option"
  du_audience_evaluated_at :: instant

section \<open>Composing\<close>

text \<open>The CHECK constraints of a body row; one body per campaign and language.\<close>

definition body_checks :: "broadcast_body_row \<Rightarrow> bool" where
  "body_checks b \<longleftrightarrow> length (bb_text b) > 0 \<and> (bb_button_label b = None \<longleftrightarrow> bb_button_url b = None)
     \<and> (bb_media_storage_key b = None \<or> length (bb_text b) \<le> 1024)
     \<and> (bb_media_file_id b = None \<or> bb_media_storage_key b \<noteq> None)"

fun insert_bodies :: "db \<Rightarrow> uuid \<Rightarrow> broadcast_body list \<Rightarrow> instant \<Rightarrow> (db, unit) outcome" where
  "insert_bodies d broadcast_id [] at = Inr ((), d)"
| "insert_bodies d broadcast_id (body # rest) at =
     (let row = \<lparr>bb_broadcast_id = broadcast_id, bb_language = by_language body, bb_text = by_text body,
            bb_media_storage_key = by_media_storage_key body, bb_media_file_id = None,
            bb_button_label = by_button_label body, bb_button_url = by_button_url body,
            bb_created_at = at, bb_updated_at = at\<rparr>
      in if \<not> body_checks row \<or> select_one bc_id broadcast_id (broadcasts d) = None
            \<or> list_ex (\<lambda>b. bb_broadcast_id b = broadcast_id \<and> bb_language b = by_language body) (broadcast_bodies d)
         then Inl IntegrityError
         else insert_bodies (d\<lparr>broadcast_bodies := broadcast_bodies d @ [row]\<rparr>) broadcast_id rest at)"

definition create_broadcast :: "db \<Rightarrow> uuid \<Rightarrow> new_broadcast \<Rightarrow> instant \<Rightarrow> (db, uuid) outcome" where
  "create_broadcast d broadcast_id draft at =
     (if select_one bc_id broadcast_id (broadcasts d) \<noteq> None then Inl IntegrityError
      else tx_then (insert_bodies (d\<lparr>broadcasts := broadcasts d @
         [\<lparr>bc_id = broadcast_id, bc_title = nb_title draft, bc_kind = nb_kind draft, bc_state = Campaign_EXPANDING,
           bc_segment = nb_segment draft, bc_segment_hash = nb_segment_hash draft,
           bc_audience_size = nb_audience_size draft, bc_audience_evaluated_at = nb_audience_evaluated_at draft,
           bc_expand_cursor = None, bc_scheduled_for = nb_scheduled_for draft, bc_started_at = None,
           bc_finished_at = None, bc_recipient_count = 0, bc_sent_count = 0, bc_failed_count = 0,
           bc_skipped_count = 0, bc_undeliverable_count = 0, bc_unknown_count = 0,
           bc_created_by_admin_id = ba_admin_id (nb_created_by draft),
           bc_created_by_username = ba_username (nb_created_by draft),
           bc_scheduled_by_admin_id = None, bc_scheduled_by_username = None,
           bc_reason_code = nb_reason_code draft, bc_reason_ref = nb_reason_ref draft,
           bc_error_code = None, bc_created_at = at, bc_updated_at = at\<rparr>]\<rparr>)
         broadcast_id (nb_bodies draft) at) (\<lambda>_ d. Inr (broadcast_id, d)))"

definition update_broadcasts ::
    "(broadcast_row \<Rightarrow> bool) \<Rightarrow> (broadcast_row \<Rightarrow> broadcast_row) \<Rightarrow> db \<Rightarrow> bool \<times> db" where
  "update_broadcasts p f d = (rowcount p (broadcasts d) = 1, d\<lparr>broadcasts := sql_update p f (broadcasts d)\<rparr>)"

definition revise_broadcast ::
    "db \<Rightarrow> uuid \<Rightarrow> pystr \<Rightarrow> broadcast_body list \<Rightarrow> instant \<Rightarrow> (db, bool) outcome" where
  "revise_broadcast d broadcast_id title bodies at =
     (case update_broadcasts (\<lambda>b. bc_id b = broadcast_id \<and> bc_state b \<in> editable_states)
             (\<lambda>b. b\<lparr>bc_title := title, bc_updated_at := at\<rparr>) d of
        (won, d) \<Rightarrow>
          if \<not> won then Inr (False, d)
          else tx_then (insert_bodies (d\<lparr>broadcast_bodies :=
                   filter (\<lambda>b. bb_broadcast_id b \<noteq> broadcast_id) (broadcast_bodies d)\<rparr>) broadcast_id bodies at)
                 (\<lambda>_ d. Inr (True, d)))"

definition mark_scheduled ::
    "db \<Rightarrow> uuid \<Rightarrow> instant option \<Rightarrow> broadcast_actor \<Rightarrow> instant \<Rightarrow> audit_reason_code option \<Rightarrow> pystr option
      \<Rightarrow> bool \<times> db" where
  "mark_scheduled d broadcast_id scheduled_for scheduled_by at reason reason_ref =
     update_broadcasts (\<lambda>b. bc_id b = broadcast_id \<and> bc_state b = Campaign_READY)
       (\<lambda>b. b\<lparr>bc_scheduled_for := scheduled_for, bc_scheduled_by_admin_id := ba_admin_id scheduled_by,
              bc_scheduled_by_username := ba_username scheduled_by, bc_reason_code := reason,
              bc_reason_ref := reason_ref, bc_updated_at := at\<rparr>) d"

section \<open>The campaign's states\<close>

definition mark_sending :: "db \<Rightarrow> uuid \<Rightarrow> instant \<Rightarrow> bool \<times> db" where
  "mark_sending d broadcast_id at =
     update_broadcasts (\<lambda>b. bc_id b = broadcast_id \<and> bc_state b = Campaign_READY)
       (\<lambda>b. b\<lparr>bc_state := Campaign_SENDING, bc_started_at := Some at, bc_updated_at := at\<rparr>) d"

definition pause :: "db \<Rightarrow> uuid \<Rightarrow> instant \<Rightarrow> bool \<times> db" where
  "pause d broadcast_id at =
     update_broadcasts (\<lambda>b. bc_id b = broadcast_id \<and> bc_state b = Campaign_SENDING)
       (\<lambda>b. b\<lparr>bc_state := Campaign_PAUSED, bc_updated_at := at\<rparr>) d"

definition resume :: "db \<Rightarrow> uuid \<Rightarrow> instant \<Rightarrow> bool \<times> db" where
  "resume d broadcast_id at =
     update_broadcasts (\<lambda>b. bc_id b = broadcast_id \<and> bc_state b = Campaign_PAUSED)
       (\<lambda>b. b\<lparr>bc_state := Campaign_SENDING, bc_updated_at := at\<rparr>) d"

text \<open>A state that is not terminal is a programming error the store does not catch: a \<^verbatim>\<open>ValueError\<close>.\<close>

definition mark_finished ::
    "db \<Rightarrow> uuid \<Rightarrow> broadcast_state \<Rightarrow> instant \<Rightarrow> pystr option \<Rightarrow> string + bool \<times> db" where
  "mark_finished d broadcast_id state at error_code =
     (if state \<notin> terminal_broadcast_states then Inl ''state is not a terminal broadcast state''
      else Inr (update_broadcasts (\<lambda>b. bc_id b = broadcast_id \<and> bc_state b \<notin> terminal_broadcast_states)
        (\<lambda>b. b\<lparr>bc_state := state, bc_finished_at := Some at, bc_error_code := error_code, bc_updated_at := at\<rparr>) d))"

definition cancel :: "db \<Rightarrow> uuid \<Rightarrow> instant \<Rightarrow> string + bool \<times> db" where
  "cancel d broadcast_id at = mark_finished d broadcast_id Campaign_CANCELLED at None"

definition current_state :: "db \<Rightarrow> uuid \<Rightarrow> broadcast_state option" where
  "current_state d broadcast_id = map_option bc_state (select_one bc_id broadcast_id (broadcasts d))"

end
