(* ===== verification/Broadcast_Ledger.thy ===== *)
theory Broadcast_Ledger
  imports Broadcasts
begin

text \<open>
  The reads of \<^verbatim>\<open>src/src/bayram/db/broadcasts.py\<close>, the expansion of a frozen audience and the send ledger, and the
  store \<^verbatim>\<open>SqlBroadcasts\<close> that runs each in one guarded transaction.
\<close>

section \<open>Reading\<close>

text \<open>Python's \<^verbatim>\<open>or\<close> on two optional strings: an empty one is passed over too.\<close>

definition str_or :: "pystr option \<Rightarrow> pystr option \<Rightarrow> pystr option" where
  "str_or a b = (if a = None \<or> a = Some [] then b else a)"

definition coalesce :: "'a option \<Rightarrow> 'a option \<Rightarrow> 'a option" where
  "coalesce a b = (case a of None \<Rightarrow> b | Some _ \<Rightarrow> a)"

definition load_plan :: "db \<Rightarrow> uuid \<Rightarrow> broadcast_plan option" where
  "load_plan d broadcast_id =
     (case select_one bc_id broadcast_id (broadcasts d) of
        None \<Rightarrow> None
      | Some row \<Rightarrow>
         (let admin = coalesce (bc_scheduled_by_admin_id row) (bc_created_by_admin_id row);
              scheduler = (case admin of None \<Rightarrow> None | Some a \<Rightarrow> select_one au_id a (admin_users d))
          in Some \<lparr>bp_id = bc_id row, bp_state = bc_state row, bp_kind = bc_kind row, bp_segment = bc_segment row,
               bp_audience_evaluated_at = bc_audience_evaluated_at row, bp_expand_cursor = bc_expand_cursor row,
               bp_scheduled_for = bc_scheduled_for row,
               bp_actor = \<lparr>ba_admin_id = admin,
                 ba_username = str_or (bc_scheduled_by_username row) (bc_created_by_username row)\<rparr>,
               bp_actor_role = map_option au_role scheduler, bp_reason_code = bc_reason_code row,
               bp_reason_ref = bc_reason_ref row\<rparr>))"

fun language_rank :: "language \<Rightarrow> nat" where
  "language_rank EN = 0" | "language_rank RU = 1" | "language_rank UZ_CYRL = 2" | "language_rank UZ_LATN = 3"

text \<open>\<^verbatim>\<open>ORDER BY language\<close>: the column holds the language's text.\<close>

definition load_bodies :: "db \<Rightarrow> uuid \<Rightarrow> composed_body list" where
  "load_bodies d broadcast_id =
     map (\<lambda>row. \<lparr>cb_language = bb_language row, cb_text = bb_text row,
            cb_media_storage_key = bb_media_storage_key row, cb_media_file_id = bb_media_file_id row,
            cb_button_label = bb_button_label row, cb_button_url = bb_button_url row\<rparr>)
       (sort_key (\<lambda>b. language_rank (bb_language b))
         (filter (\<lambda>b. bb_broadcast_id b = broadcast_id) (broadcast_bodies d)))"

definition due_broadcasts :: "db \<Rightarrow> instant \<Rightarrow> instant \<Rightarrow> nat \<Rightarrow> due_broadcast list" where
  "due_broadcasts d now stalled_before limit =
     (let is_due = (\<lambda>b. bc_state b = Campaign_READY
            \<and> (case bc_scheduled_for b of None \<Rightarrow> True | Some t \<Rightarrow> t \<le> now));
          is_stalled = (\<lambda>b. bc_state b \<in> {Campaign_EXPANDING, Campaign_SENDING} \<and> bc_updated_at b \<le> stalled_before)
      in map (\<lambda>b. \<lparr>du_id = bc_id b, du_state = bc_state b, du_scheduled_for = bc_scheduled_for b,
                   du_audience_evaluated_at = bc_audience_evaluated_at b\<rparr>)
           (take limit (sort_key (\<lambda>b. (bc_created_at b, bc_id b))
             (filter (\<lambda>b. is_due b \<or> is_stalled b) (broadcasts d)))))"

section \<open>Expanding\<close>

definition decode_expand_cursor :: "(instant \<times> uuid) option \<Rightarrow> cursor option" where
  "decode_expand_cursor raw = map_option (\<lambda>(at, row_id). \<lparr>cu_at = at, cu_id = row_id\<rparr>) raw"

definition is_unreachable :: "user_row \<Rightarrow> bool" where
  "is_unreachable row = (us_is_blocked row \<or> us_blocked_bot_at row \<noteq> None)"

definition recipient_of :: "uuid \<Rightarrow> instant \<Rightarrow> uuid \<Rightarrow> user_row \<Rightarrow> broadcast_recipient_row" where
  "recipient_of broadcast_id at fresh row =
     \<lparr>br_id = fresh, br_broadcast_id = broadcast_id, br_telegram_user_id = Some (us_telegram_user_id row),
      br_language = us_ui_language row,
      br_state = (if is_unreachable row then Recipient_SKIPPED_BLOCKED else Recipient_PENDING),
      br_attempts = 0, br_error_code = None, br_settled_at = (if is_unreachable row then Some at else None),
      br_created_at = at, br_updated_at = at\<rparr>"

text \<open>
  One insert per scanned account; the counts are of rows written and of accounts suppressed. The arbiter is
  the unique pair of campaign and account; the id of the row is the other key, the campaign a foreign key.
\<close>

fun expand_rows ::
    "bool \<Rightarrow> uuid \<Rightarrow> instant \<Rightarrow> (nat \<Rightarrow> uuid) \<Rightarrow> nat \<Rightarrow> user_row list \<Rightarrow> broadcast_recipient_row list
      \<Rightarrow> exn + (nat \<times> nat) \<times> broadcast_recipient_row list" where
  "expand_rows exists broadcast_id at fresh n [] rs = Inr ((0, 0), rs)"
| "expand_rows exists broadcast_id at fresh n (row # rest) rs =
     (case insert_or_ignore (\<lambda>_. exists) (\<lambda>r. (br_broadcast_id r, br_telegram_user_id r))
             (\<lambda>r s. br_id s = br_id r) (recipient_of broadcast_id at (fresh n) row) rs of
        Inl e \<Rightarrow> Inl e
      | Inr (written, rs) \<Rightarrow>
         (case expand_rows exists broadcast_id at fresh (Suc n) rest rs of
            Inl e \<Rightarrow> Inl e
          | Inr ((inserted, suppressed), rs) \<Rightarrow>
              Inr ((inserted + (if written then 1 else 0), suppressed + (if is_unreachable row then 1 else 0)), rs)))"

definition expand_chunk ::
    "db \<Rightarrow> uuid \<Rightarrow> (db \<Rightarrow> user_row \<Rightarrow> bool) option \<Rightarrow> cursor option \<Rightarrow> instant \<Rightarrow> nat \<Rightarrow> (nat \<Rightarrow> uuid)
      \<Rightarrow> (db, expansion_chunk) outcome" where
  "expand_chunk d broadcast_id predicate c at limit fresh =
     (let matches = (case predicate of None \<Rightarrow> (\<lambda>_. True) | Some p \<Rightarrow> p d);
          scanned = take (limit + 1) (keyset_order us_created_at us_id
            (filter (\<lambda>u. matches u \<and> keyset_predicate us_created_at us_id c u) (users d)));
          kept = take limit scanned;
          next = (if length scanned > limit \<and> kept \<noteq> []
            then Some \<lparr>cu_at = us_created_at (last kept), cu_id = us_id (last kept)\<rparr> else None)
      in case expand_rows (select_one bc_id broadcast_id (broadcasts d) \<noteq> None) broadcast_id at fresh 0 kept
                (recipients d) of
           Inl e \<Rightarrow> Inl e
         | Inr ((inserted, suppressed), rs) \<Rightarrow>
            (case update_broadcasts (\<lambda>b. bc_id b = broadcast_id \<and> bc_state b = Campaign_EXPANDING)
                 (\<lambda>b. b\<lparr>bc_expand_cursor := map_option (\<lambda>c. (cu_at c, cu_id c)) next,
                        bc_recipient_count := bc_recipient_count b + int inserted,
                        bc_state := (if next \<noteq> None then Campaign_EXPANDING else Campaign_READY),
                        bc_updated_at := at\<rparr>)
                 (d\<lparr>recipients := rs\<rparr>) of
               (accepted, d) \<Rightarrow>
                 Inr (\<lparr>ec_scanned = length kept, ec_inserted = inserted, ec_suppressed = suppressed,
                       ec_next_cursor = next, ec_accepted = accepted\<rparr>, d)))"

section \<open>The send ledger\<close>

definition update_recipients ::
    "(broadcast_recipient_row \<Rightarrow> bool) \<Rightarrow> (broadcast_recipient_row \<Rightarrow> broadcast_recipient_row) \<Rightarrow> db \<Rightarrow> nat \<times> db" where
  "update_recipients p f d = (rowcount p (recipients d), d\<lparr>recipients := sql_update p f (recipients d)\<rparr>)"

definition claim_one :: "instant \<Rightarrow> db \<Rightarrow> uuid \<Rightarrow> bool \<times> db" where
  "claim_one at d recipient_id =
     (case update_recipients (\<lambda>r. br_id r = recipient_id \<and> br_state r = Recipient_PENDING)
             (\<lambda>r. r\<lparr>br_state := Recipient_SENDING, br_attempts := br_attempts r + 1, br_updated_at := at\<rparr>) d of
        (n, d) \<Rightarrow> (n = 1, d))"

fun claim_each :: "instant \<Rightarrow> broadcast_recipient_row list \<Rightarrow> db \<Rightarrow> claimed_recipient list \<times> db" where
  "claim_each at [] d = ([], d)"
| "claim_each at (candidate # rest) d =
     (case claim_one at d (br_id candidate) of
        (won, d) \<Rightarrow> (case claim_each at rest d of
           (claimed, d) \<Rightarrow>
             (if won then \<lparr>cr_id = br_id candidate, cr_telegram_user_id = br_telegram_user_id candidate,
                cr_language = br_language candidate, cr_attempts = br_attempts candidate + 1\<rparr> # claimed
              else claimed, d)))"

definition claim_chunk :: "db \<Rightarrow> uuid \<Rightarrow> instant \<Rightarrow> nat \<Rightarrow> claimed_recipient list \<times> db" where
  "claim_chunk d broadcast_id at limit =
     claim_each at (take limit (sort_key (\<lambda>r. (br_created_at r, br_id r))
       (filter (\<lambda>r. br_broadcast_id r = broadcast_id \<and> br_state r = Recipient_PENDING) (recipients d)))) d"

definition settle_recipient ::
    "db \<Rightarrow> uuid \<Rightarrow> broadcast_recipient_state \<Rightarrow> instant \<Rightarrow> pystr option \<Rightarrow> string + bool \<times> db" where
  "settle_recipient d recipient_id state at error_code =
     (if state \<notin> terminal_recipient_states then Inl ''state is not a terminal recipient state''
      else Inr (case update_recipients (\<lambda>r. br_id r = recipient_id \<and> br_state r = Recipient_SENDING)
             (\<lambda>r. r\<lparr>br_state := state, br_settled_at := Some at, br_error_code := error_code, br_updated_at := at\<rparr>) d of
        (n, d) \<Rightarrow> (n = 1, d)))"

definition release_recipient :: "db \<Rightarrow> uuid \<Rightarrow> instant \<Rightarrow> bool \<times> db" where
  "release_recipient d recipient_id at =
     (case update_recipients (\<lambda>r. br_id r = recipient_id \<and> br_state r = Recipient_SENDING)
             (\<lambda>r. r\<lparr>br_state := Recipient_PENDING, br_updated_at := at\<rparr>) d of (n, d) \<Rightarrow> (n = 1, d))"

definition age_stale_sending :: "db \<Rightarrow> uuid \<Rightarrow> instant \<Rightarrow> instant \<Rightarrow> nat \<times> db" where
  "age_stale_sending d broadcast_id older_than at =
     update_recipients (\<lambda>r. br_broadcast_id r = broadcast_id \<and> br_state r = Recipient_SENDING
         \<and> br_updated_at r < older_than)
       (\<lambda>r. r\<lparr>br_state := Recipient_UNKNOWN, br_settled_at := Some at,
              br_error_code := Some stale_sending_error_code, br_updated_at := at\<rparr>) d"

definition count_state :: "db \<Rightarrow> uuid \<Rightarrow> broadcast_recipient_state \<Rightarrow> nat" where
  "count_state d broadcast_id state =
     rowcount (\<lambda>r. br_broadcast_id r = broadcast_id \<and> br_state r = state) (recipients d)"

definition roll_up_counters :: "db \<Rightarrow> uuid \<Rightarrow> instant \<Rightarrow> recipient_tally \<times> db" where
  "roll_up_counters d broadcast_id at =
     (let t = \<lparr>rt_total = rowcount (\<lambda>r. br_broadcast_id r = broadcast_id) (recipients d),
              rt_pending = count_state d broadcast_id Recipient_PENDING,
              rt_sending = count_state d broadcast_id Recipient_SENDING,
              rt_sent = count_state d broadcast_id Recipient_SENT,
              rt_failed = count_state d broadcast_id Recipient_FAILED,
              rt_skipped = count_state d broadcast_id Recipient_SKIPPED_BLOCKED,
              rt_undeliverable = count_state d broadcast_id Recipient_UNDELIVERABLE,
              rt_unknown = count_state d broadcast_id Recipient_UNKNOWN\<rparr>
      in (t, snd (update_broadcasts (\<lambda>b. bc_id b = broadcast_id)
            (\<lambda>b. b\<lparr>bc_recipient_count := int (rt_total t), bc_sent_count := int (rt_sent t),
                   bc_failed_count := int (rt_failed t), bc_skipped_count := int (rt_skipped t),
                   bc_undeliverable_count := int (rt_undeliverable t), bc_unknown_count := int (rt_unknown t),
                   bc_updated_at := at\<rparr>) d)))"

definition cache_media_file_id :: "db \<Rightarrow> uuid \<Rightarrow> language \<Rightarrow> pystr \<Rightarrow> instant \<Rightarrow> bool \<times> db" where
  "cache_media_file_id d broadcast_id language file_id at =
     (let p = (\<lambda>b. bb_broadcast_id b = broadcast_id \<and> bb_language b = language
                 \<and> bb_media_storage_key b \<noteq> None \<and> bb_media_file_id b = None)
      in (rowcount p (broadcast_bodies d) = 1,
          d\<lparr>broadcast_bodies := sql_update p
              (\<lambda>b. b\<lparr>bb_media_file_id := Some file_id, bb_updated_at := at\<rparr>) (broadcast_bodies d)\<rparr>))"

section \<open>The store\<close>

definition bs_session ::
    "string \<Rightarrow> (db \<Rightarrow> (db, 'a) outcome) \<Rightarrow> db \<Rightarrow> db \<times> (bayram_error + 'a)" where
  "bs_session operation work = run_guarded operation (\<lambda>d. returning (work d))"

definition bs_state_of :: "uuid \<Rightarrow> db \<Rightarrow> db \<times> (bayram_error + broadcast_state option)" where
  "bs_state_of broadcast_id = bs_session ''broadcasts.state_of'' (\<lambda>d. Inr (current_state d broadcast_id, d))"

definition bs_plan :: "uuid \<Rightarrow> db \<Rightarrow> db \<times> (bayram_error + broadcast_plan option)" where
  "bs_plan broadcast_id = bs_session ''broadcasts.plan'' (\<lambda>d. Inr (load_plan d broadcast_id, d))"

definition bs_bodies :: "uuid \<Rightarrow> db \<Rightarrow> db \<times> (bayram_error + composed_body list)" where
  "bs_bodies broadcast_id = bs_session ''broadcasts.bodies'' (\<lambda>d. Inr (load_bodies d broadcast_id, d))"

definition bs_due :: "instant \<Rightarrow> instant \<Rightarrow> nat \<Rightarrow> db \<Rightarrow> db \<times> (bayram_error + due_broadcast list)" where
  "bs_due now stalled_before limit =
     bs_session ''broadcasts.due'' (\<lambda>d. Inr (due_broadcasts d now stalled_before limit, d))"

definition bs_expand ::
    "uuid \<Rightarrow> (db \<Rightarrow> user_row \<Rightarrow> bool) option \<Rightarrow> cursor option \<Rightarrow> instant \<Rightarrow> nat \<Rightarrow> (nat \<Rightarrow> uuid) \<Rightarrow> db
      \<Rightarrow> db \<times> (bayram_error + expansion_chunk)" where
  "bs_expand broadcast_id predicate c at limit fresh =
     bs_session ''broadcasts.expand'' (\<lambda>d. expand_chunk d broadcast_id predicate c at limit fresh)"

definition bs_start :: "uuid \<Rightarrow> instant \<Rightarrow> db \<Rightarrow> db \<times> (bayram_error + bool)" where
  "bs_start broadcast_id at = bs_session ''broadcasts.start'' (\<lambda>d. Inr (mark_sending d broadcast_id at))"

definition bs_claim :: "uuid \<Rightarrow> instant \<Rightarrow> nat \<Rightarrow> db \<Rightarrow> db \<times> (bayram_error + claimed_recipient list)" where
  "bs_claim broadcast_id at limit = bs_session ''broadcasts.claim'' (\<lambda>d. Inr (claim_chunk d broadcast_id at limit))"

text \<open>The two operations whose state argument is checked raise past the guard when it is wrong.\<close>

definition bs_settle ::
    "uuid \<Rightarrow> broadcast_recipient_state \<Rightarrow> instant \<Rightarrow> pystr option \<Rightarrow> db \<Rightarrow> string + db \<times> (bayram_error + bool)" where
  "bs_settle recipient_id state at error_code d =
     (case settle_recipient d recipient_id state at error_code of
        Inl e \<Rightarrow> Inl e | Inr (won, d) \<Rightarrow> Inr (d, Inr won))"

definition bs_release :: "uuid \<Rightarrow> instant \<Rightarrow> db \<Rightarrow> db \<times> (bayram_error + bool)" where
  "bs_release recipient_id at = bs_session ''broadcasts.release'' (\<lambda>d. Inr (release_recipient d recipient_id at))"

definition bs_age_stale :: "uuid \<Rightarrow> instant \<Rightarrow> instant \<Rightarrow> db \<Rightarrow> db \<times> (bayram_error + nat)" where
  "bs_age_stale broadcast_id older_than at =
     bs_session ''broadcasts.age_stale'' (\<lambda>d. Inr (age_stale_sending d broadcast_id older_than at))"

definition bs_roll_up :: "uuid \<Rightarrow> instant \<Rightarrow> db \<Rightarrow> db \<times> (bayram_error + recipient_tally)" where
  "bs_roll_up broadcast_id at = bs_session ''broadcasts.roll_up'' (\<lambda>d. Inr (roll_up_counters d broadcast_id at))"

definition bs_finish ::
    "uuid \<Rightarrow> broadcast_state \<Rightarrow> instant \<Rightarrow> pystr option \<Rightarrow> db \<Rightarrow> string + db \<times> (bayram_error + bool)" where
  "bs_finish broadcast_id state at error_code d =
     (case mark_finished d broadcast_id state at error_code of
        Inl e \<Rightarrow> Inl e | Inr (won, d) \<Rightarrow> Inr (d, Inr won))"

definition bs_remember_media_file_id :: "uuid \<Rightarrow> language \<Rightarrow> pystr \<Rightarrow> instant \<Rightarrow> db \<Rightarrow> db \<times> (bayram_error + bool)" where
  "bs_remember_media_file_id broadcast_id language file_id at =
     bs_session ''broadcasts.remember_media_file_id'' (\<lambda>d. Inr (cache_media_file_id d broadcast_id language file_id at))"

end
