(* ===== verification/Broadcast_Send.thy ===== *)
theory Broadcast_Send
  imports Broadcast_Ledger
begin

text \<open>
  The broadcast jobs of \<^verbatim>\<open>src/src/bayram/runtime/broadcast_job.py\<close>: expanding an audience job by job, starting a
  campaign, and the sender of one claimed chunk as a machine whose every step is one transaction or one call of
  Telegram, so that steps of other workers, of the sweep and of the panel can come in between. What
  Telegram and the object store answer is an argument, and so is the compiled audience of a segment.
\<close>

section \<open>Vocabulary\<close>

definition pause_check_every :: nat where "pause_check_every = 25"

definition no_body :: pystr where "no_body = ustr ''no_body_for_language''"
definition forgotten :: pystr where "forgotten = ustr ''account_forgotten''"
definition media_unreadable :: pystr where "media_unreadable = ustr ''media_unreadable''"
definition blocked_code :: pystr where "blocked_code = ustr ''blocked_by_customer''"
definition chat_unavailable :: pystr where "chat_unavailable = ustr ''chat_unavailable''"
definition segment_undecodable :: pystr where "segment_undecodable = ustr ''segment_undecodable''"

definition undeliverable_messages :: "pystr list" where
  "undeliverable_messages = map ustr [''user is deactivated'', ''chat not found'', ''bot was kicked'', ''peer_id_invalid'']"

definition blocked_by_user_message :: pystr where
  "blocked_by_user_message = ustr ''bot was blocked by the user''"

text \<open>Python's \<^verbatim>\<open>needle in text\<close>.\<close>

fun contains :: "pystr \<Rightarrow> pystr \<Rightarrow> bool" where
  "contains needle [] \<longleftrightarrow> needle = []"
| "contains needle (c # cs) \<longleftrightarrow> take (length needle) (c # cs) = needle \<or> contains needle cs"

text \<open>An error of the Bot API: its class, whether it is a refusal, and its message, case-folded.\<close>

record telegram_error =
  te_class :: pystr
  te_is_forbidden :: bool
  te_message :: pystr

datatype telegram_answer =
    Accepted "pystr option"
  | Retry_After int
  | Api_Error telegram_error

definition is_blocked_by_customer :: "telegram_error \<Rightarrow> bool" where
  "is_blocked_by_customer e = (te_is_forbidden e \<and> contains blocked_by_user_message (te_message e))"

definition is_undeliverable :: "telegram_error \<Rightarrow> bool" where
  "is_undeliverable e = list_ex (\<lambda>known. contains known (te_message e)) undeliverable_messages"

text \<open>How a refusal is settled, and whether it is recorded as the customer's block.\<close>

definition settle_refusal :: "telegram_error \<Rightarrow> broadcast_recipient_state \<times> pystr \<times> bool" where
  "settle_refusal e =
     (if is_blocked_by_customer e then (Recipient_SKIPPED_BLOCKED, blocked_code, True)
      else if is_undeliverable e then (Recipient_UNDELIVERABLE, chat_unavailable, False)
      else (Recipient_FAILED, te_class e, False))"

definition fallback_language :: language where "fallback_language = UZ_LATN"
definition reference_language :: language where "reference_language = EN"

section \<open>Expanding, job by job\<close>

datatype queued_job = Expand_Job uuid | Send_Job uuid

record expand_summary =
  es_scanned :: nat
  es_inserted :: nat
  es_suppressed :: nat
  es_is_complete :: bool
  es_state :: "broadcast_state option"
  es_is_due :: "bool option"
  es_error :: "pystr option"

definition expand_summary_of ::
    "expansion_chunk option \<Rightarrow> broadcast_state option \<Rightarrow> bool option \<Rightarrow> pystr option \<Rightarrow> expand_summary" where
  "expand_summary_of chunk state is_due error =
     (case chunk of
        None \<Rightarrow> \<lparr>es_scanned = 0, es_inserted = 0, es_suppressed = 0, es_is_complete = False,
                  es_state = state, es_is_due = is_due, es_error = error\<rparr>
      | Some c \<Rightarrow> \<lparr>es_scanned = ec_scanned c, es_inserted = ec_inserted c, es_suppressed = ec_suppressed c,
                  es_is_complete = is_complete c, es_state = state, es_is_due = is_due, es_error = error\<rparr>)"

definition fail_campaign :: "uuid \<Rightarrow> pystr \<Rightarrow> instant \<Rightarrow> db \<Rightarrow> db" where
  "fail_campaign broadcast_id error_code at d =
     (case bs_finish broadcast_id Campaign_FAILED at (Some error_code) d of Inl _ \<Rightarrow> d | Inr (d, _) \<Rightarrow> d)"

fun error_class_code :: "bayram_error \<Rightarrow> pystr" where
  "error_class_code (StorageError _) = ustr ''STORAGE_FAILED''"
| "error_class_code (ValidationError _) = ustr ''INVALID_INPUT''"
| "error_class_code (NotFoundError _) = ustr ''NOT_FOUND''"
| "error_class_code (EntitlementError _) = ustr ''ACCOUNT_BLOCKED''"
| "error_class_code (InsufficientCreditsError _ _ _) = ustr ''CREDITS_EXHAUSTED''"
| "error_class_code (TooManyOrdersInFlightError _ _) = ustr ''TOO_MANY_IN_FLIGHT''"
| "error_class_code _ = ustr ''PAYMENT_FAILED''"

definition expand_broadcast_audience ::
    "(pystr \<Rightarrow> instant \<Rightarrow> bayram_error + (db \<Rightarrow> user_row \<Rightarrow> bool) option) \<Rightarrow> uuid \<Rightarrow> instant \<Rightarrow> nat
      \<Rightarrow> (nat \<Rightarrow> uuid) \<Rightarrow> db \<Rightarrow> db \<times> expand_summary \<times> queued_job list" where
  "expand_broadcast_audience compile broadcast_id at limit fresh d =
     (case bs_plan broadcast_id d of
        (d, Inl _) \<Rightarrow> (d, expand_summary_of None None None (Some (ustr ''unknown_campaign'')), [])
      | (d, Inr None) \<Rightarrow> (d, expand_summary_of None None None (Some (ustr ''unknown_campaign'')), [])
      | (d, Inr (Some plan)) \<Rightarrow>
         if bp_state plan \<noteq> Campaign_EXPANDING then (d, expand_summary_of None (Some (bp_state plan)) None None, [])
         else
           (case compile (bp_segment plan) (bp_audience_evaluated_at plan) of
              Inl _ \<Rightarrow> (fail_campaign broadcast_id segment_undecodable at d,
                         expand_summary_of None None None (Some segment_undecodable), [])
            | Inr predicate \<Rightarrow>
               (case bs_expand broadcast_id predicate (decode_expand_cursor (bp_expand_cursor plan)) at limit fresh d of
                  (d, Inl e) \<Rightarrow> (d, expand_summary_of None None None (Some (error_class_code e)), [])
                | (d, Inr page) \<Rightarrow>
                   if \<not> ec_accepted page then (d, expand_summary_of (Some page) None None None, [])
                   else if ec_next_cursor page \<noteq> None
                   then (d, expand_summary_of (Some page) (Some (bp_state plan)) None None, [Expand_Job broadcast_id])
                   else
                     (let is_due = (case bp_scheduled_for plan of None \<Rightarrow> True | Some t \<Rightarrow> t \<le> at)
                      in (d, expand_summary_of (Some page) (Some Campaign_READY) (Some is_due) None,
                          if is_due then [Send_Job broadcast_id] else [])))))"

section \<open>Starting a campaign\<close>

definition started :: "broadcast_plan \<Rightarrow> instant \<Rightarrow> db \<Rightarrow> db \<times> broadcast_state option" where
  "started plan at d =
     (if bp_state plan \<noteq> Campaign_READY then (d, Some (bp_state plan))
      else if (case bp_scheduled_for plan of None \<Rightarrow> False | Some t \<Rightarrow> t > at) then (d, Some (bp_state plan))
      else (case bs_start (bp_id plan) at d of
              (d, Inl _) \<Rightarrow> (d, None)
            | (d, Inr _) \<Rightarrow> (d, Some Campaign_SENDING)))"

section \<open>The sender of one chunk\<close>

record send_chunk =
  ck_broadcast_id :: uuid
  ck_bodies :: "composed_body list"
  ck_media_bytes :: "(language \<times> pystr) list"
  ck_media_file_ids :: "(language \<times> pystr) list"
  ck_sent :: nat
  ck_failed :: nat
  ck_skipped :: nat
  ck_undeliverable :: nat
  ck_released :: nat

definition language_of :: "send_chunk \<Rightarrow> claimed_recipient \<Rightarrow> composed_body option" where
  "language_of chunk recipient =
     (case List.map_filter (\<lambda>l. select_one cb_language l (ck_bodies chunk))
             [cr_language recipient, fallback_language, reference_language] of
        [] \<Rightarrow> None | body # _ \<Rightarrow> Some body)"

datatype photo = File_Id pystr | Uploaded pystr

text \<open>The cached handle, the cached bytes, or the object store, in this order.\<close>

definition photo_of ::
    "send_chunk \<Rightarrow> composed_body \<Rightarrow> bayram_error + pystr \<Rightarrow> photo option \<times> send_chunk" where
  "photo_of chunk body stored =
     (if cb_media_storage_key body = None then (None, chunk)
      else (case str_or (map_of (ck_media_file_ids chunk) (cb_language body)) (cb_media_file_id body) of
        Some file_id \<Rightarrow> (Some (File_Id file_id), chunk)
      | None \<Rightarrow>
         (case map_of (ck_media_bytes chunk) (cb_language body) of
            Some bytes \<Rightarrow> (Some (Uploaded bytes), chunk)
          | None \<Rightarrow>
             (case stored of
                Inl _ \<Rightarrow> (None, chunk)
              | Inr bytes \<Rightarrow> (Some (Uploaded bytes),
                  chunk\<lparr>ck_media_bytes := (cb_language body, bytes) # ck_media_bytes chunk\<rparr>)))))"

datatype sender_phase =
    At_Head
  | Remembering composed_body "pystr option"
  | Settling broadcast_recipient_state "pystr option" bool
  | Recording
  | Releasing
  | Stopped

record sender =
  sd_chunk :: send_chunk
  sd_remaining :: "claimed_recipient list"
  sd_index :: nat
  sd_phase :: sender_phase

record outside_answers =
  oa_stored :: "bayram_error + pystr"
  oa_telegram :: telegram_answer
  oa_has_recorder :: bool

text \<open>One recipient up to the call of Telegram: what happens next, and whether a message was accepted.\<close>

definition deliver :: "send_chunk \<Rightarrow> outside_answers \<Rightarrow> claimed_recipient \<Rightarrow> sender_phase \<times> send_chunk \<times> bool" where
  "deliver chunk outside recipient =
     (if cr_telegram_user_id recipient = None
      then (Settling Recipient_UNDELIVERABLE (Some forgotten) False, chunk, False)
      else (case language_of chunk recipient of
        None \<Rightarrow> (Settling Recipient_FAILED (Some no_body) False, chunk, False)
      | Some body \<Rightarrow>
         (case photo_of chunk body (oa_stored outside) of
            (photo, chunk) \<Rightarrow>
              if cb_media_storage_key body \<noteq> None \<and> photo = None
              then (Settling Recipient_FAILED (Some media_unreadable) False, chunk, False)
              else (case oa_telegram outside of
                Retry_After _ \<Rightarrow> (Releasing, chunk, False)
              | Api_Error e \<Rightarrow> (case settle_refusal e of (state, code, block) \<Rightarrow>
                    (Settling state (Some code) block, chunk, False))
              | Accepted photo_id \<Rightarrow> (Remembering body photo_id, chunk, True)))))"

definition remember_media :: "send_chunk \<Rightarrow> composed_body \<Rightarrow> pystr option \<Rightarrow> instant \<Rightarrow> db \<Rightarrow> send_chunk \<times> db" where
  "remember_media chunk body photo_id at d =
     (if cb_media_storage_key body = None \<or> map_of (ck_media_file_ids chunk) (cb_language body) \<noteq> None then (chunk, d)
      else if cb_media_file_id body \<noteq> None then (chunk, d)
      else (case photo_id of
        None \<Rightarrow> (chunk, d)
      | Some file_id \<Rightarrow>
          (chunk\<lparr>ck_media_file_ids := (cb_language body, file_id) # ck_media_file_ids chunk\<rparr>,
           fst (bs_remember_media_file_id (ck_broadcast_id chunk) (cb_language body) file_id at d))))"

definition settle_claimed :: "claimed_recipient \<Rightarrow> broadcast_recipient_state \<Rightarrow> pystr option \<Rightarrow> instant \<Rightarrow> db \<Rightarrow> db" where
  "settle_claimed recipient state code at d =
     (case bs_settle (cr_id recipient) state at code d of Inl _ \<Rightarrow> d | Inr (d, _) \<Rightarrow> d)"

definition count_outcome :: "broadcast_recipient_state \<Rightarrow> send_chunk \<Rightarrow> send_chunk" where
  "count_outcome state chunk =
     (case state of
        Recipient_SENT \<Rightarrow> chunk\<lparr>ck_sent := ck_sent chunk + 1\<rparr>
      | Recipient_FAILED \<Rightarrow> chunk\<lparr>ck_failed := ck_failed chunk + 1\<rparr>
      | Recipient_SKIPPED_BLOCKED \<Rightarrow> chunk\<lparr>ck_skipped := ck_skipped chunk + 1\<rparr>
      | Recipient_UNDELIVERABLE \<Rightarrow> chunk\<lparr>ck_undeliverable := ck_undeliverable chunk + 1\<rparr>
      | _ \<Rightarrow> chunk)"

definition record_block :: "claimed_recipient \<Rightarrow> bool \<Rightarrow> uuid \<Rightarrow> instant \<Rightarrow> db \<Rightarrow> db" where
  "record_block recipient has_recorder fresh at d =
     (case cr_telegram_user_id recipient of
        None \<Rightarrow> d
      | Some uid \<Rightarrow> if has_recorder then fst (record_bot_blocked fresh uid at DELIVERY_REFUSAL d) else d)"

definition is_still_sending :: "send_chunk \<Rightarrow> db \<Rightarrow> bool" where
  "is_still_sending chunk d =
     (case snd (bs_state_of (ck_broadcast_id chunk) d) of
        Inl _ \<Rightarrow> True | Inr state \<Rightarrow> state = Some Campaign_SENDING)"

text \<open>
  The loop over the claimed rows, one step at a time; the third component names the recipient whose message
  Telegram accepted in this step.
\<close>

definition sender_step ::
    "instant \<Rightarrow> outside_answers \<Rightarrow> uuid \<Rightarrow> sender \<Rightarrow> db \<Rightarrow> sender \<times> db \<times> uuid option" where
  "sender_step at outside fresh s d =
     (case sd_remaining s of
        [] \<Rightarrow> (s\<lparr>sd_phase := Stopped\<rparr>, d, None)
      | recipient # rest \<Rightarrow>
         (case sd_phase s of
            At_Head \<Rightarrow>
              if sd_index s \<noteq> 0 \<and> sd_index s mod pause_check_every = 0 \<and> \<not> is_still_sending (sd_chunk s) d
              then (s\<lparr>sd_phase := Releasing\<rparr>, d, None)
              else (case deliver (sd_chunk s) outside recipient of (phase, chunk, accepted) \<Rightarrow>
                (s\<lparr>sd_chunk := chunk, sd_phase := phase\<rparr>, d, if accepted then Some (cr_id recipient) else None))
          | Remembering body photo_id \<Rightarrow>
              (case remember_media (sd_chunk s) body photo_id at d of (chunk, d) \<Rightarrow>
                (s\<lparr>sd_chunk := chunk, sd_phase := Settling Recipient_SENT None False\<rparr>, d, None))
          | Settling state code block \<Rightarrow>
              (if block then s\<lparr>sd_chunk := count_outcome state (sd_chunk s), sd_phase := Recording\<rparr>
               else s\<lparr>sd_chunk := count_outcome state (sd_chunk s), sd_remaining := rest,
                      sd_index := Suc (sd_index s), sd_phase := At_Head\<rparr>,
               settle_claimed recipient state code at d, None)
          | Recording \<Rightarrow>
              (s\<lparr>sd_remaining := rest, sd_index := Suc (sd_index s), sd_phase := At_Head\<rparr>,
               record_block recipient (oa_has_recorder outside) fresh at d, None)
          | Releasing \<Rightarrow>
              (case bs_release (cr_id recipient) at d of
                 (d, answer) \<Rightarrow>
                   (s\<lparr>sd_remaining := rest, sd_chunk := (sd_chunk s)\<lparr>ck_released :=
                        ck_released (sd_chunk s) + (if isl answer then 0 else 1)\<rparr>\<rparr>, d, None))
          | Stopped \<Rightarrow> (s, d, None)))"

definition new_sender :: "uuid \<Rightarrow> composed_body list \<Rightarrow> claimed_recipient list \<Rightarrow> sender" where
  "new_sender broadcast_id bodies claimed =
     \<lparr>sd_chunk = \<lparr>ck_broadcast_id = broadcast_id, ck_bodies = bodies, ck_media_bytes = [], ck_media_file_ids = [],
        ck_sent = 0, ck_failed = 0, ck_skipped = 0, ck_undeliverable = 0, ck_released = 0\<rparr>,
      sd_remaining = claimed, sd_index = 0, sd_phase = At_Head\<rparr>"

section \<open>The sweep\<close>

definition age_campaign :: "due_broadcast \<Rightarrow> int \<Rightarrow> instant \<Rightarrow> db \<Rightarrow> nat \<times> db" where
  "age_campaign campaign lease at d =
     (case bs_age_stale (du_id campaign) (at - lease) at d of
        (d, Inl _) \<Rightarrow> (0, d) | (d, Inr n) \<Rightarrow> (n, d))"

record sweep_summary =
  sw_scanned :: nat
  sw_expansions :: nat
  sw_sends :: nat
  sw_aged :: nat
  sw_faults :: nat

fun sweep_each :: "int \<Rightarrow> instant \<Rightarrow> due_broadcast list \<Rightarrow> db \<Rightarrow> queued_job list \<times> nat \<times> db" where
  "sweep_each lease at [] d = ([], 0, d)"
| "sweep_each lease at (campaign # rest) d =
     (if du_state campaign = Campaign_EXPANDING
      then (case sweep_each lease at rest d of (jobs, aged, d) \<Rightarrow> (Expand_Job (du_id campaign) # jobs, aged, d))
      else
        (case (if du_state campaign = Campaign_SENDING then age_campaign campaign lease at d else (0, d)) of
           (n, d) \<Rightarrow> (case sweep_each lease at rest d of
              (jobs, aged, d) \<Rightarrow> (Send_Job (du_id campaign) # jobs, n + aged, d))))"

text \<open>Every job is taken to have reached the queue.\<close>

definition is_expand :: "queued_job \<Rightarrow> bool" where
  "is_expand j = (case j of Expand_Job _ \<Rightarrow> True | Send_Job _ \<Rightarrow> False)"

definition sweep_due_broadcasts :: "int \<Rightarrow> instant \<Rightarrow> db \<Rightarrow> sweep_summary \<times> queued_job list \<times> db" where
  "sweep_due_broadcasts lease at d =
     (case bs_due at (at - lease) due_scan_limit d of
        (d, Inl _) \<Rightarrow> (\<lparr>sw_scanned = 0, sw_expansions = 0, sw_sends = 0, sw_aged = 0, sw_faults = 1\<rparr>, [], d)
      | (d, Inr due) \<Rightarrow>
         (case sweep_each lease at due d of (jobs, aged, d) \<Rightarrow>
            (\<lparr>sw_scanned = length due, sw_expansions = length (filter is_expand jobs),
              sw_sends = length (filter (\<lambda>j. \<not> is_expand j) jobs), sw_aged = aged, sw_faults = 0\<rparr>, jobs, d)))"

end
