(* ===== verification/Broadcast_Claims.thy ===== *)
theory Broadcast_Claims
  imports Broadcast_Send
begin

text \<open>
  The properties of broadcasts: no recipient is sent to twice, whatever the workers, the sweep and the panel
  do in between; what is settled stays settled; an expansion run job by job writes each matching account once.
\<close>

section \<open>Recipients across updates\<close>

definition recipient_state :: "db \<Rightarrow> uuid \<Rightarrow> broadcast_recipient_state option" where
  "recipient_state d k = map_option br_state (select_one br_id k (recipients d))"

definition recipients_ok :: "db \<Rightarrow> bool" where
  "recipients_ok d \<longleftrightarrow> distinct (map br_id (recipients d))"

lemma update_recipients_simps [simp]:
  "recipients (snd (update_recipients p f d)) = sql_update p f (recipients d)"
  "fst (update_recipients p f d) = rowcount p (recipients d)"
  by (simp_all add: update_recipients_def)

lemma recipient_state_update:
  assumes "\<And>r. br_id (f r) = br_id r" "\<And>r. br_state (f r) = st'"
  shows "recipient_state (d\<lparr>recipients := sql_update (\<lambda>r. br_id r = i \<and> br_state r = st) f (recipients d)\<rparr>) k =
    (if k = i \<and> recipient_state d k = Some st then Some st' else recipient_state d k)"
proof (cases "select_one br_id k (recipients d)")
  case None
  then show ?thesis by (simp add: recipient_state_def select_one_update assms(1))
next
  case (Some r)
  then have "br_id r = k" by (auto dest: select_one_SomeD)
  with Some show ?thesis by (simp add: recipient_state_def select_one_update assms)
qed

lemma recipient_state_claim: "recipient_state (snd (claim_one at d i)) k =
      (if k = i \<and> recipient_state d k = Some Recipient_PENDING then Some Recipient_SENDING else recipient_state d k)"
  by (simp add: claim_one_def update_recipients_def recipient_state_update)

lemma recipient_state_release: "recipient_state (snd (release_recipient d i at)) k =
      (if k = i \<and> recipient_state d k = Some Recipient_SENDING then Some Recipient_PENDING else recipient_state d k)"
  by (simp add: release_recipient_def update_recipients_def recipient_state_update)

lemma recipient_state_settle: "settle_recipient d i st at code = Inr (w, d') \<Longrightarrow> recipient_state d' k =
      (if k = i \<and> recipient_state d k = Some Recipient_SENDING then Some st else recipient_state d k)"
  by (auto simp: settle_recipient_def update_recipients_def recipient_state_update split: if_splits)

lemma recipient_state_age: "recipient_state (snd (age_stale_sending d b older at)) k =
    (case select_one br_id k (recipients d) of None \<Rightarrow> None
     | Some r \<Rightarrow> Some (if br_broadcast_id r = b \<and> br_state r = Recipient_SENDING \<and> br_updated_at r < older
         then Recipient_UNKNOWN else br_state r))"
  by (simp add: recipient_state_def age_stale_sending_def update_recipients_def select_one_update split: option.split)

lemma ledger_keeps_ids:
  shows "map br_id (recipients (snd (claim_one at d i))) = map br_id (recipients d)"
    and "map br_id (recipients (snd (release_recipient d i at))) = map br_id (recipients d)"
    and "settle_recipient d i st at code = Inr (w, d') \<Longrightarrow> map br_id (recipients d') = map br_id (recipients d)"
    and "map br_id (recipients (snd (age_stale_sending d b older at))) = map br_id (recipients d)"
  by (auto simp: claim_one_def release_recipient_def settle_recipient_def age_stale_sending_def update_recipients_def
      split: if_splits)

lemma claim_one_fst:
  assumes "recipients_ok d"
  shows "fst (claim_one at d i) \<longleftrightarrow> recipient_state d i = Some Recipient_PENDING"
  using assms by (auto simp: claim_one_def update_recipients_def recipients_ok_def recipient_state_def rowcount_key
      split: option.splits)

text \<open>Claiming: what comes back was pending and now is not, nothing else changes.\<close>

lemma claim_each_ids:
  "claim_each at cs d = (claimed, d') \<Longrightarrow> map br_id (recipients d') = map br_id (recipients d)"
proof (induction cs arbitrary: d claimed)
  case (Cons c cs)
  obtain w e where w: "claim_one at d (br_id c) = (w, e)" by fastforce
  have "map br_id (recipients e) = map br_id (recipients d)" using ledger_keeps_ids(1) [of at d "br_id c"] w by simp
  then show ?case using Cons w by (auto split: prod.splits)
qed simp

lemma claim_each_state:
  "claim_each at cs d = (claimed, d') \<Longrightarrow> recipient_state d' k =
     (if k \<in> br_id ` set cs \<and> recipient_state d k = Some Recipient_PENDING then Some Recipient_SENDING else recipient_state d k)"
proof (induction cs arbitrary: d claimed)
  case (Cons c cs)
  obtain w e where w: "claim_one at d (br_id c) = (w, e)" by fastforce
  have "recipient_state e k = (if k = br_id c \<and> recipient_state d k = Some Recipient_PENDING then Some Recipient_SENDING else recipient_state d k)"
    using recipient_state_claim [of at d "br_id c"] w by simp
  then show ?case using Cons w by (auto split: prod.splits)
qed simp

lemma claim_each_claimed:
  assumes "claim_each at cs d = (claimed, d')" "recipients_ok d" "distinct (map br_id cs)"
  shows "map cr_id claimed = map br_id (filter (\<lambda>c. recipient_state d (br_id c) = Some Recipient_PENDING) cs)"
  using assms
proof (induction cs arbitrary: d claimed)
  case (Cons c cs)
  obtain w e where w: "claim_one at d (br_id c) = (w, e)" by fastforce
  obtain cl where r: "claim_each at cs e = (cl, d')" using Cons.prems(1) w by (auto split: prod.splits)
  have ok: "recipients_ok e" using Cons.prems(2) ledger_keeps_ids(1) [of at d "br_id c"] w by (simp add: recipients_ok_def)
  have won: "w \<longleftrightarrow> recipient_state d (br_id c) = Some Recipient_PENDING" using claim_one_fst [OF Cons.prems(2), of at "br_id c"] w by simp
  have same: "recipient_state e (br_id x) = recipient_state d (br_id x)" if "x \<in> set cs" for x
    using recipient_state_claim [of at d "br_id c"] w Cons.prems(3) that by (auto, metis image_eqI)
  have "map cr_id cl = map br_id (filter (\<lambda>c. recipient_state d (br_id c) = Some Recipient_PENDING) cs)"
    using Cons.IH [OF r ok] Cons.prems(3) same by (simp cong: filter_cong)
  then show ?case using Cons.prems(1) w r won by auto
qed simp

text \<open>A chunk: distinct recipients, pending before and being sent after.\<close>

lemma claim_chunk_spec:
  assumes "claim_chunk d b at limit = (claimed, d')" "recipients_ok d"
  shows "distinct (map cr_id claimed)" "recipients_ok d'"
    and "k \<in> cr_id ` set claimed \<Longrightarrow> recipient_state d k = Some Recipient_PENDING \<and> recipient_state d' k = Some Recipient_SENDING"
    and "k \<notin> cr_id ` set claimed \<Longrightarrow> recipient_state d' k = recipient_state d k"
proof -
  let ?cs = "take limit (sort_key (\<lambda>r. (br_created_at r, br_id r))
       (filter (\<lambda>r. br_broadcast_id r = b \<and> br_state r = Recipient_PENDING) (recipients d)))"
  have c: "claim_each at ?cs d = (claimed, d')" using assms(1) by (simp add: claim_chunk_def)
  have dist: "distinct (map br_id ?cs)"
    using assms(2) by (simp add: recipients_ok_def take_map [symmetric] distinct_map distinct_map_filter inj_on_def)
  note m = claim_each_claimed [OF c assms(2) dist]
  show "distinct (map cr_id claimed)" unfolding m using dist by (rule distinct_map_filter)
  show "recipients_ok d'" using assms(2) claim_each_ids [OF c] by (simp add: recipients_ok_def)
  have s: "cr_id ` set claimed = br_id ` {x \<in> set ?cs. recipient_state d (br_id x) = Some Recipient_PENDING}"
    using arg_cong [OF m, of set] by auto
  show "recipient_state d k = Some Recipient_PENDING \<and> recipient_state d' k = Some Recipient_SENDING" if "k \<in> cr_id ` set claimed"
    using that claim_each_state [OF c, of k] by (auto simp: s)
  show "recipient_state d' k = recipient_state d k" if "k \<notin> cr_id ` set claimed"
    using that claim_each_state [OF c, of k] by (auto simp: s)
qed

section \<open>Every worker at once\<close>

text \<open>
  A state is the database, the senders at work and the recipients whose message Telegram accepted, newest first.
  A sender may be cancelled at any step, which forgets it; the expansion writes new rows only, and everything
  else that touches the database leaves the recipients of a campaign with their state.
\<close>

type_synonym fleet = "db \<times> sender list \<times> uuid list"

inductive fleet_step :: "fleet \<Rightarrow> fleet \<Rightarrow> bool" where
  claim: "bs_claim b at limit d = (d', Inr claimed) \<Longrightarrow>
     fleet_step (d, ss, sent) (d', ss @ [new_sender b bodies claimed], sent)"
| sender: "sender_step at outside fresh s d = (s', d', accepted) \<Longrightarrow>
     fleet_step (d, ss @ s # ts, sent) (d', ss @ s' # ts, (case accepted of None \<Rightarrow> sent | Some k \<Rightarrow> k # sent))"
| cancelled: "fleet_step (d, ss @ s # ts, sent) (d, ss @ ts, sent)"
| aged: "bs_age_stale b older at d = (d', answer) \<Longrightarrow> fleet_step (d, ss, sent) (d', ss, sent)"
| expand: "bs_expand b predicate c at limit ids d = (d', answer) \<Longrightarrow> fleet_step (d, ss, sent) (d', ss, sent)"
| forget: "fleet_step (d, ss, sent) (store_forget uid d, ss, sent)"
| elsewhere: "recipients d' = recipients d \<Longrightarrow> fleet_step (d, ss, sent) (d', ss, sent)"

inductive fleet_reachable :: "fleet \<Rightarrow> bool" where
  start: "recipients d = [] \<Longrightarrow> fleet_reachable (d, [], [])"
| step: "fleet_reachable f \<Longrightarrow> fleet_step f f' \<Longrightarrow> fleet_reachable f'"

text \<open>What a sender still holds, and of that what it has not sent.\<close>

definition held :: "sender \<Rightarrow> uuid list" where
  "held s = map cr_id (sd_remaining s)"

definition unsent :: "sender \<Rightarrow> uuid list" where
  "unsent s = (case sd_phase s of At_Head \<Rightarrow> held s | Releasing \<Rightarrow> held s | Stopped \<Rightarrow> []
     | _ \<Rightarrow> tl (held s))"

definition about_to_report_sent :: "sender \<Rightarrow> uuid list" where
  "about_to_report_sent s = (case sd_phase s of Remembering _ _ \<Rightarrow> take 1 (held s)
     | Settling Recipient_SENT _ _ \<Rightarrow> take 1 (held s) | _ \<Rightarrow> [])"

definition fleet_ok :: "fleet \<Rightarrow> bool" where
  "fleet_ok f \<longleftrightarrow> (case f of (d, ss, sent) \<Rightarrow>
     recipients_ok d \<and> distinct sent \<and> distinct (concat (map held ss))
     \<and> (\<forall>s \<in> set ss. \<forall>k \<in> set (held s). recipient_state d k \<notin> {None, Some Recipient_PENDING})
     \<and> (\<forall>k \<in> set sent. recipient_state d k \<notin> {None, Some Recipient_PENDING})
     \<and> (\<forall>s \<in> set ss. \<forall>k \<in> set (unsent s). k \<notin> set sent)
     \<and> (\<forall>s \<in> set ss. \<forall>k \<in> set (about_to_report_sent s). k \<in> set sent)
     \<and> (\<forall>k. recipient_state d k = Some Recipient_SENT \<longrightarrow> k \<in> set sent))"

text \<open>What one step of a sender may do to the invariant: it touches the recipient at its head at most.\<close>

definition harmless :: "db \<Rightarrow> sender \<Rightarrow> uuid list \<Rightarrow> db \<Rightarrow> sender \<Rightarrow> uuid list \<Rightarrow> bool" where
  "harmless d s sent d' s' sent' \<longleftrightarrow>
     map br_id (recipients d') = map br_id (recipients d)
     \<and> (held s' = held s \<or> held s' = tl (held s))
     \<and> (\<forall>k. k \<notin> set (take 1 (held s)) \<longrightarrow> recipient_state d' k = recipient_state d k)
     \<and> (\<forall>k \<in> set (take 1 (held s)). recipient_state d' k \<noteq> None
          \<and> (recipient_state d' k = Some Recipient_PENDING \<longrightarrow> k \<notin> set (held s') \<and> k \<notin> set sent')
          \<and> (recipient_state d' k = Some Recipient_SENT \<longrightarrow> k \<in> set sent'))
     \<and> set (unsent s') \<subseteq> set (unsent s) - (set sent' - set sent)
     \<and> set (about_to_report_sent s') \<subseteq> set sent'
     \<and> (sent' = sent \<or> (\<exists>h \<in> set (take 1 (held s)). sent' = h # sent \<and> h \<in> set (unsent s)))"

lemma set_tl_subset: "set (tl xs) \<subseteq> set xs"
  by (cases xs) auto

lemma harmless_keeps:
  assumes ok: "fleet_ok (d, ss @ s # ts, sent)" and h: "harmless d s sent d' s' sent'"
  shows "fleet_ok (d', ss @ s' # ts, sent')"
proof -
  have dist: "distinct (concat (map held (ss @ s # ts)))" and r: "recipients_ok d" and ds: "distinct sent"
    using ok by (simp_all add: fleet_ok_def)
  have H: "\<And>u k. u \<in> set (ss @ s # ts) \<Longrightarrow> k \<in> set (held u) \<Longrightarrow> recipient_state d k \<notin> {None, Some Recipient_PENDING}"
    and S: "\<And>k. k \<in> set sent \<Longrightarrow> recipient_state d k \<notin> {None, Some Recipient_PENDING}"
    and U: "\<And>u k. u \<in> set (ss @ s # ts) \<Longrightarrow> k \<in> set (unsent u) \<Longrightarrow> k \<notin> set sent"
    and A: "\<And>u k. u \<in> set (ss @ s # ts) \<Longrightarrow> k \<in> set (about_to_report_sent u) \<Longrightarrow> k \<in> set sent"
    and T: "\<And>k. recipient_state d k = Some Recipient_SENT \<Longrightarrow> k \<in> set sent"
    using ok unfolding fleet_ok_def by fastforce+
  have held': "set (held s') \<subseteq> set (held s)" "distinct (held s) \<Longrightarrow> distinct (held s')"
    using h set_tl_subset [of "held s"] distinct_tl by (auto simp: harmless_def)
  have front: "set (take 1 (held s)) \<subseteq> set (held s)" by (rule set_take_subset)
  have other: "k \<notin> set (take 1 (held s))" if "u \<in> set (ss @ ts)" "k \<in> set (held u)" for u k
    using dist that front by (fastforce simp: distinct_append)
  have unsent_held: "set (unsent u) \<subseteq> set (held u)" for u
    by (auto simp: unsent_def dest: subsetD [OF set_tl_subset] split: sender_phase.splits)
  have sub: "set sent \<subseteq> set sent'" using h by (auto simp: harmless_def)
  have new: "k \<in> set (take 1 (held s)) \<and> k \<in> set (unsent s)" if "k \<in> set sent'" "k \<notin> set sent" for k
    using h that by (auto simp: harmless_def)
  have "recipients_ok d'" using r h by (simp add: recipients_ok_def harmless_def)
  moreover have "distinct sent'"
    using h ds U [of s] by (auto simp: harmless_def)
  moreover have "distinct (concat (map held (ss @ s' # ts)))"
    using dist held' by (fastforce simp: distinct_append)
  moreover have "recipient_state d' k \<notin> {None, Some Recipient_PENDING}" if "u \<in> set (ss @ s' # ts)" "k \<in> set (held u)" for u k
  proof (cases "k \<in> set (take 1 (held s))")
    case True
    then have "u = s'" using that other by auto
    with True that h show ?thesis by (auto simp: harmless_def)
  next
    case False
    then show ?thesis using that h H [of u k] H [of s k] held'(1) by (auto simp: harmless_def)
  qed
  moreover have "recipient_state d' k \<notin> {None, Some Recipient_PENDING}" if "k \<in> set sent'" for k
  proof (cases "k \<in> set (take 1 (held s))")
    case True
    with that h show ?thesis by (auto simp: harmless_def)
  next
    case False
    then show ?thesis using that new S [of k] h by (auto simp: harmless_def)
  qed
  moreover have "k \<notin> set sent'" if "u \<in> set (ss @ s' # ts)" "k \<in> set (unsent u)" for u k
  proof (cases "u = s'")
    case True
    then show ?thesis using that h U [of s k] by (auto simp: harmless_def)
  next
    case False
    then have "u \<in> set (ss @ ts)" using that(1) by auto
    then show ?thesis using that(2) U [of u k] other [of u k] new unsent_held by auto
  qed
  moreover have "k \<in> set sent'" if "u \<in> set (ss @ s' # ts)" "k \<in> set (about_to_report_sent u)" for u k
    using that h A [of u k] sub by (auto simp: harmless_def)
  moreover have "k \<in> set sent'" if "recipient_state d' k = Some Recipient_SENT" for k
    using that h T [of k] sub by (cases "k \<in> set (take 1 (held s))") (auto simp: harmless_def)
  ultimately show ?thesis unfolding fleet_ok_def by fastforce
qed

lemma bs_session_total: "bs_session op (\<lambda>d. Inr (f d)) d = (snd (f d), Inr (fst (f d)))"
  by (cases "f d") (simp add: bs_session_def run_guarded_def)

lemma record_bot_blocked_recipients: "recipients (fst (record_bot_blocked fresh uid at source d)) = recipients d"
  by (auto simp: record_bot_blocked_def run_guarded_def mark_bot_blocked_def append_membership_event_def Let_def
      split: sum.splits exn.splits if_splits)

lemma side_writes [simp]:
  "recipients (record_block r has fresh at d) = recipients d"
  "remember_media chunk b photo_id at d = (chunk', d') \<Longrightarrow> recipients d' = recipients d"
  by (auto simp: record_block_def record_bot_blocked_recipients remember_media_def bs_remember_media_file_id_def
      bs_session_total cache_media_file_id_def Let_def split: option.splits if_splits)

lemma same_recipients:
  assumes "recipients d' = recipients d"
  shows "recipient_state d' k = recipient_state d k"
  using assms by (simp add: recipient_state_def)

lemma settle_claimed_state:
  "recipient_state (settle_claimed r st code at d) k =
     (if st \<in> terminal_recipient_states \<and> k = cr_id r \<and> recipient_state d k = Some Recipient_SENDING then Some st
      else recipient_state d k)"
  "map br_id (recipients (settle_claimed r st code at d)) = map br_id (recipients d)"
proof -
  have not_terminal: "settle_recipient d i st at code = Inl e \<Longrightarrow> st \<notin> terminal_recipient_states" for i e
    by (simp add: settle_recipient_def split: if_splits)
  have terminal: "settle_recipient d i st at code = Inr x \<Longrightarrow> st \<in> terminal_recipient_states" for i x
    by (simp add: settle_recipient_def split: if_splits)
  show "recipient_state (settle_claimed r st code at d) k =
     (if st \<in> terminal_recipient_states \<and> k = cr_id r \<and> recipient_state d k = Some Recipient_SENDING then Some st
      else recipient_state d k)"
    "map br_id (recipients (settle_claimed r st code at d)) = map br_id (recipients d)"
    by (auto simp: settle_claimed_def bs_settle_def recipient_state_settle ledger_keeps_ids(3) split: sum.splits
        dest: not_terminal terminal)
qed

lemma deliver_phase:
  assumes "deliver chunk outside r = (phase, chunk', accepted)"
  shows "(accepted \<and> (\<exists>b p. phase = Remembering b p))
    \<or> (\<not> accepted \<and> (phase = Releasing \<or> (\<exists>st code blk. phase = Settling st code blk \<and> st \<in> terminal_recipient_states
          \<and> st \<noteq> Recipient_SENT)))"
  using assms
  by (auto simp: deliver_def settle_refusal_def terminal_recipient_states_def
      split: if_splits option.splits prod.splits telegram_answer.splits)

lemma sender_step_harmless:
  assumes ok: "fleet_ok (d, ss @ s # ts, sent)" and st: "sender_step at outside fresh s d = (s', d', accepted)"
  shows "harmless d s sent d' s' (case accepted of None \<Rightarrow> sent | Some k \<Rightarrow> k # sent)"
proof (cases "sd_remaining s")
  case Nil
  then show ?thesis using st by (auto simp: sender_step_def harmless_def held_def unsent_def about_to_report_sent_def)
next
  case (Cons r rest)
  let ?h = "cr_id r"
  have held: "held s = ?h # map cr_id rest" using Cons by (simp add: held_def)
  have dist: "?h \<notin> cr_id ` set rest" using ok held by (auto simp: fleet_ok_def)
  have H: "recipient_state d ?h \<noteq> None" "recipient_state d ?h \<noteq> Some Recipient_PENDING"
    using ok held by (auto simp: fleet_ok_def)
  have U: "k \<in> set (unsent s) \<Longrightarrow> k \<notin> set sent" and A: "k \<in> set (about_to_report_sent s) \<Longrightarrow> k \<in> set sent" for k
    using ok by (auto simp: fleet_ok_def)
  have T: "recipient_state d ?h = Some Recipient_SENT \<Longrightarrow> ?h \<in> set sent" using ok by (auto simp: fleet_ok_def)
  note defs = harmless_def held unsent_def about_to_report_sent_def held_def
  show ?thesis
  proof (cases "sd_phase s")
    case Stopped
    then show ?thesis using st Cons H T by (auto simp: sender_step_def defs)
  next
    case Releasing
    then have s': "s' = s\<lparr>sd_remaining := rest, sd_chunk := (sd_chunk s)\<lparr>ck_released := ck_released (sd_chunk s) + 1\<rparr>\<rparr>"
      and d': "d' = snd (release_recipient d ?h at)" and a: "accepted = None"
      using st Cons by (auto simp: sender_step_def bs_release_def bs_session_total)
    have "?h \<notin> set sent" using U [of ?h] Releasing Cons by (simp add: unsent_def held_def)
    then show ?thesis using Releasing Cons H T dist
      by (auto simp: a s' d' defs ledger_keeps_ids recipient_state_release)
  next
    case Recording
    then have s': "s' = s\<lparr>sd_remaining := rest, sd_index := Suc (sd_index s), sd_phase := At_Head\<rparr>"
      and d': "recipients d' = recipients d" and a: "accepted = None"
      using st Cons by (auto simp: sender_step_def)
    then show ?thesis using Recording Cons H T by (auto simp: defs d' same_recipients [OF d'])
  next
    case (Remembering b p)
    then obtain chunk where s': "s' = s\<lparr>sd_chunk := chunk, sd_phase := Settling Recipient_SENT None False\<rparr>"
      and d': "recipients d' = recipients d" and a: "accepted = None"
      using st Cons by (auto simp: sender_step_def split: prod.splits)
    have "?h \<in> set sent" using A [of ?h] Remembering Cons by (simp add: about_to_report_sent_def held_def)
    then show ?thesis using Remembering Cons H T by (auto simp: a s' defs d' same_recipients [OF d'])
  next
    case (Settling st0 code blk)
    then have d': "d' = settle_claimed r st0 code at d" and a: "accepted = None"
      and s': "s' = (if blk then s\<lparr>sd_chunk := count_outcome st0 (sd_chunk s), sd_phase := Recording\<rparr>
               else s\<lparr>sd_chunk := count_outcome st0 (sd_chunk s), sd_remaining := rest,
                      sd_index := Suc (sd_index s), sd_phase := At_Head\<rparr>)"
      using st Cons by (auto simp: sender_step_def)
    have sent: "?h \<in> set sent" if "st0 = Recipient_SENT"
      using A [of ?h] Settling Cons that by (simp add: about_to_report_sent_def held_def)
    show ?thesis using Settling Cons H T sent
      by (auto simp: a s' d' defs settle_claimed_state terminal_recipient_states_def split: if_splits)
  next
    case At_Head
    show ?thesis
    proof (cases "sd_index s \<noteq> 0 \<and> sd_index s mod pause_check_every = 0 \<and> \<not> is_still_sending (sd_chunk s) d")
      case True
      then show ?thesis using At_Head st Cons H T by (auto simp: sender_step_def defs)
    next
      case False
      obtain phase chunk acc where dl: "deliver (sd_chunk s) outside r = (phase, chunk, acc)" by (metis prod_cases3)
      then have s': "s' = s\<lparr>sd_chunk := chunk, sd_phase := phase\<rparr>" "d' = d" "accepted = (if acc then Some ?h else None)"
        using False At_Head st Cons by (auto simp: sender_step_def)
      have "?h \<notin> set sent" using U [of ?h] At_Head Cons by (simp add: unsent_def held_def)
      then show ?thesis using deliver_phase [OF dl] At_Head Cons H T dist
        by (auto simp: s' defs split: broadcast_recipient_state.splits)
    qed
  qed
qed

lemma expand_rows_Inr:
  assumes "expand_rows ex b at fresh n us rs = Inr (x, rs')" "distinct (map br_id rs)"
  shows "distinct (map br_id rs') \<and> (\<exists>new. rs' = rs @ new \<and> (\<forall>r \<in> set new. br_state r \<noteq> Recipient_SENT))"
  using assms
proof (induction us arbitrary: n rs x)
  case (Cons u us)
  let ?row = "recipient_of b at (fresh n) u"
  from Cons.prems(1) obtain w rs1 y where
    i: "insert_or_ignore (\<lambda>_. ex) (\<lambda>r. (br_broadcast_id r, br_telegram_user_id r)) (\<lambda>r s. br_id s = br_id r) ?row rs = Inr (w, rs1)"
    and e: "expand_rows ex b at fresh (Suc n) us rs1 = Inr (y, rs')"
    by (auto split: sum.splits)
  have d: "distinct (map br_id rs1)"
    by (rule insert_or_ignore_distinct_clash [OF i Cons.prems(2)]) simp
  have "\<exists>new. rs1 = rs @ new \<and> (\<forall>r \<in> set new. br_state r \<noteq> Recipient_SENT)"
    using insert_or_ignore_Inr(3) [OF i] by (auto simp: recipient_of_def)
  with Cons.IH [OF e d] show ?case by (metis Un_iff append_assoc set_append)
qed simp

lemma expand_recipients:
  assumes "bs_expand b predicate c at limit ids d = (d', answer)" "recipients_ok d"
  shows "recipients_ok d' \<and> (\<exists>new. recipients d' = recipients d @ new \<and> (\<forall>r \<in> set new. br_state r \<noteq> Recipient_SENT))"
proof (cases "expand_chunk d b predicate c at limit ids")
  case (Inl e)
  then have "d' = d" using assms(1) by (auto simp: bs_expand_def bs_session_def run_guarded_def split: exn.splits)
  with assms(2) show ?thesis by simp
next
  case (Inr v)
  then obtain chunk where "expand_chunk d b predicate c at limit ids = Inr (chunk, d')"
    using assms(1) by (cases v) (auto simp: bs_expand_def bs_session_def run_guarded_def)
  then obtain us x where "expand_rows (select_one bc_id b (broadcasts d) \<noteq> None) b at ids 0 us (recipients d) = Inr (x, recipients d')"
    by (auto simp: expand_chunk_def Let_def update_broadcasts_def split: sum.splits prod.splits)
  from expand_rows_Inr [OF this] assms(2) show ?thesis by (simp add: recipients_ok_def)
qed

lemma recipient_state_appended:
  assumes "recipients d' = recipients d @ new" "\<forall>r \<in> set new. br_state r \<noteq> Recipient_SENT"
  shows "recipient_state d k \<noteq> None \<Longrightarrow> recipient_state d' k = recipient_state d k"
    and "recipient_state d' k = Some Recipient_SENT \<Longrightarrow> recipient_state d k = Some Recipient_SENT"
  using assms by (auto simp: recipient_state_def select_one_append split: option.splits dest: select_one_SomeD)

lemma fleet_ok_frame:
  assumes "fleet_ok (d, ss, sent)" "recipients_ok d'"
    and "\<And>k. recipient_state d k \<notin> {None, Some Recipient_PENDING} \<Longrightarrow> recipient_state d' k \<notin> {None, Some Recipient_PENDING}"
    and "\<And>k. recipient_state d' k = Some Recipient_SENT \<Longrightarrow> recipient_state d k = Some Recipient_SENT"
  shows "fleet_ok (d', ss, sent)"
  using assms unfolding fleet_ok_def by fastforce

lemma forget_recipients: "map br_state (recipients (store_forget uid d)) = map br_state (recipients d)"
    "map br_id (recipients (store_forget uid d)) = map br_id (recipients d)"
  "recipient_state (store_forget uid d) k = recipient_state d k"
  by (simp_all add: store_forget_def forget_account_tables recipient_state_def select_one_update map_option.compositionality o_def
      if_distrib [of br_state] cong: if_cong)

lemma fleet_step_ok: "fleet_step f f' \<Longrightarrow> fleet_ok f \<Longrightarrow> fleet_ok f'"
proof (induction rule: fleet_step.induct)
  case (claim b at limit d d' claimed ss sent bodies)
  have c: "claim_chunk d b at limit = (claimed, d')"
    using claim.hyps by (simp add: bs_claim_def bs_session_total prod_eq_iff)
  have r: "recipients_ok d" using claim.prems by (simp add: fleet_ok_def)
  note spec = claim_chunk_spec [OF c r]
  let ?n = "new_sender b bodies claimed" and ?c = "cr_id ` set claimed"
  have new: "held ?n = map cr_id claimed" "unsent ?n = map cr_id claimed" "about_to_report_sent ?n = []"
    by (simp_all add: new_sender_def held_def unsent_def about_to_report_sent_def)
  have free: "k \<notin> ?c" if "recipient_state d k \<noteq> Some Recipient_PENDING" for k
    using spec(3) [of k] that by blast
  have H: "\<And>u k. u \<in> set ss \<Longrightarrow> k \<in> set (held u) \<Longrightarrow> recipient_state d k \<notin> {None, Some Recipient_PENDING}"
    and S: "\<And>k. k \<in> set sent \<Longrightarrow> recipient_state d k \<notin> {None, Some Recipient_PENDING}"
    and rest: "distinct sent" "distinct (concat (map held ss))" "\<forall>s \<in> set ss. \<forall>k \<in> set (unsent s). k \<notin> set sent"
      "\<forall>s \<in> set ss. \<forall>k \<in> set (about_to_report_sent s). k \<in> set sent"
      "\<forall>k. recipient_state d k = Some Recipient_SENT \<longrightarrow> k \<in> set sent"
    using claim.prems by (auto simp: fleet_ok_def)
  have sc: "k \<notin> ?c" if "k \<in> set sent" for k using S [OF that] free [of k] by auto
  have after: "recipient_state d' k = (if k \<in> ?c then Some Recipient_SENDING else recipient_state d k)" for k
    using spec(3,4) by simp
  have "distinct (concat (map held (ss @ [?n])))"
    using rest(2) spec(1) H free by (auto simp: new)
  moreover have "\<forall>s \<in> set (ss @ [?n]). \<forall>k \<in> set (held s). recipient_state d' k \<notin> {None, Some Recipient_PENDING}"
    using H by (auto simp: new after)
  moreover have "\<forall>k \<in> set sent. recipient_state d' k \<notin> {None, Some Recipient_PENDING}"
    using S by (auto simp: after)
  moreover have "\<forall>s \<in> set (ss @ [?n]). \<forall>k \<in> set (unsent s). k \<notin> set sent"
    using rest(3) sc by (auto simp: new)
  moreover have "\<forall>s \<in> set (ss @ [?n]). \<forall>k \<in> set (about_to_report_sent s). k \<in> set sent"
    using rest(4) by (auto simp: new)
  moreover have "\<forall>k. recipient_state d' k = Some Recipient_SENT \<longrightarrow> k \<in> set sent"
    using rest(5) by (simp add: after)
  ultimately show ?case using rest(1) spec(2) unfolding fleet_ok_def by simp
next
  case (sender at outside fresh s d s' d' accepted ss ts sent)
  show ?case by (rule harmless_keeps [OF sender.prems sender_step_harmless [OF sender.prems sender.hyps]])
next
  case (cancelled d ss s ts sent)
  then show ?case by (auto simp: fleet_ok_def)
next
  case (aged b older at d d' answer ss sent)
  have d': "d' = snd (age_stale_sending d b older at)"
    using aged.hyps by (simp add: bs_age_stale_def bs_session_total prod_eq_iff)
  have age: "recipient_state d' k = recipient_state d k
      \<or> recipient_state d k = Some Recipient_SENDING \<and> recipient_state d' k = Some Recipient_UNKNOWN" for k
    unfolding d' recipient_state_age by (auto simp: recipient_state_def split: option.splits)
  show ?case
  proof (rule fleet_ok_frame [OF aged.prems])
    show "recipients_ok d'" using aged.prems ledger_keeps_ids(4) [of d b older at]
      by (simp add: fleet_ok_def recipients_ok_def d')
    show "recipient_state d' k \<notin> {None, Some Recipient_PENDING}" if "recipient_state d k \<notin> {None, Some Recipient_PENDING}" for k
      using that age [of k] by auto
    show "recipient_state d k = Some Recipient_SENT" if "recipient_state d' k = Some Recipient_SENT" for k
      using that age [of k] by auto
  qed
next
  case (expand b predicate c at limit ids d d' answer ss sent)
  have "recipients_ok d" using expand.prems by (simp add: fleet_ok_def)
  then obtain new where e: "recipients_ok d'" "recipients d' = recipients d @ new" "\<forall>r \<in> set new. br_state r \<noteq> Recipient_SENT"
    using expand_recipients [OF expand.hyps] by blast
  show ?case
  proof (rule fleet_ok_frame [OF expand.prems e(1)])
    show "recipient_state d' k \<notin> {None, Some Recipient_PENDING}" if "recipient_state d k \<notin> {None, Some Recipient_PENDING}" for k
      using that recipient_state_appended(1) [OF e(2,3), of k] by auto
    show "recipient_state d k = Some Recipient_SENT" if "recipient_state d' k = Some Recipient_SENT" for k
      by (rule recipient_state_appended(2) [OF e(2,3) that])
  qed
next
  case (forget d ss sent uid)
  show ?case
    by (rule fleet_ok_frame [OF forget]) (use forget in \<open>simp_all add: forget_recipients fleet_ok_def recipients_ok_def\<close>)
next
  case (elsewhere d' d ss sent)
  then show ?case
    by (auto simp: fleet_ok_def recipients_ok_def same_recipients [OF elsewhere.hyps])
qed

lemma fleet_reachable_ok: "fleet_reachable f \<Longrightarrow> fleet_ok f"
proof (induction rule: fleet_reachable.induct)
  case (start d)
  then show ?case by (simp add: fleet_ok_def recipients_ok_def recipient_state_def)
qed (rule fleet_step_ok)

section \<open>Properties\<close>

text \<open>C34. No customer is sent a campaign twice: whatever workers claim, send, are flooded, are cancelled or die, and
  whatever the sweep, the panel, the expansion and the erasure do in between, Telegram accepted at most one message
  for a recipient row, a recipient that was sent to is never pending again, no worker can still send to it, and a row
  says sent only when a message was accepted.\<close>

theorem no_recipient_is_sent_twice:
  assumes "fleet_reachable (d, ss, sent)"
  shows "distinct sent
    \<and> (\<forall>k \<in> set sent. recipient_state d k \<noteq> Some Recipient_PENDING \<and> (\<forall>s \<in> set ss. k \<notin> set (unsent s)))
    \<and> (\<forall>k. recipient_state d k = Some Recipient_SENT \<longrightarrow> k \<in> set sent)"
  using fleet_reachable_ok [OF assms] by (auto simp: fleet_ok_def)

text \<open>A campaign of one customer: claimed, accepted by Telegram, remembered and settled.\<close>

definition s_user :: user_row where
  "s_user = \<lparr>us_id = [70], us_telegram_user_id = 7, us_ui_language = RU, us_is_blocked = False, us_last_seen_at = 0,
     us_blocked_bot_at = None, us_created_at = 5, us_updated_at = 5\<rparr>"

definition s_draft :: new_broadcast where
  "s_draft = \<lparr>nb_title = [84], nb_kind = MARKETING, nb_segment = [], nb_segment_hash = [], nb_audience_size = 1,
     nb_audience_evaluated_at = 9, nb_bodies = [\<lparr>by_language = EN, by_text = [72, 105], by_media_storage_key = None,
       by_button_label = None, by_button_url = None\<rparr>],
     nb_scheduled_for = None, nb_created_by = \<lparr>ba_admin_id = None, ba_username = None\<rparr>,
     nb_reason_code = None, nb_reason_ref = None\<rparr>"

definition s_composed :: db where
  "s_composed = (case create_broadcast (empty_db\<lparr>users := [s_user]\<rparr>) [90] s_draft 10 of Inr (_, d) \<Rightarrow> d | Inl _ \<Rightarrow> empty_db)"

definition s_expanded :: db where
  "s_expanded = fst (expand_broadcast_audience (\<lambda>_ _. Inr None) [90] 11 expand_chunk_size (\<lambda>n. [60, n]) s_composed)"

definition s_claimed :: "db \<times> (bayram_error + claimed_recipient list)" where
  "s_claimed = bs_claim [90] 12 send_chunk_size (snd (mark_sending s_expanded [90] 12))"

definition s_outside :: outside_answers where
  "s_outside = \<lparr>oa_stored = Inr [], oa_telegram = Accepted None, oa_has_recorder = True\<rparr>"

definition s_sender :: sender where
  "s_sender = new_sender [90] (load_bodies (fst s_claimed) [90]) (case snd s_claimed of Inr cs \<Rightarrow> cs | Inl _ \<Rightarrow> [])"

definition s_sent :: "sender \<times> db \<times> uuid option" where
  "s_sent = sender_step 13 s_outside [] s_sender (fst s_claimed)"

lemma no_recipient_witness:
  "distinct [[60, 0 :: nat]] \<and> recipient_state (fst (snd s_sent)) [60, 0] \<noteq> Some Recipient_PENDING"
proof -
  have empty: "recipients (empty_db\<lparr>users := [s_user]\<rparr>) = []" "recipients s_composed = []" by code_simp+
  have 0: "fleet_reachable (s_composed, [], [])" by (rule fleet_reachable.start) (rule empty(2))
  let ?e = "bs_expand [90] None None 11 expand_chunk_size (\<lambda>n. [60, n]) s_composed"
  have e: "s_expanded = fst ?e" by code_simp
  have 1: "fleet_reachable (s_expanded, [], [])" unfolding e
    by (rule fleet_reachable.step [OF 0 fleet_step.expand]) (rule prod.collapse [symmetric])
  have "recipients (snd (mark_sending s_expanded [90] 12)) = recipients s_expanded"
    by (simp add: mark_sending_def update_broadcasts_def)
  from fleet_reachable.step [OF 1 fleet_step.elsewhere [OF this]]
  have 2: "fleet_reachable (snd (mark_sending s_expanded [90] 12), [], [])" .
  have c: "bs_claim [90] 12 send_chunk_size (snd (mark_sending s_expanded [90] 12))
      = (fst s_claimed, Inr (case snd s_claimed of Inr cs \<Rightarrow> cs | Inl _ \<Rightarrow> []))" by code_simp
  have 3: "fleet_reachable (fst s_claimed, [] @ s_sender # [], [])"
    using fleet_reachable.step [OF 2 fleet_step.claim [OF c]] by (simp add: s_sender_def)
  have s: "sender_step 13 s_outside [] s_sender (fst s_claimed) = (fst s_sent, fst (snd s_sent), Some [60, 0])" by code_simp
  have "fleet_reachable (fst (snd s_sent), [] @ fst s_sent # [], [[60, 0]])"
    using fleet_reachable.step [OF 3 fleet_step.sender [OF s]] by simp
  from no_recipient_is_sent_twice [OF this] show ?thesis by simp
qed

end
