(* ===== verification/Expand_Claims.thy ===== *)
theory Expand_Claims
  imports Broadcast_Claims
begin

text \<open>
  The expansion of a campaign, job after job until no successor is queued: it ends, and the recipients it wrote
  are the matching accounts of the frozen audience, each once, newest first, the unreachable ones already skipped.
\<close>

section \<open>One page\<close>

definition recipient_view :: "broadcast_recipient_row \<Rightarrow> int option \<times> language \<times> broadcast_recipient_state" where
  "recipient_view r = (br_telegram_user_id r, br_language r, br_state r)"

definition audience_view :: "user_row \<Rightarrow> int option \<times> language \<times> broadcast_recipient_state" where
  "audience_view u = (Some (us_telegram_user_id u), us_ui_language u,
     if us_is_blocked u \<or> us_blocked_bot_at u \<noteq> None then Recipient_SKIPPED_BLOCKED else Recipient_PENDING)"

definition campaign_views :: "uuid \<Rightarrow> db \<Rightarrow> (int option \<times> language \<times> broadcast_recipient_state) list" where
  "campaign_views b d = map recipient_view (filter (\<lambda>r. br_broadcast_id r = b) (recipients d))"

fun page_rows :: "uuid \<Rightarrow> instant \<Rightarrow> (nat \<Rightarrow> uuid) \<Rightarrow> nat \<Rightarrow> user_row list \<Rightarrow> broadcast_recipient_row list" where
  "page_rows b at fresh n [] = []"
| "page_rows b at fresh n (u # us) = recipient_of b at (fresh n) u # page_rows b at fresh (Suc n) us"

lemma page_rows_view: "map recipient_view (page_rows b at fresh n us) = map audience_view us"
  "map br_telegram_user_id (page_rows b at fresh n us) = map (\<lambda>u. Some (us_telegram_user_id u)) us"
  "\<forall>r \<in> set (page_rows b at fresh n us). br_broadcast_id r = b \<and> (\<exists>i. br_id r = fresh i)"
  by (induction us arbitrary: n) (auto simp: recipient_view_def audience_view_def recipient_of_def is_unreachable_def)

lemma expand_rows_fresh:
  assumes "inj fresh" "distinct (map us_telegram_user_id us)"
    and "\<And>i. i \<ge> n \<Longrightarrow> fresh i \<notin> br_id ` set rs"
    and "\<And>r u. r \<in> set rs \<Longrightarrow> u \<in> set us \<Longrightarrow> br_broadcast_id r = b \<Longrightarrow> br_telegram_user_id r \<noteq> Some (us_telegram_user_id u)"
  shows "\<exists>sup. expand_rows True b at fresh n us rs = Inr ((length us, sup), rs @ page_rows b at fresh n us)"
  using assms(2-)
proof (induction us arbitrary: n rs)
  case (Cons u us)
  let ?row = "recipient_of b at (fresh n) u"
  have "select_one (\<lambda>r. (br_broadcast_id r, br_telegram_user_id r)) (br_broadcast_id ?row, br_telegram_user_id ?row) rs = None"
    using Cons.prems(3) by (fastforce simp: select_one_None_iff recipient_of_def)
  moreover have "\<not> list_ex (\<lambda>s. br_id s = br_id ?row) rs"
    using Cons.prems(2) [of n] by (auto simp: list_ex_iff recipient_of_def image_iff)
  ultimately have i: "insert_or_ignore (\<lambda>_. True) (\<lambda>r. (br_broadcast_id r, br_telegram_user_id r)) (\<lambda>r s. br_id s = br_id r) ?row rs
      = Inr (True, rs @ [?row])"
    by (simp add: insert_or_ignore_def)
  have "\<exists>sup. expand_rows True b at fresh (Suc n) us (rs @ [?row]) = Inr ((length us, sup), (rs @ [?row]) @ page_rows b at fresh (Suc n) us)"
  proof (rule Cons.IH)
    show "distinct (map us_telegram_user_id us)" using Cons.prems(1) by simp
    show "fresh j \<notin> br_id ` set (rs @ [?row])" if "j \<ge> Suc n" for j
      using Cons.prems(2) [of j] that assms(1) by (auto simp: recipient_of_def dest: injD)
    show "br_telegram_user_id r \<noteq> Some (us_telegram_user_id v)"
      if "r \<in> set (rs @ [?row])" "v \<in> set us" "br_broadcast_id r = b" for r v
    proof (cases "r \<in> set rs")
      case True
      then show ?thesis using Cons.prems(3) that by simp
    next
      case False
      then have "br_telegram_user_id r = Some (us_telegram_user_id u)" using that(1) by (simp add: recipient_of_def)
      moreover have "us_telegram_user_id v \<noteq> us_telegram_user_id u" using Cons.prems(1) that(2) by (metis distinct.simps(2) image_eqI list.set_map list.simps(9))
      ultimately show ?thesis by simp
    qed
  qed
  with i show ?case by auto
qed simp

definition matching :: "(db \<Rightarrow> user_row \<Rightarrow> bool) option \<Rightarrow> db \<Rightarrow> user_row \<Rightarrow> bool" where
  "matching predicate d = (case predicate of None \<Rightarrow> (\<lambda>_. True) | Some p \<Rightarrow> p d)"

definition audience :: "(db \<Rightarrow> user_row \<Rightarrow> bool) option \<Rightarrow> db \<Rightarrow> user_row list" where
  "audience predicate d = keyset_order us_created_at us_id (filter (matching predicate d) (users d))"

definition user_cursor :: "user_row \<Rightarrow> cursor" where
  "user_cursor u = \<lparr>cu_at = us_created_at u, cu_id = us_id u\<rparr>"

text \<open>What the statement of a page returns: a window of what the cursor leaves of the audience.\<close>

lemma page_of_audience:
  assumes d: "distinct (map (\<lambda>u. (us_created_at u, us_id u)) (users d))" and split: "audience predicate d = xs @ ys"
    and c: "c = (if xs = [] then None else Some (user_cursor (last xs)))"
  shows "keyset_order us_created_at us_id
    (filter (\<lambda>u. matching predicate d u \<and> keyset_predicate us_created_at us_id c u) (users d)) = ys"
proof (cases xs rule: rev_cases)
  case Nil
  then show ?thesis using split c by (simp add: audience_def keyset_predicate_def)
next
  case (snoc zs z)
  then have s: "rev (sort_key (\<lambda>u. (us_created_at u, us_id u)) (filter (matching predicate d) (users d))) = zs @ z # ys"
    using split by (simp add: audience_def keyset_order_def)
  have "distinct (map (\<lambda>u. (us_created_at u, us_id u)) (filter (matching predicate d) (users d)))"
    by (rule distinct_map_filter_key [OF d])
  from descending_tail [OF this s] show ?thesis
    using snoc c by (simp add: user_cursor_def keyset_predicate_key keyset_order_def conj_commute)
qed

text \<open>The state of a running expansion: the pages behind it are written and the cursor stands at their end.\<close>

definition expansion_at ::
    "db \<Rightarrow> uuid \<Rightarrow> (db \<Rightarrow> user_row \<Rightarrow> bool) option \<Rightarrow> broadcast_row \<Rightarrow> user_row list \<Rightarrow> user_row list \<Rightarrow> db \<Rightarrow> bool" where
  "expansion_at d0 b predicate row xs ys d \<longleftrightarrow>
     users d = users d0 \<and> matching predicate d = matching predicate d0 \<and> audience predicate d0 = xs @ ys
     \<and> campaign_views b d = map audience_view xs
     \<and> (\<exists>r. select_one bc_id b (broadcasts d) = Some r \<and> bc_state r = Campaign_EXPANDING
          \<and> bc_segment r = bc_segment row \<and> bc_audience_evaluated_at r = bc_audience_evaluated_at row
          \<and> bc_scheduled_for r = bc_scheduled_for row \<and> bc_recipient_count r = bc_recipient_count row + int (length xs)
          \<and> bc_expand_cursor r = (if xs = [] then None else Some (us_created_at (last xs), us_id (last xs))))"

definition due_at :: "broadcast_row \<Rightarrow> instant \<Rightarrow> bool" where
  "due_at row at = (case bc_scheduled_for row of None \<Rightarrow> True | Some t \<Rightarrow> t \<le> at)"

lemma select_one_update_same:
  assumes "select_one bc_id b rows = Some r" "\<And>r. bc_id (f r) = bc_id r" "p r"
  shows "select_one bc_id b (sql_update p f rows) = Some (f r)"
  using assms by (simp add: select_one_update)

lemma expand_chunk_page:
  assumes at0: "expansion_at d0 b predicate row xs ys d" and lim: "0 < limit"
    and keys: "distinct (map (\<lambda>u. (us_created_at u, us_id u)) (users d0))" "distinct (map us_telegram_user_id (users d0))"
    and fresh: "inj fresh" "\<And>i. fresh i \<notin> br_id ` set (recipients d)"
    and ids: "distinct (map bc_id (broadcasts d))"
    and c: "c = (if xs = [] then None else Some (user_cursor (last xs)))"
  shows "\<exists>chunk d'. expand_chunk d b predicate c at limit fresh = Inr (chunk, d')
    \<and> ec_accepted chunk \<and> ec_next_cursor chunk = (if length ys > limit then Some (user_cursor (ys ! (limit - 1))) else None)
    \<and> recipients d' = recipients d @ page_rows b at fresh 0 (take limit ys)
    \<and> map bc_id (broadcasts d') = map bc_id (broadcasts d)
    \<and> users d' = users d \<and> (\<exists>rs bs. d' = d\<lparr>recipients := rs, broadcasts := bs\<rparr>)
    \<and> (\<exists>r. select_one bc_id b (broadcasts d') = Some r
          \<and> bc_state r = (if length ys > limit then Campaign_EXPANDING else Campaign_READY)
          \<and> bc_segment r = bc_segment row \<and> bc_audience_evaluated_at r = bc_audience_evaluated_at row
          \<and> bc_scheduled_for r = bc_scheduled_for row
          \<and> bc_recipient_count r = bc_recipient_count row + int (length xs + length (take limit ys))
          \<and> bc_expand_cursor r = (if length ys > limit
               then Some (us_created_at (ys ! (limit - 1)), us_id (ys ! (limit - 1))) else None))"
proof -
  obtain r0 where r0: "select_one bc_id b (broadcasts d) = Some r0" "bc_state r0 = Campaign_EXPANDING"
      "bc_segment r0 = bc_segment row" "bc_audience_evaluated_at r0 = bc_audience_evaluated_at row"
      "bc_scheduled_for r0 = bc_scheduled_for row" "bc_recipient_count r0 = bc_recipient_count row + int (length xs)"
    using at0 by (auto simp: expansion_at_def)
  have aud: "audience predicate d = xs @ ys" and vs: "campaign_views b d = map audience_view xs" and us: "users d = users d0"
    using at0 by (auto simp: expansion_at_def audience_def)
  have page: "keyset_order us_created_at us_id
    (filter (\<lambda>u. matching predicate d u \<and> keyset_predicate us_created_at us_id c u) (users d)) = ys"
    by (rule page_of_audience [OF _ aud c]) (simp add: keys us)
  have tids: "distinct (map us_telegram_user_id (xs @ ys))"
    unfolding aud [symmetric] audience_def keyset_order_def us
    using keys(2) by (simp add: rev_map [symmetric] distinct_map distinct_map_filter inj_on_def)
  have scanned: "take (limit + 1) ys = (if length ys > limit then take (limit + 1) ys else ys)" by simp
  have kept: "take limit (take (limit + 1) ys) = take limit ys" by (simp add: take_take min_def)
  have more: "length (take (limit + 1) ys) > limit \<longleftrightarrow> length ys > limit" by simp
  have nonempty: "take limit ys \<noteq> []" if "length ys > limit" using that lim by auto
  have last: "last (take limit ys) = ys ! (limit - 1)" if "length ys > limit"
    using that lim nonempty [OF that] by (subst last_conv_nth) simp_all
  obtain n_sup where rows: "expand_rows True b at fresh 0 (take limit ys) (recipients d)
      = Inr ((length (take limit ys), n_sup), recipients d @ page_rows b at fresh 0 (take limit ys))"
  proof -
    have "\<exists>sup. expand_rows True b at fresh 0 (take limit ys) (recipients d)
        = Inr ((length (take limit ys), sup), recipients d @ page_rows b at fresh 0 (take limit ys))"
    proof (rule expand_rows_fresh [OF fresh(1)])
      show "distinct (map us_telegram_user_id (take limit ys))" using tids by (simp add: take_map [symmetric])
      show "fresh i \<notin> br_id ` set (recipients d)" for i by (rule fresh(2))
      fix r u assume r: "r \<in> set (recipients d)" "u \<in> set (take limit ys)" "br_broadcast_id r = b"
      show "br_telegram_user_id r \<noteq> Some (us_telegram_user_id u)"
      proof
        assume eq: "br_telegram_user_id r = Some (us_telegram_user_id u)"
        have "recipient_view r \<in> set (campaign_views b d)" using r by (auto simp: campaign_views_def)
        then obtain v where "v \<in> set xs" "br_telegram_user_id r = Some (us_telegram_user_id v)"
          unfolding vs by (auto simp: recipient_view_def audience_view_def)
        moreover have "u \<in> set ys" using r(2) by (rule in_set_takeD)
        ultimately show False using tids eq by fastforce
      qed
    qed
    then show ?thesis using that by blast
  qed
  let ?next = "if length ys > limit then Some (user_cursor (ys ! (limit - 1))) else None"
  let ?p = "\<lambda>r. bc_id r = b \<and> bc_state r = Campaign_EXPANDING"
  let ?f = "\<lambda>r. r\<lparr>bc_expand_cursor := map_option (\<lambda>c. (cu_at c, cu_id c)) ?next,
       bc_recipient_count := bc_recipient_count r + int (length (take limit ys)),
       bc_state := (if ?next \<noteq> None then Campaign_EXPANDING else Campaign_READY), bc_updated_at := at\<rparr>"
  have "expand_chunk d b predicate c at limit fresh =
    Inr (\<lparr>ec_scanned = length (take limit ys), ec_inserted = length (take limit ys), ec_suppressed = n_sup, ec_next_cursor = ?next,
        ec_accepted = rowcount ?p (broadcasts d) = 1\<rparr>,
      d\<lparr>recipients := recipients d @ page_rows b at fresh 0 (take limit ys), broadcasts := sql_update ?p ?f (broadcasts d)\<rparr>)"
    unfolding expand_chunk_def Let_def matching_def [symmetric] page kept more
    using r0(1) rows last nonempty by (cases "length ys > limit") (simp_all add: update_broadcasts_def user_cursor_def)
  moreover have "rowcount ?p (broadcasts d) = 1" using r0 by (simp add: rowcount_key [OF ids])
  moreover have "select_one bc_id b (sql_update ?p ?f (broadcasts d)) = Some (?f r0)"
    by (rule select_one_update_same [OF r0(1)]) (use r0 select_one_SomeD [OF r0(1)] in simp_all)
  ultimately show ?thesis using r0 by (auto simp: user_cursor_def)
qed

section \<open>Job after job\<close>

text \<open>The queue: a job's successor runs until none is asked for. The fuel bounds the jobs, each with its own instant
  and identifiers.\<close>

fun run_expansion ::
    "(pystr \<Rightarrow> instant \<Rightarrow> bayram_error + (db \<Rightarrow> user_row \<Rightarrow> bool) option) \<Rightarrow> uuid \<Rightarrow> nat \<Rightarrow> (nat \<Rightarrow> instant)
      \<Rightarrow> (nat \<Rightarrow> nat \<Rightarrow> uuid) \<Rightarrow> nat \<Rightarrow> nat \<Rightarrow> db \<Rightarrow> (db \<times> queued_job list) option" where
  "run_expansion compile b limit at ids n 0 d = None"
| "run_expansion compile b limit at ids n (Suc fuel) d =
     (case expand_broadcast_audience compile b (at n) limit (ids n) d of
        (d, _, jobs) \<Rightarrow> if jobs = [Expand_Job b] then run_expansion compile b limit at ids (Suc n) fuel d else Some (d, jobs))"

lemma load_plan_fields:
  assumes "select_one bc_id b (broadcasts d) = Some r"
  shows "\<exists>plan. load_plan d b = Some plan \<and> bp_state plan = bc_state r \<and> bp_segment plan = bc_segment r
    \<and> bp_audience_evaluated_at plan = bc_audience_evaluated_at r \<and> bp_expand_cursor plan = bc_expand_cursor r
    \<and> bp_scheduled_for plan = bc_scheduled_for r"
  using assms by (simp add: load_plan_def Let_def)

lemma expand_job:
  assumes r: "select_one bc_id b (broadcasts d) = Some r" "bc_state r = Campaign_EXPANDING"
    and compile: "compile (bc_segment r) (bc_audience_evaluated_at r) = Inr predicate"
    and e: "expand_chunk d b predicate (decode_expand_cursor (bc_expand_cursor r)) at limit fresh = Inr (chunk, d')"
    and ok: "ec_accepted chunk"
  shows "\<exists>summary. expand_broadcast_audience compile b at limit fresh d = (d', summary,
    if ec_next_cursor chunk \<noteq> None then [Expand_Job b] else if due_at r at then [Send_Job b] else [])"
proof -
  obtain plan where plan: "load_plan d b = Some plan" "bp_state plan = bc_state r" "bp_segment plan = bc_segment r"
    "bp_audience_evaluated_at plan = bc_audience_evaluated_at r" "bp_expand_cursor plan = bc_expand_cursor r"
    "bp_scheduled_for plan = bc_scheduled_for r"
    using load_plan_fields [OF r(1)] by blast
  have x: "bs_expand b predicate (decode_expand_cursor (bc_expand_cursor r)) at limit fresh d = (d', Inr chunk)"
    using e by (simp add: bs_expand_def bs_session_def run_guarded_def)
  have p: "bs_plan b d = (d, Inr (Some plan))"
    using plan(1) by (simp add: bs_plan_def bs_session_def run_guarded_def)
  show ?thesis
    using r(2) compile ok plan(2-) x p
    by (simp add: expand_broadcast_audience_def due_at_def Let_def)
qed

lemma run_expansion_from:
  assumes at0: "expansion_at d0 b predicate row xs ys d" and lim: "0 < limit"
    and keys: "distinct (map (\<lambda>u. (us_created_at u, us_id u)) (users d0))" "distinct (map us_telegram_user_id (users d0))"
    and ids: "inj (\<lambda>(n, i). ids n i)" "\<And>m i. m \<ge> n \<Longrightarrow> ids m i \<notin> br_id ` set (recipients d)"
    and cids: "distinct (map bc_id (broadcasts d))"
    and compile: "compile (bc_segment row) (bc_audience_evaluated_at row) = Inr predicate"
    and frame: "\<And>rs bs. matching predicate (d0\<lparr>recipients := rs, broadcasts := bs\<rparr>) = matching predicate d0"
    and same: "\<exists>rs bs. d = d0\<lparr>recipients := rs, broadcasts := bs\<rparr>"
    and fuel: "length ys < fuel"
  shows "\<exists>d' jobs n'. run_expansion compile b limit at ids n fuel d = Some (d', jobs)
    \<and> campaign_views b d' = map audience_view (xs @ ys)
    \<and> jobs = (if due_at row (at n') then [Send_Job b] else [])
    \<and> (\<exists>r. select_one bc_id b (broadcasts d') = Some r \<and> bc_state r = Campaign_READY
         \<and> bc_recipient_count r = bc_recipient_count row + int (length (xs @ ys)))"
  using at0 ids(2) cids same fuel
proof (induction fuel arbitrary: n xs ys d)
  case 0
  from 0(5) show ?case by (rule notE [rotated]) (rule not_less0)
next
  case (Suc fuel)
  obtain r where r: "select_one bc_id b (broadcasts d) = Some r" "bc_state r = Campaign_EXPANDING"
      "bc_segment r = bc_segment row" "bc_audience_evaluated_at r = bc_audience_evaluated_at row"
      "bc_scheduled_for r = bc_scheduled_for row"
      "bc_expand_cursor r = (if xs = [] then None else Some (us_created_at (last xs), us_id (last xs)))"
    using Suc.prems(1) unfolding expansion_at_def by blast
  let ?c = "decode_expand_cursor (bc_expand_cursor r)"
  have c: "?c = (if xs = [] then None else Some (user_cursor (last xs)))"
    by (simp add: r(6) decode_expand_cursor_def user_cursor_def)
  have pair: "ids m i = ids n j \<Longrightarrow> m = n \<and> i = j" for m i j
    using injD [OF ids(1), of "(m, i)" "(n, j)"] by simp
  have inj: "inj (ids n)" by (rule injI) (use pair in blast)
  obtain chunk d' r' where e: "expand_chunk d b predicate ?c (at n) limit (ids n) = Inr (chunk, d')" "ec_accepted chunk"
      "ec_next_cursor chunk = (if length ys > limit then Some (user_cursor (ys ! (limit - 1))) else None)"
      "recipients d' = recipients d @ page_rows b (at n) (ids n) 0 (take limit ys)"
      "map bc_id (broadcasts d') = map bc_id (broadcasts d)" "users d' = users d" "\<exists>rs bs. d' = d\<lparr>recipients := rs, broadcasts := bs\<rparr>"
    and r': "select_one bc_id b (broadcasts d') = Some r'"
      "bc_state r' = (if length ys > limit then Campaign_EXPANDING else Campaign_READY)"
      "bc_segment r' = bc_segment row" "bc_audience_evaluated_at r' = bc_audience_evaluated_at row"
      "bc_scheduled_for r' = bc_scheduled_for row"
      "bc_recipient_count r' = bc_recipient_count row + int (length xs + length (take limit ys))"
      "bc_expand_cursor r' = (if length ys > limit
               then Some (us_created_at (ys ! (limit - 1)), us_id (ys ! (limit - 1))) else None)"
    using expand_chunk_page [OF Suc.prems(1) lim keys inj Suc.prems(2) [OF order.refl] Suc.prems(3) c] by blast
  have comp: "compile (bc_segment r) (bc_audience_evaluated_at r) = Inr predicate" using compile r(3,4) by simp
  obtain summary where job: "expand_broadcast_audience compile b (at n) limit (ids n) d = (d', summary,
      if length ys > limit then [Expand_Job b] else if due_at row (at n) then [Send_Job b] else [])"
    using expand_job [where compile = compile, OF r(1,2) comp e(1,2)] e(3) r(5) by (auto simp: due_at_def split: if_splits)
  have views: "campaign_views b d' = map audience_view (xs @ take limit ys)"
  proof -
    have "filter (\<lambda>r. br_broadcast_id r = b) (page_rows b (at n) (ids n) 0 (take limit ys)) = page_rows b (at n) (ids n) 0 (take limit ys)"
      using page_rows_view(3) by (simp add: filter_id_conv)
    then show ?thesis using Suc.prems(1) by (simp add: campaign_views_def e(4) expansion_at_def page_rows_view(1))
  qed
  show ?case
  proof (cases "length ys > limit")
    case False
    then have "take limit ys = ys" by simp
    with False job views r' show ?thesis by auto
  next
    case True
    obtain rs0 bs0 rs1 bs1 where d: "d = d0\<lparr>recipients := rs0, broadcasts := bs0\<rparr>"
        and d': "d' = d\<lparr>recipients := rs1, broadcasts := bs1\<rparr>"
      using e(7) Suc.prems(4) by blast
    have d0: "d' = d0\<lparr>recipients := rs1, broadcasts := bs1\<rparr>" unfolding d' d by simp
    have m: "matching predicate d' = matching predicate d0" unfolding d0 by (rule frame)
    have s: "\<exists>rs bs. d' = d0\<lparr>recipients := rs, broadcasts := bs\<rparr>" using d0 by blast
    have ne: "take limit ys \<noteq> []" using True lim by auto
    have "last (take limit ys) = ys ! (limit - 1)" using True lim by (subst last_conv_nth [OF ne]) simp
    then have lastx: "xs @ take limit ys \<noteq> []" "last (xs @ take limit ys) = ys ! (limit - 1)"
      using ne by simp_all
    have at1: "expansion_at d0 b predicate row (xs @ take limit ys) (drop limit ys) d'"
      unfolding expansion_at_def
      using Suc.prems(1) m e(6) views r' True lastx by (auto simp: expansion_at_def)
    have f: "ids m' i \<notin> br_id ` set (recipients d')" if "m' \<ge> Suc n" for m' i
    proof -
      have "ids m' i \<noteq> ids n j" for j using pair [of m' i j] that by auto
      then have "ids m' i \<notin> br_id ` set (page_rows b (at n) (ids n) 0 (take limit ys))"
        using page_rows_view(3) [of b "at n" "ids n" 0 "take limit ys"] by (metis imageE)
      then show ?thesis using Suc.prems(2) [of m' i] that by (simp add: e(4) image_Un)
    qed
    have "length (drop limit ys) < fuel" using Suc.prems(5) True lim by simp
    with Suc.IH [OF at1 f _ s this] e(5) Suc.prems(3) job True show ?thesis by simp
  qed
qed

section \<open>Properties\<close>

text \<open>C35. The expansion is exact and it ends: run job after job from a fresh campaign, over accounts that do not change,
  with a compiled segment that reads neither the campaigns nor their recipients, it stops after at most one job per account
  and one more; the recipients of the campaign are then the accounts of the frozen audience, each exactly once, newest first,
  in their language, the barred and the blocking ones skipped, the count of the campaign is theirs, and the campaign is ready
  and its send is queued when it is due.\<close>

theorem expansion_writes_each_account_once:
  assumes "select_one bc_id b (broadcasts d) = Some row" "bc_state row = Campaign_EXPANDING" "bc_expand_cursor row = None"
    and "campaign_views b d = []" "distinct (map bc_id (broadcasts d))" "0 < limit"
    and "distinct (map (\<lambda>u. (us_created_at u, us_id u)) (users d))" "distinct (map us_telegram_user_id (users d))"
    and "inj (\<lambda>(n, i). ids n i)" "\<And>m i. ids m i \<notin> br_id ` set (recipients d)"
    and "compile (bc_segment row) (bc_audience_evaluated_at row) = Inr predicate"
    and "\<And>rs bs. matching predicate (d\<lparr>recipients := rs, broadcasts := bs\<rparr>) = matching predicate d"
  shows "\<exists>d' jobs n. run_expansion compile b limit at ids 0 (Suc (length (users d))) d = Some (d', jobs)
    \<and> campaign_views b d' = map audience_view (keyset_order us_created_at us_id (filter (matching predicate d) (users d)))
    \<and> jobs = (if due_at row (at n) then [Send_Job b] else [])
    \<and> (\<exists>r. select_one bc_id b (broadcasts d') = Some r \<and> bc_state r = Campaign_READY
         \<and> bc_recipient_count r = bc_recipient_count row + int (length (filter (matching predicate d) (users d))))"
proof -
  have at0: "expansion_at d b predicate row [] (audience predicate d) d"
    using assms(1-4) by (simp add: expansion_at_def)
  have fuel: "length (audience predicate d) < Suc (length (users d))"
    using filter_length_less [of "matching predicate d" "users d"] by (simp add: audience_def)
  have same: "\<exists>rs bs. d = d\<lparr>recipients := rs, broadcasts := bs\<rparr>"
    by (rule exI [of _ "recipients d"], rule exI [of _ "broadcasts d"]) simp
  show ?thesis
    using run_expansion_from [where compile = compile and at = at, OF at0 assms(6-9) assms(10) assms(5,11,12) same fuel]
    by (auto simp: audience_def)
qed

text \<open>Two accounts, the second one barred, a page of one.\<close>

definition s_pair :: db where
  "s_pair = s_composed\<lparr>users := [s_user, s_user\<lparr>us_id := [71], us_telegram_user_id := 8, us_created_at := 6, us_is_blocked := True\<rparr>]\<rparr>"

definition s_row :: broadcast_row where
  "s_row = hd (broadcasts s_pair)"

lemma s_pair_facts:
  "select_one bc_id [90] (broadcasts s_pair) = Some s_row" "bc_state s_row = Campaign_EXPANDING" "bc_expand_cursor s_row = None"
  "campaign_views [90] s_pair = []" "distinct (map bc_id (broadcasts s_pair))"
  "distinct (map (\<lambda>u. (us_created_at u, us_id u)) (users s_pair))" "distinct (map us_telegram_user_id (users s_pair))"
  "recipients s_pair = []" "length (users s_pair) = 2" "due_at s_row 12"
  by code_simp+

lemma expansion_witness:
  "\<exists>d' jobs. run_expansion (\<lambda>_ _. Inr None) [90] 1 (\<lambda>_. 12) (\<lambda>n i. [60, n, i]) 0 3 s_pair = Some (d', jobs)
    \<and> jobs = [Send_Job [90]]"
proof -
  have i: "inj (\<lambda>(n, i). [60, n, i :: nat])" by (auto simp: inj_def)
  have f: "[60, m, j] \<notin> br_id ` set (recipients s_pair)" for m j by (simp add: s_pair_facts(8))
  have c: "(\<lambda>_ _. Inr None) (bc_segment s_row) (bc_audience_evaluated_at s_row) = Inr None" by simp
  have m: "matching None (s_pair\<lparr>recipients := rs, broadcasts := bs\<rparr>) = matching None s_pair" for rs bs
    by (simp add: matching_def)
  from expansion_writes_each_account_once [OF s_pair_facts(1-5) _ s_pair_facts(6,7) i f c m, of 1 "\<lambda>_. 12"]
  obtain d' jobs n where
    "run_expansion (\<lambda>_ _. Inr None) [90] 1 (\<lambda>_. 12) (\<lambda>n i. [60, n, i]) 0 (Suc (length (users s_pair))) s_pair = Some (d', jobs)"
    "jobs = (if due_at s_row 12 then [Send_Job [90]] else [])" by auto
  then show ?thesis by (simp add: s_pair_facts(9,10) numeral_3_eq_3)
qed

end
