(* ===== verification/Audit_Log.thy ===== *)
theory Audit_Log
  imports Db_Tables Py_Text
begin

text \<open>
  The operators' audit log (\<^verbatim>\<open>src/src/bayram/db/admin/audit.py\<close>, \<^verbatim>\<open>src/src/bayram/db/purge_admin.py\<close>, the rows of
  \<^verbatim>\<open>admin_audit.py\<close> and \<^verbatim>\<open>audit_anchor.py\<close>): the refusal of credentials, the keyed chain over the canonical text
  of each row, the one writer, the verification in batches, the anchors and the two sweeps. The keyed digest
  \<^verbatim>\<open>hmac.new(key, message, sha256).hexdigest()\<close> and \<^verbatim>\<open>ipaddress.ip_address\<close> are arguments.
\<close>

section \<open>Vocabulary\<close>

datatype audit_action =
    Act_LOGIN_SUCCESS | Act_LOGIN_FAILURE | Act_LOGIN_RATE_LIMITED | Act_LOGOUT | Act_STEP_UP_SUCCESS
    | Act_STEP_UP_FAILURE | Act_SESSION_REVOKED | Act_REVEAL_PERSONAL | Act_ASSET_STREAM
    | Act_AUDIENCE_LIST_READ | Act_ORDER_RETRY | Act_ORDER_REENQUEUE | Act_ORDER_FORCE_DELIVER
    | Act_ORDER_CANCEL | Act_USER_BLOCK | Act_USER_UNBLOCK | Act_USER_PURGE_REQUESTED
    | Act_USER_PURGE_COMPLETED | Act_USER_PURGE_FAILED | Act_MODERATION_APPROVE | Act_MODERATION_REJECT
    | Act_CONFIG_VALIDATE | Act_CONFIG_COMMIT | Act_CONFIG_ROLLBACK | Act_RETENTION_EXTENDED
    | Act_RETENTION_RUN | Act_EXPORT_AGGREGATE | Act_EXPORT_ORDER | Act_EXPORT_AUDIT | Act_ADMIN_CREATE
    | Act_ADMIN_UPDATE_ROLE | Act_ADMIN_DEACTIVATE | Act_ADMIN_PASSWORD_CHANGE | Act_PERMISSION_DENIED
    | Act_CREDIT_GRANT | Act_BROADCAST_CREATE | Act_BROADCAST_REVISE | Act_BROADCAST_SCHEDULE
    | Act_BROADCAST_PAUSE | Act_BROADCAST_RESUME | Act_BROADCAST_CANCEL | Act_BROADCAST_SENT
    | Act_BROADCAST_TEST | Act_RAIL_PAUSED | Act_RAIL_RESUMED | Act_PAYMENT_NOTIFY | Act_TICKET_STATUS
    | Act_TICKET_NOTE | Act_TICKET_REPLY | Act_TICKET_ASSIGN | Act_SUPPORT_GROUP_SELECT
    | Act_SUPPORT_GROUP_CLEAR

fun audit_action_value :: "audit_action \<Rightarrow> pystr" where
  "audit_action_value Act_LOGIN_SUCCESS = ustr ''login.success''"
| "audit_action_value Act_LOGIN_FAILURE = ustr ''login.failure''"
| "audit_action_value Act_LOGIN_RATE_LIMITED = ustr ''login.limited''"
| "audit_action_value Act_LOGOUT = ustr ''logout''"
| "audit_action_value Act_STEP_UP_SUCCESS = ustr ''step_up.success''"
| "audit_action_value Act_STEP_UP_FAILURE = ustr ''step_up.failure''"
| "audit_action_value Act_SESSION_REVOKED = ustr ''session.revoked''"
| "audit_action_value Act_REVEAL_PERSONAL = ustr ''reveal.personal''"
| "audit_action_value Act_ASSET_STREAM = ustr ''asset.stream''"
| "audit_action_value Act_AUDIENCE_LIST_READ = ustr ''audience.list''"
| "audit_action_value Act_ORDER_RETRY = ustr ''order.retry''"
| "audit_action_value Act_ORDER_REENQUEUE = ustr ''order.reenqueue''"
| "audit_action_value Act_ORDER_FORCE_DELIVER = ustr ''order.deliver''"
| "audit_action_value Act_ORDER_CANCEL = ustr ''order.cancel''"
| "audit_action_value Act_USER_BLOCK = ustr ''user.block''"
| "audit_action_value Act_USER_UNBLOCK = ustr ''user.unblock''"
| "audit_action_value Act_USER_PURGE_REQUESTED = ustr ''user.purge.req''"
| "audit_action_value Act_USER_PURGE_COMPLETED = ustr ''user.purge.done''"
| "audit_action_value Act_USER_PURGE_FAILED = ustr ''user.purge.fail''"
| "audit_action_value Act_MODERATION_APPROVE = ustr ''moderation.approve''"
| "audit_action_value Act_MODERATION_REJECT = ustr ''moderation.reject''"
| "audit_action_value Act_CONFIG_VALIDATE = ustr ''config.validate''"
| "audit_action_value Act_CONFIG_COMMIT = ustr ''config.commit''"
| "audit_action_value Act_CONFIG_ROLLBACK = ustr ''config.rollback''"
| "audit_action_value Act_RETENTION_EXTENDED = ustr ''retention.extended''"
| "audit_action_value Act_RETENTION_RUN = ustr ''retention.run''"
| "audit_action_value Act_EXPORT_AGGREGATE = ustr ''export.aggregate''"
| "audit_action_value Act_EXPORT_ORDER = ustr ''export.order''"
| "audit_action_value Act_EXPORT_AUDIT = ustr ''export.audit''"
| "audit_action_value Act_ADMIN_CREATE = ustr ''admin.create''"
| "audit_action_value Act_ADMIN_UPDATE_ROLE = ustr ''admin.role''"
| "audit_action_value Act_ADMIN_DEACTIVATE = ustr ''admin.deactivate''"
| "audit_action_value Act_ADMIN_PASSWORD_CHANGE = ustr ''admin.password''"
| "audit_action_value Act_PERMISSION_DENIED = ustr ''permission.denied''"
| "audit_action_value Act_CREDIT_GRANT = ustr ''credit.grant''"
| "audit_action_value Act_BROADCAST_CREATE = ustr ''broadcast.create''"
| "audit_action_value Act_BROADCAST_REVISE = ustr ''broadcast.revise''"
| "audit_action_value Act_BROADCAST_SCHEDULE = ustr ''broadcast.schedule''"
| "audit_action_value Act_BROADCAST_PAUSE = ustr ''broadcast.pause''"
| "audit_action_value Act_BROADCAST_RESUME = ustr ''broadcast.resume''"
| "audit_action_value Act_BROADCAST_CANCEL = ustr ''broadcast.cancel''"
| "audit_action_value Act_BROADCAST_SENT = ustr ''broadcast.sent''"
| "audit_action_value Act_BROADCAST_TEST = ustr ''broadcast.test''"
| "audit_action_value Act_RAIL_PAUSED = ustr ''rail.paused''"
| "audit_action_value Act_RAIL_RESUMED = ustr ''rail.resumed''"
| "audit_action_value Act_PAYMENT_NOTIFY = ustr ''payment.notify''"
| "audit_action_value Act_TICKET_STATUS = ustr ''ticket.status''"
| "audit_action_value Act_TICKET_NOTE = ustr ''ticket.note''"
| "audit_action_value Act_TICKET_REPLY = ustr ''ticket.reply''"
| "audit_action_value Act_TICKET_ASSIGN = ustr ''ticket.assign''"
| "audit_action_value Act_SUPPORT_GROUP_SELECT = ustr ''support.group.select''"
| "audit_action_value Act_SUPPORT_GROUP_CLEAR = ustr ''support.group.clear''"

fun audit_reason_value :: "audit_reason_code \<Rightarrow> pystr" where
  "audit_reason_value CUSTOMER_REQUEST = ustr ''customer_request''"
| "audit_reason_value GDPR_ERASURE = ustr ''gdpr_erasure''"
| "audit_reason_value ABUSE_REPORT = ustr ''abuse_report''"
| "audit_reason_value SUPPORT_INVESTIGATION = ustr ''support_investigation''"
| "audit_reason_value INCIDENT = ustr ''incident''"
| "audit_reason_value BAKE_OFF = ustr ''bake_off''"
| "audit_reason_value ROUTINE_OPS = ustr ''routine_ops''"
| "audit_reason_value OTHER_REASON = ustr ''other''"

fun admin_role_value :: "admin_role \<Rightarrow> pystr" where
  "admin_role_value Role_OWNER = ustr ''owner''"
| "admin_role_value Role_ADMIN = ustr ''admin''"
| "admin_role_value Role_SUPPORT = ustr ''support''"
| "admin_role_value Role_VIEWER = ustr ''viewer''"

datatype audit_outcome = Outcome_OK | Outcome_DENIED | Outcome_ERROR

fun audit_outcome_value :: "audit_outcome \<Rightarrow> pystr" where
  "audit_outcome_value Outcome_OK = ustr ''ok''"
| "audit_outcome_value Outcome_DENIED = ustr ''denied''"
| "audit_outcome_value Outcome_ERROR = ustr ''error''"

datatype audit_anchor_kind = Anchor_HEAD | Anchor_TRUNCATION

datatype chain_protection = REVOKE_HMAC | HMAC_ONLY

definition audit_retention_days :: int where "audit_retention_days = 730"
definition audit_reason_retention_days :: int where "audit_reason_retention_days = 90"
definition reason_text_length :: nat where "reason_text_length = 500"
definition chain_version :: pystr where "chain_version = ustr ''v1''"
definition default_page_size :: int where "default_page_size = 50"
definition max_page_size :: int where "max_page_size = 200"
definition verify_batch_size :: nat where "verify_batch_size = 500"
definition max_verify_rows :: nat where "max_verify_rows = 50000"

definition subject_types :: "pystr list" where
  "subject_types = map ustr [''order'', ''user'', ''asset'', ''chat'', ''config'', ''admin'', ''session'',
     ''wizard_draft'', ''system'', ''broadcast'', ''payment'', ''ticket'', ''bot_chat'']"

record audit_entry =
  ae_action :: audit_action
  ae_actor_username :: pystr
  ae_actor_role :: admin_role
  ae_subject_type :: pystr
  ae_reason_code :: audit_reason_code
  ae_outcome :: audit_outcome
  ae_actor_id :: "uuid option"
  ae_subject_id :: "pystr option"
  ae_field_names :: "pystr list option"
  ae_record_count :: "int option"
  ae_reason_ref :: "pystr option"
  ae_reason_text :: "pystr option"
  ae_error_code :: "pystr option"
  ae_correlation_id :: "pystr option"
  ae_ip :: "pystr option"
  ae_user_agent_hash :: "pystr option"
  ae_config_version :: "int option"

record admin_audit_row =
  aa_seq :: int
  aa_id :: uuid
  aa_at :: instant
  aa_actor_id :: "uuid option"
  aa_actor_username :: pystr
  aa_actor_role :: admin_role
  aa_action :: audit_action
  aa_subject_type :: pystr
  aa_subject_id :: "pystr option"
  aa_field_names :: "pystr list option"
  aa_record_count :: "int option"
  aa_reason_code :: audit_reason_code
  aa_reason_ref :: "pystr option"
  aa_reason_text :: "pystr option"
  aa_reason_expires_at :: "instant option"
  aa_reason_purged_at :: "instant option"
  aa_outcome :: audit_outcome
  aa_error_code :: "pystr option"
  aa_correlation_id :: "pystr option"
  aa_ip :: "pystr option"
  aa_user_agent_hash :: "pystr option"
  aa_config_version :: "int option"
  aa_expires_at :: instant
  aa_prev_hmac :: "pystr option"
  aa_chain_hmac :: pystr

record audit_anchor_row =
  an_at :: instant
  an_kind :: audit_anchor_kind
  an_seq :: int
  an_chain_hmac :: pystr
  an_truncated_below_seq :: "int option"
  an_rows_deleted :: "int option"

record chain_verification =
  cv_is_ok :: bool
  cv_first_break_seq :: "int option"
  cv_checked_rows :: nat
  cv_last_seq :: "int option"
  cv_is_complete :: bool
  cv_protection :: chain_protection
  cv_anchors :: "int list"

text \<open>
  The two tables and the sequence the next row's number is drawn from; a number drawn by a transaction that
  rolled back is not given again.
\<close>

record audit_log =
  al_rows :: "admin_audit_row list"
  al_anchors :: "audit_anchor_row list"
  al_next_seq :: int

section \<open>Redaction\<close>

definition is_token :: "nat \<Rightarrow> bool" where "is_token c = (is_alnum c \<or> is_one_of ''_-'' c)"

fun re_seq :: "re list \<Rightarrow> re" where
  "re_seq [] = Run (\<lambda>_. False) 0 None"
| "re_seq [r] = r"
| "re_seq (r # q # rs) = Then r (re_seq (q # rs))"

text \<open>Under \<^verbatim>\<open>IGNORECASE\<close> a range of letters also takes four letters outside ASCII that fold into it.\<close>

definition is_alnum_folded :: "nat \<Rightarrow> bool" where
  "is_alnum_folded c = (is_alnum c \<or> c \<in> {304, 305, 383, 8490})"

definition either_case :: "nat \<Rightarrow> re" where
  "either_case c = Run (\<lambda>x. x = c \<or> x = c + 32) 1 (Some 1)"

definition secret_value_patterns :: "unicode \<Rightarrow> re list" where
  "secret_value_patterns un =
     [re_seq [Boundary, Run (un_decimal un) 6 (Some 12), literal '':'', Run is_token 30 None, Boundary],
      re_seq [Boundary, literal ''sk_'', Run is_alnum 20 None, Boundary],
      re_seq [Boundary, literal ''sk-'', Run (\<lambda>c. is_lower c \<or> is_digit c \<or> c = 45) 2 None, literal ''-'',
        Run is_token 20 None, Boundary],
      re_seq [Boundary, literal ''AIza'', Run is_token 30 None, Boundary],
      re_seq ([Boundary] @ map either_case (ustr ''BEARER'')
        @ [Run (un_space un) 1 None, Run (\<lambda>c. is_alnum_folded c \<or> is_one_of ''._-'' c) 10 None, Boundary]),
      re_seq [Boundary, Run is_lower 1 (Some 1), Run (\<lambda>c. is_lower c \<or> is_digit c \<or> is_one_of ''+.-'' c) 0 None,
        literal ''://'', Run (\<lambda>c. \<not> is_one_of ''/:@'' c \<and> \<not> un_space un c) 1 None, literal '':'',
        Run (\<lambda>c. \<not> is_one_of ''/@'' c \<and> \<not> un_space un c) 1 None, literal ''@'']]"

definition redacted :: pystr where "redacted = ustr ''***REDACTED***''"
definition max_logged_value_chars :: nat where "max_logged_value_chars = 2000"

definition redact_text :: "unicode \<Rightarrow> pystr \<Rightarrow> pystr" where
  "redact_text un text =
     (let masked = fold (\<lambda>r t. re_sub un r redacted (None, t)) (secret_value_patterns un) text
      in if length masked > max_logged_value_chars
         then take max_logged_value_chars masked @ 8230 # ustr ''[truncated '' @ str_nat (length masked) @ ustr '' chars]''
         else masked)"

section \<open>What may be stored\<close>

datatype audit_refusal =
    Secret_Refused string | Not_Storable string | Bad_Digest | Bad_Ip | Bad_Subject_Type pystr | Empty_Key | Integrity

definition and_then :: "'e + 'a \<Rightarrow> ('a \<Rightarrow> 'e + 'b) \<Rightarrow> 'e + 'b" where
  "and_then m f = (case m of Inl e \<Rightarrow> Inl e | Inr a \<Rightarrow> f a)"

lemma and_then_Inr [simp]: "and_then m f = Inr b \<longleftrightarrow> (\<exists>a. m = Inr a \<and> f a = Inr b)"
  by (cases m) (simp_all add: and_then_def)

definition credential_shapes :: "re list" where
  "credential_shapes =
     [re_seq [literal ''$'', Or (Then (literal ''argon2'') (Run (\<lambda>c. is_lower c \<or> is_digit c) 0 None))
         (Then (literal ''2'') (Run (is_one_of ''aby'') 0 (Some 1))), literal ''$''],
      re_seq [Boundary, Run (\<lambda>c. is_digit c \<or> (97 \<le> c \<and> c \<le> 102)) 64 (Some 64), Boundary],
      Run is_token 40 None]"

definition reject_secrets :: "unicode \<Rightarrow> string \<Rightarrow> pystr option \<Rightarrow> audit_refusal + unit" where
  "reject_secrets un name value =
     (case value of
        None \<Rightarrow> Inr ()
      | Some v \<Rightarrow>
         if v = [] then Inr ()
         else if redact_text un v \<noteq> v \<or> list_ex (\<lambda>shape. re_search un shape None v) credential_shapes
         then Inl (Secret_Refused name) else Inr ())"

definition clean_text :: "unicode \<Rightarrow> string \<Rightarrow> pystr option \<Rightarrow> nat \<Rightarrow> audit_refusal + pystr option" where
  "clean_text un name value limit =
     (case value of
        None \<Rightarrow> Inr None
      | Some v \<Rightarrow>
         (let text = py_strip un v
          in if text = [] then Inr None
             else and_then (reject_secrets un name (Some text)) (\<lambda>_. Inr (Some (take limit (redact_text un text))))))"

definition checked :: "unicode \<Rightarrow> string \<Rightarrow> pystr option \<Rightarrow> (pystr \<Rightarrow> bool) \<Rightarrow> audit_refusal + pystr option" where
  "checked un name value pattern =
     (case value of
        None \<Rightarrow> Inr None
      | Some v \<Rightarrow> and_then (reject_secrets un name (Some v))
          (\<lambda>_. if pattern v then Inr (Some v) else Inl (Not_Storable name)))"

definition reason_ref_pattern :: "pystr \<Rightarrow> bool" where
  "reason_ref_pattern = matches_whole (\<lambda>c. is_alnum c \<or> is_one_of ''#_-'' c) 1 64"

definition subject_id_pattern :: "pystr \<Rightarrow> bool" where
  "subject_id_pattern = matches_whole (\<lambda>c. is_alnum c \<or> is_one_of '':._-'' c) 1 64"

definition field_name_pattern :: "pystr \<Rightarrow> bool" where
  "field_name_pattern s =
     (s \<noteq> [] \<and> is_lower (hd s) \<and> matches_whole (\<lambda>c. is_lower c \<or> is_digit c \<or> is_one_of ''_.'' c) 1 64 s)"

definition correlation_pattern :: "pystr \<Rightarrow> bool" where
  "correlation_pattern = matches_whole (\<lambda>c. is_alnum c \<or> is_one_of ''._-'' c) 1 128"

definition user_agent_hash_pattern :: "pystr \<Rightarrow> bool" where
  "user_agent_hash_pattern = matches_whole (\<lambda>c. is_digit c \<or> (97 \<le> c \<and> c \<le> 102)) 64 64"

fun check_each_name :: "unicode \<Rightarrow> pystr list \<Rightarrow> audit_refusal + unit" where
  "check_each_name un [] = Inr ()"
| "check_each_name un (name # names) =
     and_then (checked un ''field_name'' (Some name) field_name_pattern) (\<lambda>_. check_each_name un names)"

definition checked_field_names :: "unicode \<Rightarrow> pystr list option \<Rightarrow> audit_refusal + pystr list option" where
  "checked_field_names un names =
     (case names of None \<Rightarrow> Inr None | Some ns \<Rightarrow> and_then (check_each_name un ns) (\<lambda>_. Inr (Some ns)))"

definition checked_digest :: "pystr option \<Rightarrow> audit_refusal + pystr option" where
  "checked_digest value =
     (case value of None \<Rightarrow> Inr None
      | Some v \<Rightarrow> if user_agent_hash_pattern v then Inr (Some v) else Inl Bad_Digest)"

definition checked_ip :: "(pystr \<Rightarrow> bool) \<Rightarrow> pystr option \<Rightarrow> audit_refusal + pystr option" where
  "checked_ip is_ip value =
     (case value of None \<Rightarrow> Inr None | Some v \<Rightarrow> if is_ip v then Inr (Some v) else Inl Bad_Ip)"

definition checked_subject_type :: "pystr \<Rightarrow> audit_refusal + pystr" where
  "checked_subject_type t = (if t \<in> set subject_types then Inr t else Inl (Bad_Subject_Type t))"

section \<open>The chain\<close>

definition opt_text :: "pystr option \<Rightarrow> json" where
  "opt_text v = (case v of None \<Rightarrow> JNull | Some s \<Rightarrow> JString s)"

definition opt_int :: "int option \<Rightarrow> json" where
  "opt_int v = (case v of None \<Rightarrow> JNull | Some i \<Rightarrow> JInt i)"

definition canonical_content :: "admin_audit_row \<Rightarrow> pystr" where
  "canonical_content row = json_text (JObject
     [(ustr ''id'', JString (aa_id row)), (ustr ''at'', JString (isoformat (aa_at row))),
      (ustr ''actor_id'', opt_text (aa_actor_id row)), (ustr ''actor_username'', JString (aa_actor_username row)),
      (ustr ''actor_role'', JString (admin_role_value (aa_actor_role row))),
      (ustr ''action'', JString (audit_action_value (aa_action row))),
      (ustr ''subject_type'', JString (aa_subject_type row)), (ustr ''subject_id'', opt_text (aa_subject_id row)),
      (ustr ''field_names'', (case aa_field_names row of None \<Rightarrow> JNull | Some ns \<Rightarrow> JList (map JString ns))),
      (ustr ''record_count'', opt_int (aa_record_count row)),
      (ustr ''reason_code'', JString (audit_reason_value (aa_reason_code row))),
      (ustr ''reason_ref'', opt_text (aa_reason_ref row)),
      (ustr ''outcome'', JString (audit_outcome_value (aa_outcome row))),
      (ustr ''error_code'', opt_text (aa_error_code row)), (ustr ''correlation_id'', opt_text (aa_correlation_id row)),
      (ustr ''ip'', opt_text (aa_ip row)), (ustr ''user_agent_hash'', opt_text (aa_user_agent_hash row)),
      (ustr ''config_version'', opt_int (aa_config_version row)),
      (ustr ''expires_at'', JString (isoformat (aa_expires_at row)))])"

definition chain_message :: "pystr option \<Rightarrow> pystr \<Rightarrow> pystr" where
  "chain_message prev content = chain_version @ 10 # (case prev of None \<Rightarrow> [] | Some h \<Rightarrow> h) @ 10 # content"

definition compute_chain_hmac ::
    "(pystr \<Rightarrow> pystr \<Rightarrow> pystr) \<Rightarrow> pystr \<Rightarrow> pystr option \<Rightarrow> pystr \<Rightarrow> audit_refusal + pystr" where
  "compute_chain_hmac mac key prev content =
     (if key = [] then Inl Empty_Key else Inr (mac key (chain_message prev content)))"

definition read_head :: "audit_log \<Rightarrow> admin_audit_row option" where
  "read_head s = first_desc aa_seq (al_rows s)"

definition days :: "int \<Rightarrow> int" where "days n = n * 86400000000"

definition build_row ::
    "unicode \<Rightarrow> (pystr \<Rightarrow> bool) \<Rightarrow> audit_entry \<Rightarrow> uuid \<Rightarrow> instant \<Rightarrow> audit_refusal + admin_audit_row" where
  "build_row un is_ip entry fresh now =
     and_then (clean_text un ''reason_text'' (ae_reason_text entry) reason_text_length) (\<lambda>reason_text.
     and_then (reject_secrets un ''actor_username'' (Some (ae_actor_username entry))) (\<lambda>_.
     and_then (checked_subject_type (ae_subject_type entry)) (\<lambda>subject_type.
     and_then (checked un ''subject_id'' (ae_subject_id entry) subject_id_pattern) (\<lambda>subject_id.
     and_then (checked_field_names un (ae_field_names entry)) (\<lambda>field_names.
     and_then (checked un ''reason_ref'' (ae_reason_ref entry) reason_ref_pattern) (\<lambda>reason_ref.
     and_then (clean_text un ''error_code'' (ae_error_code entry) 48) (\<lambda>error_code.
     and_then (checked un ''correlation_id'' (ae_correlation_id entry) correlation_pattern) (\<lambda>correlation_id.
     and_then (checked_ip is_ip (ae_ip entry)) (\<lambda>ip.
     and_then (checked_digest (ae_user_agent_hash entry)) (\<lambda>user_agent_hash.
       Inr \<lparr>aa_seq = 0, aa_id = fresh, aa_at = now, aa_actor_id = ae_actor_id entry,
         aa_actor_username = ae_actor_username entry, aa_actor_role = ae_actor_role entry,
         aa_action = ae_action entry, aa_subject_type = subject_type, aa_subject_id = subject_id,
         aa_field_names = field_names, aa_record_count = ae_record_count entry,
         aa_reason_code = ae_reason_code entry, aa_reason_ref = reason_ref, aa_reason_text = reason_text,
         aa_reason_expires_at = (if reason_text = None then None else Some (now + days audit_reason_retention_days)),
         aa_reason_purged_at = None, aa_outcome = ae_outcome entry, aa_error_code = error_code,
         aa_correlation_id = correlation_id, aa_ip = ip, aa_user_agent_hash = user_agent_hash,
         aa_config_version = ae_config_version entry, aa_expires_at = now + days audit_retention_days,
         aa_prev_hmac = None, aa_chain_hmac = []\<rparr>))))))))))"

text \<open>The insert draws the number; the actor is a foreign key, the id is unique.\<close>

definition audit_append ::
    "unicode \<Rightarrow> (pystr \<Rightarrow> bool) \<Rightarrow> (pystr \<Rightarrow> pystr \<Rightarrow> pystr) \<Rightarrow> admin_user_row list \<Rightarrow> audit_entry \<Rightarrow> pystr \<Rightarrow> uuid
      \<Rightarrow> instant \<Rightarrow> audit_log \<Rightarrow> audit_refusal + admin_audit_row \<times> audit_log" where
  "audit_append un is_ip mac admins entry key fresh now s =
     and_then (build_row un is_ip entry fresh now) (\<lambda>row.
       let prev = map_option aa_chain_hmac (read_head s); row = row\<lparr>aa_prev_hmac := prev\<rparr>
       in and_then (compute_chain_hmac mac key prev (canonical_content row)) (\<lambda>h.
            let row = row\<lparr>aa_chain_hmac := h, aa_seq := al_next_seq s\<rparr>
            in if (case aa_actor_id row of None \<Rightarrow> False | Some a \<Rightarrow> \<not> list_ex (\<lambda>u. au_id u = a) admins)
                  \<or> list_ex (\<lambda>r. aa_id r = fresh \<or> aa_seq r = aa_seq row) (al_rows s)
               then Inl Integrity
               else Inr (row, s\<lparr>al_rows := al_rows s @ [row], al_next_seq := al_next_seq s + 1\<rparr>)))"

section \<open>Reading\<close>

record audit_query =
  aq_actor_id :: "uuid option"
  aq_actor_username :: "pystr option"
  aq_actions :: "audit_action list"
  aq_subject_type :: "pystr option"
  aq_subject_id :: "pystr option"
  aq_outcomes :: "audit_outcome list"
  aq_since :: "instant option"
  aq_until :: "instant option"

definition wanted :: "'a option \<Rightarrow> ('a \<Rightarrow> bool) \<Rightarrow> bool" where
  "wanted v p = (case v of None \<Rightarrow> True | Some x \<Rightarrow> p x)"

definition audit_filtered :: "audit_query \<Rightarrow> admin_audit_row \<Rightarrow> bool" where
  "audit_filtered q r \<longleftrightarrow>
     wanted (aq_actor_id q) (\<lambda>x. aa_actor_id r = Some x)
     \<and> wanted (aq_actor_username q) (\<lambda>x. x = [] \<or> aa_actor_username r = x)
     \<and> (aq_actions q = [] \<or> aa_action r \<in> set (aq_actions q))
     \<and> wanted (aq_subject_type q) (\<lambda>x. x = [] \<or> aa_subject_type r = x)
     \<and> wanted (aq_subject_id q) (\<lambda>x. x = [] \<or> aa_subject_id r = Some x)
     \<and> (aq_outcomes q = [] \<or> aa_outcome r \<in> set (aq_outcomes q))
     \<and> wanted (aq_since q) (\<lambda>t. t \<le> aa_at r) \<and> wanted (aq_until q) (\<lambda>t. aa_at r \<le> t)"

definition list_entries :: "audit_log \<Rightarrow> audit_query \<Rightarrow> int \<Rightarrow> int option \<Rightarrow> admin_audit_row list" where
  "list_entries s q limit before_seq =
     (let page_size = max 1 (min limit max_page_size)
      in take (nat page_size) (rev (sort_key aa_seq
           (filter (\<lambda>r. audit_filtered q r \<and> wanted before_seq (\<lambda>b. aa_seq r < b)) (al_rows s)))))"

section \<open>Verification\<close>

definition truncation_anchors :: "audit_log \<Rightarrow> audit_anchor_row list" where
  "truncation_anchors s = filter (\<lambda>a. an_kind a = Anchor_TRUNCATION) (al_anchors s)"

definition is_gap_excused :: "admin_audit_row \<Rightarrow> audit_anchor_row list \<Rightarrow> bool" where
  "is_gap_excused row truncations =
     list_ex (\<lambda>a. an_seq a = aa_seq row \<and> an_chain_hmac a = aa_chain_hmac row) truncations"

text \<open>The loop over one batch: the first break in it, and the value of the last row it accepted.\<close>

fun walk_rows ::
    "(pystr \<Rightarrow> pystr \<Rightarrow> pystr) \<Rightarrow> pystr \<Rightarrow> audit_anchor_row list \<Rightarrow> int \<Rightarrow> pystr option \<Rightarrow> admin_audit_row list
      \<Rightarrow> audit_refusal + int option \<times> pystr option" where
  "walk_rows mac key truncations after_seq prev [] = Inr (None, prev)"
| "walk_rows mac key truncations after_seq prev (row # rest) =
     (let is_first = prev = None \<and> after_seq = 0
      in if is_first \<and> aa_prev_hmac row \<noteq> None \<and> \<not> is_gap_excused row truncations then Inr (Some (aa_seq row), prev)
         else
           (let expected = (if is_first then aa_prev_hmac row else prev)
            in and_then (compute_chain_hmac mac key expected (canonical_content row)) (\<lambda>recomputed.
                 if aa_prev_hmac row \<noteq> expected \<or> recomputed \<noteq> aa_chain_hmac row then Inr (Some (aa_seq row), prev)
                 else walk_rows mac key truncations after_seq (Some (aa_chain_hmac row)) rest)))"

definition batch_rows :: "audit_log \<Rightarrow> int \<Rightarrow> nat \<Rightarrow> admin_audit_row list" where
  "batch_rows s after_seq limit = take limit (sort_key aa_seq (filter (\<lambda>r. aa_seq r > after_seq) (al_rows s)))"

definition verify_batch ::
    "(pystr \<Rightarrow> pystr \<Rightarrow> pystr) \<Rightarrow> pystr \<Rightarrow> audit_log \<Rightarrow> int \<Rightarrow> nat \<Rightarrow> pystr option \<Rightarrow> audit_anchor_row list
      \<Rightarrow> audit_refusal + admin_audit_row list \<times> int option \<times> pystr option" where
  "verify_batch mac key s after_seq limit prev truncations =
     and_then (walk_rows mac key truncations after_seq prev (batch_rows s after_seq limit))
       (\<lambda>(brk, prev). Inr (batch_rows s after_seq limit, brk, prev))"

definition read_head_anchor :: "audit_log \<Rightarrow> audit_anchor_row option" where
  "read_head_anchor s = first_desc an_seq (filter (\<lambda>a. an_kind a = Anchor_HEAD) (al_anchors s))"

definition tail_break :: "audit_log \<Rightarrow> int \<Rightarrow> int option" where
  "tail_break s last_seq =
     (case read_head_anchor s of None \<Rightarrow> None
      | Some anchor \<Rightarrow> if last_seq < an_seq anchor then Some (an_seq anchor) else None)"

text \<open>The batches: the first break, the rows checked, the number of the last one read.\<close>

function verify_loop ::
    "(pystr \<Rightarrow> pystr \<Rightarrow> pystr) \<Rightarrow> pystr \<Rightarrow> audit_log \<Rightarrow> nat \<Rightarrow> nat \<Rightarrow> int \<Rightarrow> pystr option
      \<Rightarrow> audit_refusal + int option \<times> nat \<times> int" where
  "verify_loop mac key s max_rows n last_seq prev =
     (if n < max_rows then
        (case verify_batch mac key s last_seq (min verify_batch_size (max_rows - n)) prev (truncation_anchors s) of
           Inl e \<Rightarrow> Inl e
         | Inr (rows, Some brk, prev) \<Rightarrow> Inr (Some brk, n + length rows, aa_seq (last rows))
         | Inr (rows, None, prev) \<Rightarrow>
             if rows = [] then Inr (None, n, last_seq)
             else if length rows < verify_batch_size then Inr (None, n + length rows, aa_seq (last rows))
             else verify_loop mac key s max_rows (n + length rows) (aa_seq (last rows)) prev)
      else Inr (None, n, last_seq))"
  by pat_completeness auto
termination by (relation "measure (\<lambda>(mac, key, s, max_rows, n, last_seq, prev). max_rows - n)") (auto simp: neq_Nil_conv)

declare verify_loop.simps [simp del]

definition resolve_chain_protection :: "bool \<Rightarrow> bool \<Rightarrow> bool option \<Rightarrow> chain_protection" where
  "resolve_chain_protection is_dsn_configured is_postgres is_writable =
     (if \<not> is_dsn_configured \<or> \<not> is_postgres then HMAC_ONLY
      else (case is_writable of None \<Rightarrow> HMAC_ONLY | Some w \<Rightarrow> if w then HMAC_ONLY else REVOKE_HMAC))"

definition verify_chain ::
    "(pystr \<Rightarrow> pystr \<Rightarrow> pystr) \<Rightarrow> audit_log \<Rightarrow> pystr \<Rightarrow> chain_protection \<Rightarrow> nat \<Rightarrow> audit_refusal + chain_verification" where
  "verify_chain mac s key protection max_rows =
     (let anchors = sort (List.map_filter an_truncated_below_seq (truncation_anchors s))
      in and_then (verify_loop mac key s max_rows 0 0 None) (\<lambda>(brk, n, last_seq).
           case brk of
             Some b \<Rightarrow> Inr \<lparr>cv_is_ok = False, cv_first_break_seq = Some b, cv_checked_rows = n, cv_last_seq = Some last_seq,
               cv_is_complete = True, cv_protection = protection, cv_anchors = anchors\<rparr>
           | None \<Rightarrow>
              (let at_ceiling = n \<ge> max_rows; tail = (if at_ceiling then None else tail_break s last_seq)
               in Inr \<lparr>cv_is_ok = tail = None, cv_first_break_seq = tail, cv_checked_rows = n,
                    cv_last_seq = (if last_seq = 0 then None else Some last_seq), cv_is_complete = \<not> at_ceiling,
                    cv_protection = protection, cv_anchors = anchors\<rparr>)))"

section \<open>Anchors and sweeps\<close>

definition write_anchor ::
    "audit_anchor_kind \<Rightarrow> int \<Rightarrow> pystr \<Rightarrow> instant \<Rightarrow> int option \<Rightarrow> int option \<Rightarrow> audit_log \<Rightarrow> audit_log" where
  "write_anchor kind seq h now below deleted s =
     s\<lparr>al_anchors := al_anchors s @ [\<lparr>an_at = now, an_kind = kind, an_seq = seq, an_chain_hmac = h,
        an_truncated_below_seq = below, an_rows_deleted = deleted\<rparr>]\<rparr>"

definition write_head_anchor :: "instant \<Rightarrow> audit_log \<Rightarrow> audit_log" where
  "write_head_anchor now s =
     (case read_head s of None \<Rightarrow> s
      | Some head \<Rightarrow> write_anchor Anchor_HEAD (aa_seq head) (aa_chain_hmac head) now None None s)"

definition first_row :: "audit_log \<Rightarrow> admin_audit_row option" where
  "first_row s = (case sort_key aa_seq (al_rows s) of [] \<Rightarrow> None | r # _ \<Rightarrow> Some r)"

definition write_truncation_anchor :: "int \<Rightarrow> int \<Rightarrow> instant \<Rightarrow> audit_log \<Rightarrow> audit_log" where
  "write_truncation_anchor below_seq rows_deleted now s =
     (case first_row s of None \<Rightarrow> s
      | Some surviving \<Rightarrow> write_anchor Anchor_TRUNCATION (aa_seq surviving) (aa_chain_hmac surviving) now
          (Some below_seq) (Some rows_deleted) s)"

definition read_truncation_points :: "audit_log \<Rightarrow> int list" where
  "read_truncation_points s =
     filter (\<lambda>n. n \<noteq> 0) (sort (List.map_filter an_truncated_below_seq (truncation_anchors s)))"

definition audit_reasons_due :: "instant \<Rightarrow> admin_audit_row \<Rightarrow> bool" where
  "audit_reasons_due now r \<longleftrightarrow>
     (case aa_reason_expires_at r of None \<Rightarrow> False | Some t \<Rightarrow> t \<le> now) \<and> aa_reason_purged_at r = None
     \<and> aa_reason_text r \<noteq> None"

definition audit_rows_due :: "instant \<Rightarrow> admin_audit_row \<Rightarrow> bool" where
  "audit_rows_due now r = (aa_expires_at r \<le> now)"

definition purge_audit_reasons :: "instant \<Rightarrow> nat \<Rightarrow> audit_log \<Rightarrow> nat \<times> audit_log" where
  "purge_audit_reasons now limit s =
     (let due = map aa_seq (limit_asc aa_seq limit (filter (audit_reasons_due now) (al_rows s)))
      in (length due, s\<lparr>al_rows := sql_update (\<lambda>r. aa_seq r \<in> set due)
           (\<lambda>r. r\<lparr>aa_reason_text := None, aa_reason_purged_at := Some now\<rparr>) (al_rows s)\<rparr>))"

definition delete_expired_rows :: "instant \<Rightarrow> nat \<Rightarrow> audit_log \<Rightarrow> nat \<times> audit_log" where
  "delete_expired_rows now limit s =
     (let due = map aa_seq (limit_asc aa_seq limit (filter (audit_rows_due now) (al_rows s)))
      in (length due, s\<lparr>al_rows := filter (\<lambda>r. aa_seq r \<notin> set due) (al_rows s)\<rparr>))"

definition purge_audit_log :: "instant \<Rightarrow> nat \<Rightarrow> audit_log \<Rightarrow> nat \<times> audit_log" where
  "purge_audit_log now limit s =
     (case delete_expired_rows now limit s of
        (deleted, s) \<Rightarrow>
          if deleted = 0 then (0, s)
          else (case first_row s of
             None \<Rightarrow> (deleted, s)
           | Some r \<Rightarrow> (deleted, write_truncation_anchor (aa_seq r) (int deleted) now s)))"

definition pin_audit_head :: "instant \<Rightarrow> audit_log \<Rightarrow> audit_log" where
  "pin_audit_head now s =
     write_head_anchor now (s\<lparr>al_anchors := filter (\<lambda>a. an_kind a \<noteq> Anchor_HEAD) (al_anchors s)\<rparr>)"

text \<open>The audit part of one retention run, which is one transaction.\<close>

definition audit_sweep :: "instant \<Rightarrow> nat \<Rightarrow> audit_log \<Rightarrow> nat \<times> nat \<times> audit_log" where
  "audit_sweep now limit s =
     (case purge_audit_reasons now limit s of (reasons, s) \<Rightarrow>
      (case purge_audit_log now limit s of (rows, s) \<Rightarrow> (reasons, rows, pin_audit_head now s)))"

end
