(* ===== verification/Audit_Claims.thy ===== *)
theory Audit_Claims
  imports Audit_Log
begin

text \<open>
  The properties of the audit log: the canonical text of a row determines what it covers, verification in
  batches decides exactly the abstract chain, a log that only its writer and its sweeps touched verifies,
  and a table that verifies shows a contiguous part of what was written.
\<close>

section \<open>The canonical text\<close>

text \<open>The values of a canonical object: absent, a number, a text or a list of texts.\<close>

fun flat :: "json \<Rightarrow> bool" where
  "flat JNull = True"
| "flat (JInt i) = True"
| "flat (JString s) = True"
| "flat (JList vs) = list_all (\<lambda>v. \<exists>s. v = JString s) vs"
| "flat _ = False"

definition delimits :: "pystr \<Rightarrow> bool" where
  "delimits xs = (case xs of [] \<Rightarrow> True | c # _ \<Rightarrow> c = 44 \<or> c = 125 \<or> c = 93)"

lemma str_int_chars: "c \<in> set (str_int i) \<Longrightarrow> c = 45 \<or> (48 \<le> c \<and> c \<le> 57)"
  using str_nat_digits by (auto simp: str_int_def split: if_splits)

lemma str_int_not_Nil: "str_int i \<noteq> []"
  by (simp add: str_int_def)

lemma digits_then_delimiter:
  assumes "\<forall>c \<in> set a. c = 45 \<or> (48 \<le> c \<and> c \<le> 57)" "\<forall>c \<in> set b. c = 45 \<or> (48 \<le> c \<and> c \<le> (57 :: nat))"
    and "delimits xs" "delimits ys" "a @ xs = b @ ys"
  shows "a = b \<and> xs = ys"
proof -
  let ?p = "\<lambda>c :: nat. c = 45 \<or> (48 \<le> c \<and> c \<le> 57)"
  have t: "takeWhile ?p (zs @ ws) = zs" if "\<forall>c \<in> set zs. ?p c" "delimits ws" for zs ws
  proof -
    have "takeWhile ?p ws = []" using that(2) by (cases ws) (auto simp: delimits_def)
    then show ?thesis using that(1) by (simp add: takeWhile_append2)
  qed
  from t [OF assms(1,3)] t [OF assms(2,4)] assms(5) show ?thesis by simp
qed

lemma str_int_delimited:
  "delimits xs \<Longrightarrow> delimits ys \<Longrightarrow> str_int i @ xs = str_int j @ ys \<longleftrightarrow> i = j \<and> xs = ys"
  using digits_then_delimiter [of "str_int i" "str_int j" xs ys] str_int_chars by auto

definition texts_list :: "pystr list \<Rightarrow> pystr" where
  "texts_list ss = joined 44 (map json_quote ss) @ [93]"

lemma joined_Cons: "joined sep (s # ss) = s @ (if ss = [] then [] else sep # joined sep ss)"
  by (cases ss) simp_all

lemma texts_list_eq_iff: "texts_list ss @ xs = texts_list ts @ ys \<longleftrightarrow> ss = ts \<and> xs = ys"
proof (induction ss arbitrary: ts)
  case Nil
  then show ?case by (cases ts) (auto simp: texts_list_def joined_Cons json_quote_def)
next
  case (Cons s ss)
  show ?case
  proof (cases ts)
    case Nil
    then show ?thesis by (auto simp: texts_list_def joined_Cons json_quote_def)
  next
    case (Cons t ts')
    show ?thesis using Cons.IH [of ts'] Cons.IH [of "[]"]
      by (cases ss; cases ts') (auto simp: Cons texts_list_def joined_Cons)
  qed
qed

lemma json_texts_map: "json_texts vs = map json_text vs"
  by (induction vs) simp_all

lemma json_members_map: "json_members ms = map (\<lambda>(k, v). (k, json_text v)) ms"
  by (induction ms) auto

lemma flat_list_text: "list_all (\<lambda>v. \<exists>s. v = JString s) vs \<Longrightarrow> \<exists>ss. vs = map JString ss"
  by (induction vs) (auto, metis list.simps(9))

lemma json_text_list: "json_text (JList (map JString ss)) @ xs = 91 # texts_list ss @ xs"
  by (simp add: json_texts_map texts_list_def o_def)

lemma flat_cases:
  assumes "flat v"
  obtains (null) "v = JNull" | (int) i where "v = JInt i" | (str) s where "v = JString s"
  | (strs) ss where "v = JList (map JString ss)"
  using assms flat_list_text by (cases v) (auto simp del: flat.simps simp: flat.simps)

lemma str_int_head: "str_int i @ xs = c # ys \<Longrightarrow> c = 45 \<or> (48 \<le> c \<and> c \<le> 57)"
  using str_int_not_Nil [of i] str_int_chars [of c i] by (cases "str_int i") auto

lemma flat_text_eq_iff:
  assumes "flat v" "flat w" "delimits xs" "delimits ys"
  shows "json_text v @ xs = json_text w @ ys \<longleftrightarrow> v = w \<and> xs = ys"
proof -
  define kind where "kind u = (case u of JNull \<Rightarrow> 0 | JInt _ \<Rightarrow> 1 | JString _ \<Rightarrow> 2 | _ \<Rightarrow> (3 :: nat))" for u
  have head: "\<exists>c cs. json_text u @ zs = c # cs
      \<and> kind u = (if c = 110 then 0 else if c = 34 then 2 else if c = 91 then 3 else 1)" if "flat u" for u zs
    using that
  proof (cases rule: flat_cases)
    case (int i)
    obtain c cs where "str_int i @ zs = c # cs" using str_int_not_Nil [of i] by (cases "str_int i") auto
    moreover from str_int_head [OF this] have "c \<noteq> 110 \<and> c \<noteq> 34 \<and> c \<noteq> 91" by auto
    ultimately show ?thesis using int by (simp add: kind_def)
  qed (auto simp: kind_def json_quote_def)
  show ?thesis
  proof (cases "kind v = kind w")
    case False
    have "json_text v @ xs \<noteq> json_text w @ ys"
      using head [OF assms(1), of xs] head [OF assms(2), of ys] False by auto
    moreover have "v \<noteq> w" using False by auto
    ultimately show ?thesis by simp
  next
    case True
    show ?thesis using assms(1)
    proof (cases rule: flat_cases)
      case null
      from assms(2) show ?thesis by (cases rule: flat_cases) (use null True in \<open>auto simp: kind_def\<close>)
    next
      case (int i)
      from assms(2) show ?thesis
        by (cases rule: flat_cases) (use int True str_int_delimited [OF assms(3,4)] in \<open>auto simp: kind_def\<close>)
    next
      case (str s)
      from assms(2) show ?thesis by (cases rule: flat_cases) (use str True in \<open>auto simp: kind_def\<close>)
    next
      case (strs ss)
      from assms(2) obtain ts where "w = JList (map JString ts)"
        by (cases rule: flat_cases) (use strs True in \<open>auto simp: kind_def\<close>)
      moreover have "map JString ss = map JString ts \<longleftrightarrow> ss = ts" by (simp add: inj_on_def inj_map_eq_map inj_def)
      ultimately show ?thesis using strs json_text_list [of ss xs] json_text_list [of ts ys]
        by (simp add: texts_list_eq_iff)
    qed
  qed
qed

lemma sort_key_map: "sort_key f (map g xs) = map g (sort_key (\<lambda>x. f (g x)) xs)"
proof (induction xs)
  case (Cons x xs)
  have "insort_key f (g y) (map g ys) = map g (insort_key (\<lambda>x. f (g x)) y ys)" for y ys
    by (induction ys) simp_all
  with Cons show ?case by simp
qed simp

definition members_text :: "(pystr \<Rightarrow> json) \<Rightarrow> pystr list \<Rightarrow> pystr" where
  "members_text g ks = joined 44 (map (\<lambda>k. json_quote k @ 58 # json_text (g k)) ks) @ [125]"

lemma object_text: "json_text (JObject (map (\<lambda>k. (k, g k)) ks)) = 123 # members_text g (sort ks)"
proof -
  have "json_members (map (\<lambda>k. (k, g k)) ks) = map (\<lambda>k. (k, json_text (g k))) ks"
    by (simp add: json_members_map)
  then show ?thesis by (simp add: sort_key_map members_text_def o_def)
qed

lemma members_text_eq:
  "\<forall>k \<in> set ks. flat (g k) \<and> flat (h k) \<Longrightarrow> members_text g ks = members_text h ks \<Longrightarrow> \<forall>k \<in> set ks. g k = h k"
proof (induction ks)
  case (Cons k ks)
  let ?rest = "\<lambda>g. if ks = [] then [125] else 44 # members_text g ks"
  have u: "members_text g (k # ks) = json_quote k @ 58 # json_text (g k) @ ?rest g" for g
    by (simp add: members_text_def joined_Cons)
  have d: "delimits (?rest g)" for g by (simp add: delimits_def)
  from Cons.prems have "g k = h k \<and> ?rest g = ?rest h"
    unfolding u using flat_text_eq_iff [OF _ _ d d, of "g k" "h k"] by simp
  then have gk: "g k = h k" and rest: "?rest g = ?rest h" by blast+
  have "\<forall>k \<in> set ks. g k = h k"
  proof (cases "ks = []")
    case False
    then have "members_text g ks = members_text h ks" using rest by simp
    with Cons show ?thesis by simp
  qed simp
  with gk show ?case by simp
qed simp

lemma object_members_eq:
  assumes "distinct (map fst ms)" "map fst ms' = map fst ms"
    and "\<forall>m \<in> set ms. flat (snd m)" "\<forall>m \<in> set ms'. flat (snd m)"
    and "json_text (JObject ms) = json_text (JObject ms')"
  shows "ms = ms'"
proof -
  define member where "member xs k = the (map_of xs k)" for xs :: "(pystr \<times> json) list" and k
  have form: "xs = map (\<lambda>k. (k, member xs k)) (map fst xs)" if "distinct (map fst xs)" for xs :: "(pystr \<times> json) list"
  proof -
    have "map (\<lambda>k. (k, member xs k)) (map fst xs) = map (\<lambda>m. m) xs"
      unfolding map_map by (rule map_cong [OF refl]) (auto simp: member_def map_of_is_SomeI [OF that])
    then show ?thesis by simp
  qed
  let ?ks = "map fst ms"
  have ms: "ms = map (\<lambda>k. (k, member ms k)) ?ks" by (rule form [OF assms(1)])
  have ms': "ms' = map (\<lambda>k. (k, member ms' k)) ?ks" using form [of ms'] assms(1,2) by simp
  have v: "flat (member xs k)" if "distinct (map fst xs)" "\<forall>m \<in> set xs. flat (snd m)" "k \<in> fst ` set xs" for xs k
    using that by (auto simp: member_def)
  have flats: "\<forall>k \<in> set ?ks. flat (member ms k) \<and> flat (member ms' k)"
  proof
    fix k assume k: "k \<in> set ?ks"
    then have "k \<in> fst ` set ms" by simp
    moreover have "k \<in> fst ` set ms'" using k assms(2) by (metis list.set_map)
    ultimately show "flat (member ms k) \<and> flat (member ms' k)"
      using v [of ms k] v [of ms' k] assms(1-4) by simp
  qed
  have "members_text (member ms) (sort ?ks) = members_text (member ms') (sort ?ks)"
    using assms(5) object_text [of "member ms" ?ks] object_text [of "member ms'" ?ks] ms ms' by simp
  then have "\<forall>k \<in> set ?ks. member ms k = member ms' k"
    using members_text_eq [of "sort ?ks" "member ms" "member ms'"] flats by simp
  then have "map (\<lambda>k. (k, member ms k)) ?ks = map (\<lambda>k. (k, member ms' k)) ?ks" by simp
  with ms ms' show ?thesis by simp
qed

text \<open>A row without the columns the chain leaves out: its number, the reason a sweep erases, and the two links.\<close>

definition covered :: "admin_audit_row \<Rightarrow> admin_audit_row" where
  "covered r = r\<lparr>aa_seq := 0, aa_reason_text := None, aa_reason_expires_at := None, aa_reason_purged_at := None,
     aa_prev_hmac := None, aa_chain_hmac := []\<rparr>"

definition audit_instants_ok :: "admin_audit_row \<Rightarrow> bool" where
  "audit_instants_ok r \<longleftrightarrow> representable (aa_at r) \<and> representable (aa_expires_at r)"

definition all_actions :: "audit_action list" where
  "all_actions = [Act_LOGIN_SUCCESS, Act_LOGIN_FAILURE, Act_LOGIN_RATE_LIMITED, Act_LOGOUT, Act_STEP_UP_SUCCESS, Act_STEP_UP_FAILURE, Act_SESSION_REVOKED, Act_REVEAL_PERSONAL, Act_ASSET_STREAM, Act_AUDIENCE_LIST_READ, Act_ORDER_RETRY, Act_ORDER_REENQUEUE, Act_ORDER_FORCE_DELIVER, Act_ORDER_CANCEL, Act_USER_BLOCK, Act_USER_UNBLOCK, Act_USER_PURGE_REQUESTED, Act_USER_PURGE_COMPLETED, Act_USER_PURGE_FAILED, Act_MODERATION_APPROVE, Act_MODERATION_REJECT, Act_CONFIG_VALIDATE, Act_CONFIG_COMMIT, Act_CONFIG_ROLLBACK, Act_RETENTION_EXTENDED, Act_RETENTION_RUN, Act_EXPORT_AGGREGATE, Act_EXPORT_ORDER, Act_EXPORT_AUDIT, Act_ADMIN_CREATE, Act_ADMIN_UPDATE_ROLE, Act_ADMIN_DEACTIVATE, Act_ADMIN_PASSWORD_CHANGE, Act_PERMISSION_DENIED, Act_CREDIT_GRANT, Act_BROADCAST_CREATE, Act_BROADCAST_REVISE, Act_BROADCAST_SCHEDULE, Act_BROADCAST_PAUSE, Act_BROADCAST_RESUME, Act_BROADCAST_CANCEL, Act_BROADCAST_SENT, Act_BROADCAST_TEST, Act_RAIL_PAUSED, Act_RAIL_RESUMED, Act_PAYMENT_NOTIFY, Act_TICKET_STATUS, Act_TICKET_NOTE, Act_TICKET_REPLY, Act_TICKET_ASSIGN, Act_SUPPORT_GROUP_SELECT, Act_SUPPORT_GROUP_CLEAR]"

lemma all_actions: "a \<in> set all_actions" "distinct (map audit_action_value all_actions)"
proof -
  show "a \<in> set all_actions" by (cases a) (simp_all add: all_actions_def)
  show "distinct (map audit_action_value all_actions)" by (simp add: all_actions_def)
qed

lemma audit_action_value_eq_iff [simp]: "audit_action_value a = audit_action_value b \<longleftrightarrow> a = b"
proof (rule inj_on_eq_iff [OF _ all_actions(1) all_actions(1)])
  show "inj_on audit_action_value (set all_actions)" using all_actions(2) by (simp only: distinct_map)
qed

lemma audit_role_value_eq_iff [simp]: "admin_role_value a = admin_role_value b \<longleftrightarrow> a = b"
  by (cases a; cases b) simp_all

lemma audit_outcome_value_eq_iff [simp]: "audit_outcome_value a = audit_outcome_value b \<longleftrightarrow> a = b"
  by (cases a; cases b) simp_all

lemma audit_reason_value_eq_iff [simp]: "audit_reason_value a = audit_reason_value b \<longleftrightarrow> a = b"
  by (cases a; cases b) simp_all

lemma opt_text_eq_iff [simp]: "opt_text a = opt_text b \<longleftrightarrow> a = b"
  and opt_int_eq_iff [simp]: "opt_int i = opt_int j \<longleftrightarrow> i = j"
  and flat_opt_text [simp]: "flat (opt_text a)" and flat_opt_int [simp]: "flat (opt_int i)"
  by (auto simp: opt_text_def opt_int_def split: option.splits)

definition names_json :: "pystr list option \<Rightarrow> json" where
  "names_json names = (case names of None \<Rightarrow> JNull | Some ns \<Rightarrow> JList (map JString ns))"

lemma names_json_eq_iff [simp]: "names_json a = names_json b \<longleftrightarrow> a = b"
  and flat_names_json [simp]: "flat (names_json a)"
  by (auto simp: names_json_def list_all_iff inj_map_eq_map inj_def split: option.splits)

definition audit_members :: "admin_audit_row \<Rightarrow> (pystr \<times> json) list" where
  "audit_members row =
     [(ustr ''id'', JString (aa_id row)), (ustr ''at'', JString (isoformat (aa_at row))),
      (ustr ''actor_id'', opt_text (aa_actor_id row)), (ustr ''actor_username'', JString (aa_actor_username row)),
      (ustr ''actor_role'', JString (admin_role_value (aa_actor_role row))),
      (ustr ''action'', JString (audit_action_value (aa_action row))),
      (ustr ''subject_type'', JString (aa_subject_type row)), (ustr ''subject_id'', opt_text (aa_subject_id row)),
      (ustr ''field_names'', names_json (aa_field_names row)), (ustr ''record_count'', opt_int (aa_record_count row)),
      (ustr ''reason_code'', JString (audit_reason_value (aa_reason_code row))),
      (ustr ''reason_ref'', opt_text (aa_reason_ref row)),
      (ustr ''outcome'', JString (audit_outcome_value (aa_outcome row))),
      (ustr ''error_code'', opt_text (aa_error_code row)), (ustr ''correlation_id'', opt_text (aa_correlation_id row)),
      (ustr ''ip'', opt_text (aa_ip row)), (ustr ''user_agent_hash'', opt_text (aa_user_agent_hash row)),
      (ustr ''config_version'', opt_int (aa_config_version row)),
      (ustr ''expires_at'', JString (isoformat (aa_expires_at row)))]"

lemma canonical_members: "canonical_content row = json_text (JObject (audit_members row))"
  by (simp only: canonical_content_def audit_members_def names_json_def)

lemma audit_members_keys:
  "map fst (audit_members row) = map ustr [''id'', ''at'', ''actor_id'', ''actor_username'', ''actor_role'', ''action'',
     ''subject_type'', ''subject_id'', ''field_names'', ''record_count'', ''reason_code'', ''reason_ref'', ''outcome'',
     ''error_code'', ''correlation_id'', ''ip'', ''user_agent_hash'', ''config_version'', ''expires_at'']"
  by (simp add: audit_members_def del: ustr_Cons)

lemma distinct_audit_keys: "distinct (map fst (audit_members row))"
  unfolding audit_members_keys by code_simp

lemma flat_audit_members: "\<forall>m \<in> set (audit_members row). flat (snd m)"
  by (simp add: audit_members_def del: ustr_Cons)

lemma canonical_content_eq_iff:
  assumes "audit_instants_ok r" "audit_instants_ok r'"
  shows "canonical_content r = canonical_content r' \<longleftrightarrow> covered r = covered r'"
proof
  assume "canonical_content r = canonical_content r'"
  then have "audit_members r = audit_members r'"
    unfolding canonical_members
    by (rule object_members_eq [OF distinct_audit_keys _ flat_audit_members flat_audit_members, rotated])
      (simp only: audit_members_keys)
  moreover have "isoformat (aa_at r) = isoformat (aa_at r') \<longleftrightarrow> aa_at r = aa_at r'"
    "isoformat (aa_expires_at r) = isoformat (aa_expires_at r') \<longleftrightarrow> aa_expires_at r = aa_expires_at r'"
    using assms by (simp_all add: audit_instants_ok_def isoformat_eq_iff)
  ultimately show "covered r = covered r'"
    by (simp add: audit_members_def covered_def del: ustr_Cons)
next
  assume c: "covered r = covered r'"
  have "audit_members (covered x) = audit_members x" for x by (simp add: audit_members_def covered_def del: ustr_Cons)
  then show "canonical_content r = canonical_content r'" using c unfolding canonical_members by metis
qed

lemma joined_chars: "c \<in> set (joined sep ss) \<Longrightarrow> c = sep \<or> (\<exists>s \<in> set ss. c \<in> set s)"
  by (induction sep ss rule: joined.induct) auto

lemma json_char_no_newline: "10 \<notin> set (json_char c)"
proof -
  have "10 \<noteq> hex_digit n" for n by (simp add: hex_digit_def)
  then show ?thesis by (simp add: json_char_def)
qed

lemma json_quote_no_newline: "10 \<notin> set (json_quote s)"
  using json_char_no_newline by (simp add: json_quote_def)

lemma flat_no_newline:
  assumes "flat v"
  shows "10 \<notin> set (json_text v)"
  using assms
proof (cases rule: flat_cases)
  case (int i)
  then show ?thesis using str_int_chars [of 10 i] by auto
next
  case (strs ss)
  then show ?thesis using json_quote_no_newline joined_chars [of 10 44 "map (json_text \<circ> JString) ss"]
    by (auto simp: json_texts_map)
qed (auto simp: json_quote_no_newline)

lemma canonical_no_newline: "10 \<notin> set (canonical_content r)"
proof
  assume "10 \<in> set (canonical_content r)"
  then obtain k v where m: "(k, v) \<in> set (audit_members r)" "10 \<in> set (json_quote k @ 58 # json_text v)"
    by (fastforce simp: canonical_members json_members_map dest: joined_chars)
  then show False using flat_audit_members [of r] flat_no_newline json_quote_no_newline by fastforce
qed

lemma last_newline:
  assumes "xs @ 10 # c = ys @ 10 # d" "(10 :: nat) \<notin> set c" "10 \<notin> set d"
  shows "xs = ys \<and> c = d"
proof -
  have t: "takeWhile (\<lambda>x. x \<noteq> 10) (rev (zs @ 10 # e)) = rev e" if "10 \<notin> set e" for zs e :: "nat list"
  proof -
    have "takeWhile (\<lambda>x. x \<noteq> 10) (rev e @ 10 # rev zs) = rev e @ takeWhile (\<lambda>x. x \<noteq> 10) (10 # rev zs)"
      by (rule takeWhile_append2) (use that in auto)
    then show ?thesis by simp
  qed
  from t [OF assms(2), of xs] t [OF assms(3), of ys] assms(1) have "rev c = rev d" by metis
  then have "c = d" by simp
  with assms(1) show ?thesis by simp
qed

definition link_text :: "pystr option \<Rightarrow> pystr" where
  "link_text prev = (case prev of None \<Rightarrow> [] | Some h \<Rightarrow> h)"

lemma chain_message_eq_iff:
  "chain_message p (canonical_content r) = chain_message q (canonical_content r')
    \<longleftrightarrow> link_text p = link_text q \<and> canonical_content r = canonical_content r'"
proof
  assume "chain_message p (canonical_content r) = chain_message q (canonical_content r')"
  then have "link_text p @ 10 # canonical_content r = link_text q @ 10 # canonical_content r'"
    by (simp add: chain_message_def link_text_def)
  from last_newline [OF this canonical_no_newline canonical_no_newline]
  show "link_text p = link_text q \<and> canonical_content r = canonical_content r'" .
qed (simp add: chain_message_def link_text_def)

section \<open>The abstract chain\<close>

definition row_message :: "admin_audit_row \<Rightarrow> pystr" where
  "row_message r = chain_message (aa_prev_hmac r) (canonical_content r)"

definition sealed :: "(pystr \<Rightarrow> pystr \<Rightarrow> pystr) \<Rightarrow> pystr \<Rightarrow> admin_audit_row \<Rightarrow> bool" where
  "sealed mac key r \<longleftrightarrow> aa_chain_hmac r = mac key (row_message r)"

fun linked :: "(pystr \<Rightarrow> pystr \<Rightarrow> pystr) \<Rightarrow> pystr \<Rightarrow> pystr \<Rightarrow> admin_audit_row list \<Rightarrow> bool" where
  "linked mac key p [] = True"
| "linked mac key p (r # rs) = (sealed mac key r \<and> aa_prev_hmac r = Some p \<and> linked mac key (aa_chain_hmac r) rs)"

definition chain_holds ::
    "(pystr \<Rightarrow> pystr \<Rightarrow> pystr) \<Rightarrow> pystr \<Rightarrow> audit_anchor_row list \<Rightarrow> admin_audit_row list \<Rightarrow> bool" where
  "chain_holds mac key truncations rows =
     (case rows of [] \<Rightarrow> True
      | r # rs \<Rightarrow> sealed mac key r \<and> (aa_prev_hmac r = None \<or> is_gap_excused r truncations)
          \<and> linked mac key (aa_chain_hmac r) rs)"

lemma walk_linked:
  assumes "key \<noteq> []"
  shows "\<exists>b q. walk_rows mac key tr a (Some p) rows = Inr (b, q) \<and> (b = None \<longleftrightarrow> linked mac key p rows)
    \<and> (b = None \<longrightarrow> q = Some (if rows = [] then p else aa_chain_hmac (last rows)))"
proof (induction rows arbitrary: p)
  case (Cons r rs)
  show ?case using Cons [of "aa_chain_hmac r"] assms
    by (auto simp: Let_def and_then_def compute_chain_hmac_def sealed_def row_message_def)
qed simp

lemma walk_first:
  assumes "key \<noteq> []"
  shows "\<exists>b q. walk_rows mac key tr 0 None rows = Inr (b, q) \<and> (b = None \<longleftrightarrow> chain_holds mac key tr rows)
    \<and> (b = None \<longrightarrow> q = (if rows = [] then None else Some (aa_chain_hmac (last rows))))"
proof (cases rows)
  case (Cons r rs)
  show ?thesis using walk_linked [OF assms, of mac tr 0 "aa_chain_hmac r" rs] assms
    by (auto simp: Cons Let_def and_then_def compute_chain_hmac_def sealed_def row_message_def chain_holds_def)
qed (simp add: chain_holds_def)

section \<open>Batches\<close>

definition from_seq :: "audit_log \<Rightarrow> int \<Rightarrow> admin_audit_row list" where
  "from_seq s a = sort_key aa_seq (filter (\<lambda>r. aa_seq r > a) (al_rows s))"

lemma batch_rows_take: "batch_rows s a k = take k (from_seq s a)"
  by (simp add: batch_rows_def from_seq_def)

lemma from_seq_sorted:
  assumes "distinct (map aa_seq (al_rows s))"
  shows "sorted_wrt (<) (map aa_seq (from_seq s a))" "\<forall>r \<in> set (from_seq s a). a < aa_seq r"
proof -
  have "distinct (map aa_seq (from_seq s a))"
    using assms by (auto simp: from_seq_def distinct_map inj_on_def)
  moreover have "sorted (map aa_seq (from_seq s a))" by (simp add: from_seq_def)
  ultimately show "sorted_wrt (<) (map aa_seq (from_seq s a))" by (simp add: strict_sorted_iff)
  show "\<forall>r \<in> set (from_seq s a). a < aa_seq r" by (simp add: from_seq_def)
qed

lemma from_seq_rest:
  assumes d: "distinct (map aa_seq (al_rows s))" and split: "from_seq s a = xs @ ys" and "xs \<noteq> []"
  shows "from_seq s (aa_seq (last xs)) = ys"
proof -
  let ?b = "aa_seq (last xs)"
  have s: "sorted_wrt (<) (map aa_seq (xs @ ys))" "\<forall>r \<in> set (xs @ ys). a < aa_seq r"
    using from_seq_sorted [OF d, of a] split by simp_all
  obtain zs z where xs: "xs = zs @ [z]" using assms(3) by (cases xs rule: rev_cases) auto
  have "filter (\<lambda>r. aa_seq r > ?b) (xs @ ys) = ys"
    using s(1) by (auto simp: xs sorted_wrt_append filter_empty_conv filter_id_conv dest: less_asym)
  moreover have "filter (\<lambda>r. aa_seq r > ?b) (from_seq s a) = from_seq s ?b"
  proof -
    have "a < ?b" using s(2) xs by simp
    then have "filter (\<lambda>r. aa_seq r > ?b) (filter (\<lambda>r. aa_seq r > a) (al_rows s)) = filter (\<lambda>r. aa_seq r > ?b) (al_rows s)"
      by (auto simp: filter_filter intro!: filter_cong)
    then show ?thesis by (simp add: from_seq_def filter_sort)
  qed
  ultimately show ?thesis using split by simp
qed

lemma linked_append:
  "linked mac key p (xs @ ys) \<longleftrightarrow>
     linked mac key p xs \<and> linked mac key (if xs = [] then p else aa_chain_hmac (last xs)) ys"
  by (induction xs arbitrary: p) auto

definition chain_from ::
    "(pystr \<Rightarrow> pystr \<Rightarrow> pystr) \<Rightarrow> pystr \<Rightarrow> audit_anchor_row list \<Rightarrow> pystr option \<Rightarrow> admin_audit_row list \<Rightarrow> bool" where
  "chain_from mac key tr prev rows =
     (case prev of None \<Rightarrow> chain_holds mac key tr rows | Some p \<Rightarrow> linked mac key p rows)"

lemma chain_from_append:
  "xs \<noteq> [] \<Longrightarrow> chain_from mac key tr prev (xs @ ys) \<longleftrightarrow>
     chain_from mac key tr prev xs \<and> linked mac key (aa_chain_hmac (last xs)) ys"
  by (cases xs) (auto simp: chain_from_def chain_holds_def linked_append split: option.splits)

lemma walk_from:
  assumes "key \<noteq> []" "prev = None \<longrightarrow> a = 0"
  shows "\<exists>b q. walk_rows mac key tr a prev rows = Inr (b, q) \<and> (b = None \<longleftrightarrow> chain_from mac key tr prev rows)
    \<and> (b = None \<and> rows \<noteq> [] \<longrightarrow> q = Some (aa_chain_hmac (last rows)))"
proof (cases prev)
  case None
  then show ?thesis using walk_first [OF assms(1), of mac tr rows] assms(2) by (auto simp: chain_from_def)
next
  case (Some p)
  then show ?thesis using walk_linked [OF assms(1), of mac tr a p rows] by (auto simp: chain_from_def)
qed

lemma if_seq: "z = (if c then x else y) \<Longrightarrow> (if c then aa_seq x else aa_seq y) = aa_seq z"
  by simp

lemma verify_loop_exact:
  assumes key: "key \<noteq> []" and d: "distinct (map aa_seq (al_rows s))"
  shows "prev = None \<longrightarrow> a = 0 \<Longrightarrow> n + length (from_seq s a) < max_rows \<Longrightarrow>
    \<exists>b m l. verify_loop mac key s max_rows n a prev = Inr (b, m, l)
      \<and> (b = None \<longleftrightarrow> chain_from mac key (truncation_anchors s) prev (from_seq s a))
      \<and> (b = None \<longrightarrow> m = n + length (from_seq s a) \<and> l = (if from_seq s a = [] then a else aa_seq (last (from_seq s a))))"
proof (induction "max_rows - n" arbitrary: n a prev rule: less_induct)
  case less
  let ?k = "min verify_batch_size (max_rows - n)" and ?rows = "from_seq s a" and ?tr = "truncation_anchors s"
  let ?xs = "take ?k ?rows" and ?ys = "drop ?k ?rows"
  have n: "n < max_rows" using less.prems(2) by simp
  have k: "0 < ?k" using n by (simp add: verify_batch_size_def)
  obtain b q where w: "walk_rows mac key ?tr a prev ?xs = Inr (b, q)" "b = None \<longleftrightarrow> chain_from mac key ?tr prev ?xs"
      "b = None \<and> ?xs \<noteq> [] \<longrightarrow> q = Some (aa_chain_hmac (last ?xs))"
    using walk_from [OF key less.prems(1), of mac ?tr ?xs] by blast
  have v: "verify_batch mac key s a ?k prev ?tr = Inr (?xs, b, q)"
    by (simp add: verify_batch_def batch_rows_take w(1))
  have step: "verify_loop mac key s max_rows n a prev =
     (case b of Some brk \<Rightarrow> Inr (Some brk, n + length ?xs, aa_seq (last ?xs))
      | None \<Rightarrow> if ?xs = [] then Inr (None, n, a)
                else if length ?xs < verify_batch_size then Inr (None, n + length ?xs, aa_seq (last ?xs))
                else verify_loop mac key s max_rows (n + length ?xs) (aa_seq (last ?xs)) q)"
    by (cases b) (subst verify_loop.simps, simp only: n if_True v sum.case prod.case option.case)+
  have cat: "?xs @ ?ys = ?rows" by simp
  show ?case
  proof (cases b)
    case (Some brk)
    then have "\<not> chain_from mac key ?tr prev ?xs" using w(2) by simp
    then have "\<not> chain_from mac key ?tr prev ?rows"
      using chain_from_append [of ?xs mac key ?tr prev ?ys] unfolding cat
      by (cases "?xs = []") (auto simp: chain_from_def chain_holds_def split: option.splits)
    then show ?thesis using step Some by simp
  next
    case None
    show ?thesis
    proof (cases "?xs = []")
      case True
      then have "?rows = []" using k by auto
      then show ?thesis using step None w(2) by simp
    next
      case ne: False
      show ?thesis
      proof (cases "length ?xs < verify_batch_size")
        case True
        then have "?xs = ?rows" using less.prems(2) by auto
        then show ?thesis using step None w(2) True ne by simp
      next
        case False
        then have len: "length ?xs = verify_batch_size" by simp
        let ?a = "aa_seq (last ?xs)"
        have rest: "from_seq s ?a = ?ys" using from_seq_rest [OF d cat [symmetric] ne] .
        have q: "q = Some (aa_chain_hmac (last ?xs))" using w(3) None ne by simp
        have len2: "length ?rows = length ?xs + length ?ys" using cat by (metis length_append)
        have lt: "(n + length ?xs) + length (from_seq s ?a) < max_rows"
          using less.prems(2) unfolding rest len2 by (simp only: add.assoc)
        have "max_rows - (n + length ?xs) < max_rows - n" using n ne by (cases ?xs) (auto simp del: length_take)
        from less.hyps [OF this _ lt, of q] obtain b' m l where
          ih: "verify_loop mac key s max_rows (n + length ?xs) ?a q = Inr (b', m, l)"
            "b' = None \<longleftrightarrow> chain_from mac key ?tr q ?ys"
            "b' = None \<longrightarrow> m = n + length ?xs + length ?ys \<and> l = (if ?ys = [] then ?a else aa_seq (last ?ys))"
          unfolding rest q by auto
        have e: "verify_loop mac key s max_rows n a prev = Inr (b', m, l)" using step None ne False ih(1) by simp
        have c: "chain_from mac key ?tr prev ?rows \<longleftrightarrow> chain_from mac key ?tr q ?ys"
          using chain_from_append [OF ne, of mac key ?tr prev ?ys] None w(2) unfolding cat q by (simp add: chain_from_def)
        have "last (?xs @ ?ys) = (if ?ys = [] then last ?xs else last ?ys)" by (rule last_append)
        then have lr: "(if ?ys = [] then ?a else aa_seq (last ?ys)) = aa_seq (last ?rows)"
          unfolding cat by (rule if_seq)
        have r: "?rows \<noteq> []" using ne by auto
        have m: "b' = None \<longrightarrow> m = n + length ?rows \<and> l = (if ?rows = [] then a else aa_seq (last ?rows))"
          using ih(3) unfolding lr len2 if_not_P [OF r] add.assoc .
        show ?thesis using e ih(2) [folded c] m by blast
      qed
    qed
  qed
qed

lemma tail_break_None:
  "tail_break s a = None \<longleftrightarrow> (\<forall>h \<in> set (al_anchors s). an_kind h = Anchor_HEAD \<longrightarrow> an_seq h \<le> a)"
proof (cases "read_head_anchor s")
  case None
  then have "filter (\<lambda>a. an_kind a = Anchor_HEAD) (al_anchors s) = []"
    unfolding read_head_anchor_def first_desc_None_iff .
  then show ?thesis using None by (simp add: tail_break_def filter_empty_conv)
next
  case (Some h)
  note h = first_desc_SomeD [OF Some [unfolded read_head_anchor_def]] first_desc_max [OF Some [unfolded read_head_anchor_def]]
  then have "an_seq h \<le> a \<longleftrightarrow> (\<forall>h \<in> set (al_anchors s). an_kind h = Anchor_HEAD \<longrightarrow> an_seq h \<le> a)"
    by (auto intro: order.trans)
  then show ?thesis using Some by (auto simp: tail_break_def)
qed

section \<open>Verification against the abstract chain\<close>

lemma verify_chain_decides:
  assumes "key \<noteq> []" "distinct (map aa_seq (al_rows s))" "length (from_seq s 0) < max_rows"
  shows "\<exists>v. verify_chain mac s key protection max_rows = Inr v \<and> cv_is_complete v
    \<and> (cv_is_ok v \<longleftrightarrow> chain_holds mac key (truncation_anchors s) (from_seq s 0)
         \<and> (\<forall>h \<in> set (al_anchors s). an_kind h = Anchor_HEAD \<longrightarrow>
              an_seq h \<le> (if from_seq s 0 = [] then 0 else aa_seq (last (from_seq s 0)))))"
proof -
  obtain b m l where v: "verify_loop mac key s max_rows 0 0 None = Inr (b, m, l)"
      "b = None \<longleftrightarrow> chain_holds mac key (truncation_anchors s) (from_seq s 0)"
      "b = None \<longrightarrow> m = length (from_seq s 0) \<and> l = (if from_seq s 0 = [] then 0 else aa_seq (last (from_seq s 0)))"
    using verify_loop_exact [OF assms(1,2), of None 0 0 max_rows mac] assms(3) by (auto simp: chain_from_def)
  show ?thesis
  proof (cases b)
    case (Some k)
    then have "verify_chain mac s key protection max_rows = Inr \<lparr>cv_is_ok = False, cv_first_break_seq = Some k,
        cv_checked_rows = m, cv_last_seq = Some l, cv_is_complete = True, cv_protection = protection,
        cv_anchors = sort (List.map_filter an_truncated_below_seq (truncation_anchors s))\<rparr>"
      by (simp add: verify_chain_def v(1) and_then_def Let_def)
    then show ?thesis using v(2) Some by simp
  next
    case None
    then have ml: "m = length (from_seq s 0)" "l = (if from_seq s 0 = [] then 0 else aa_seq (last (from_seq s 0)))"
      using v(3) by blast+
    have "verify_chain mac s key protection max_rows = Inr \<lparr>cv_is_ok = tail_break s l = None,
        cv_first_break_seq = tail_break s l, cv_checked_rows = m, cv_last_seq = (if l = 0 then None else Some l),
        cv_is_complete = True, cv_protection = protection,
        cv_anchors = sort (List.map_filter an_truncated_below_seq (truncation_anchors s))\<rparr>"
      using assms(3) ml(1) by (simp add: verify_chain_def v(1) None and_then_def Let_def)
    then show ?thesis using v(2) None by (simp add: tail_break_None ml(2))
  qed
qed

section \<open>Runs of the log\<close>

text \<open>
  The table under its writer and its sweeps, beside everything that was ever appended: an entry is appended by
  a clock that does not run backwards against the rows in the table, a number is drawn and lost, a retention
  run purges reasons and rows and pins the head.
\<close>

inductive audit_step ::
    "unicode \<Rightarrow> (pystr \<Rightarrow> bool) \<Rightarrow> (pystr \<Rightarrow> pystr \<Rightarrow> pystr) \<Rightarrow> pystr \<Rightarrow> audit_log \<times> admin_audit_row list
      \<Rightarrow> audit_log \<times> admin_audit_row list \<Rightarrow> bool" for un is_ip mac key where
  entry: "audit_append un is_ip mac admins entry key fresh now s = Inr (row, s') \<Longrightarrow> fresh \<notin> aa_id ` set h \<Longrightarrow>
     (\<forall>r \<in> set (al_rows s). aa_at r \<le> now) \<Longrightarrow> representable now \<Longrightarrow> representable (now + days audit_retention_days) \<Longrightarrow>
     audit_step un is_ip mac key (s, h) (s', h @ [row])"
| lost: "audit_step un is_ip mac key (s, h) (s\<lparr>al_next_seq := al_next_seq s + 1\<rparr>, h)"
| sweep: "audit_sweep now limit s = (reasons, deleted, s') \<Longrightarrow> audit_step un is_ip mac key (s, h) (s', h)"

definition empty_log :: audit_log where
  "empty_log = \<lparr>al_rows = [], al_anchors = [], al_next_seq = 1\<rparr>"

inductive audit_reachable ::
    "unicode \<Rightarrow> (pystr \<Rightarrow> bool) \<Rightarrow> (pystr \<Rightarrow> pystr \<Rightarrow> pystr) \<Rightarrow> pystr \<Rightarrow> audit_log \<times> admin_audit_row list \<Rightarrow> bool"
  for un is_ip mac key where
  start: "audit_reachable un is_ip mac key (empty_log, [])"
| step: "audit_reachable un is_ip mac key x \<Longrightarrow> audit_step un is_ip mac key x y \<Longrightarrow> audit_reachable un is_ip mac key y"

definition seal_view :: "admin_audit_row \<Rightarrow> admin_audit_row \<times> pystr option \<times> pystr" where
  "seal_view r = (covered r, aa_prev_hmac r, aa_chain_hmac r)"

definition history_ok :: "(pystr \<Rightarrow> pystr \<Rightarrow> pystr) \<Rightarrow> pystr \<Rightarrow> admin_audit_row list \<Rightarrow> bool" where
  "history_ok mac key h \<longleftrightarrow> distinct (map aa_id h)
     \<and> (\<forall>i < length h. sealed mac key (h ! i) \<and> audit_instants_ok (h ! i)
          \<and> (aa_prev_hmac (h ! i) = None \<or> (0 < i \<and> aa_prev_hmac (h ! i) = Some (aa_chain_hmac (h ! (i - 1))))))"

definition log_ok ::
    "(pystr \<Rightarrow> pystr \<Rightarrow> pystr) \<Rightarrow> pystr \<Rightarrow> audit_log \<times> admin_audit_row list \<Rightarrow> bool" where
  "log_ok mac key x \<longleftrightarrow> (case x of (s, h) \<Rightarrow>
     history_ok mac key h \<and> sorted_wrt (<) (map aa_seq (al_rows s)) \<and> 1 \<le> al_next_seq s
     \<and> (\<forall>r \<in> set (al_rows s). 1 \<le> aa_seq r \<and> aa_seq r < al_next_seq s \<and> aa_expires_at r = aa_at r + days audit_retention_days)
     \<and> sorted (map aa_at (al_rows s)) \<and> chain_holds mac key (truncation_anchors s) (al_rows s)
     \<and> (\<exists>k. map seal_view (al_rows s) = map seal_view (drop k h))
     \<and> (\<forall>a \<in> set (al_anchors s). an_kind a = Anchor_HEAD \<longrightarrow>
          an_seq a \<le> (if al_rows s = [] then 0 else aa_seq (last (al_rows s)))))"

lemma canonical_covered: "canonical_content (covered r) = canonical_content r"
  unfolding canonical_members by (simp add: audit_members_def covered_def del: ustr_Cons)

lemma sealed_view: "seal_view r = seal_view r' \<Longrightarrow> sealed mac key r \<longleftrightarrow> sealed mac key r'"
  using canonical_covered [of r] canonical_covered [of r'] by (simp add: sealed_def row_message_def seal_view_def)

lemma linked_view: "map seal_view rs = map seal_view rs' \<Longrightarrow> linked mac key p rs \<longleftrightarrow> linked mac key p rs'"
proof (induction rs arbitrary: p rs')
  case (Cons r rs)
  then obtain r' rs'' where rs': "rs' = r' # rs''" "seal_view r = seal_view r'" "map seal_view rs = map seal_view rs''"
    by (cases rs') auto
  then show ?case using sealed_view [OF rs'(2)] Cons.IH [OF rs'(3)] by (simp add: seal_view_def)
qed simp

lemma chain_holds_view:
  assumes "map seal_view rs = map seal_view rs'" "map aa_seq rs = map aa_seq rs'"
  shows "chain_holds mac key tr rs \<longleftrightarrow> chain_holds mac key tr rs'"
proof (cases rs)
  case (Cons r qs)
  then obtain r' qs' where rs': "rs' = r' # qs'" using assms by (cases rs') auto
  then have v: "seal_view r = seal_view r'" "map seal_view qs = map seal_view qs'" "aa_seq r = aa_seq r'"
    using assms Cons by simp_all
  then show ?thesis using sealed_view [OF v(1)] linked_view [OF v(2)]
    by (simp add: chain_holds_def Cons rs' seal_view_def is_gap_excused_def)
qed (use assms in \<open>simp add: chain_holds_def\<close>)

lemma chain_holds_more:
  "chain_holds mac key tr rs \<Longrightarrow> set tr \<subseteq> set tr' \<Longrightarrow> chain_holds mac key tr' rs"
  by (auto simp: chain_holds_def is_gap_excused_def list_ex_iff split: list.splits)

lemma chain_holds_snoc:
  assumes "chain_holds mac key tr rs" "sealed mac key r"
    and "aa_prev_hmac r = (if rs = [] then None else Some (aa_chain_hmac (last rs)))"
  shows "chain_holds mac key tr (rs @ [r])"
  using assms by (cases rs) (auto simp: chain_holds_def linked_append)

lemma linked_drop:
  "linked mac key p rs \<Longrightarrow> k < length rs \<Longrightarrow>
    \<exists>q. sealed mac key (hd (drop k rs)) \<and> linked mac key (aa_chain_hmac (hd (drop k rs))) (tl (drop k rs))"
  by (induction rs arbitrary: p k) (auto simp: drop_Cons split: nat.splits)

lemma chain_holds_drop:
  assumes "chain_holds mac key tr rs" "drop k rs \<noteq> []" "is_gap_excused (hd (drop k rs)) tr"
  shows "chain_holds mac key tr (drop k rs)"
proof (cases rs)
  case (Cons r qs)
  show ?thesis
  proof (cases k)
    case (Suc m)
    then have "sealed mac key (hd (drop k rs)) \<and> linked mac key (aa_chain_hmac (hd (drop k rs))) (tl (drop k rs))"
      using linked_drop [of mac key "aa_chain_hmac r" qs m] assms(1,2) by (auto simp: Cons chain_holds_def)
    then show ?thesis using assms(2,3) by (cases "drop k rs") (auto simp: chain_holds_def)
  qed (use assms in simp)
qed (use assms in simp)

section \<open>Honest runs keep the chain\<close>

lemma build_row_fields:
  "build_row un is_ip entry fresh now = Inr row \<Longrightarrow>
    aa_id row = fresh \<and> aa_at row = now \<and> aa_expires_at row = now + days audit_retention_days"
  unfolding build_row_def and_then_Inr by (elim exE conjE) auto

lemma canonical_unlinked:
  "canonical_content (r\<lparr>aa_chain_hmac := h, aa_seq := n\<rparr>) = canonical_content r"
  "canonical_content (r\<lparr>aa_prev_hmac := p\<rparr>) = canonical_content r"
  unfolding canonical_members by (simp_all add: audit_members_def del: ustr_Cons)

lemma append_row:
  assumes "audit_append un is_ip mac admins entry key fresh now s = Inr (row, s')"
  shows "aa_id row = fresh \<and> aa_at row = now \<and> aa_expires_at row = now + days audit_retention_days
    \<and> aa_prev_hmac row = map_option aa_chain_hmac (read_head s) \<and> sealed mac key row \<and> aa_seq row = al_next_seq s
    \<and> s' = s\<lparr>al_rows := al_rows s @ [row], al_next_seq := al_next_seq s + 1\<rparr>"
proof -
  let ?prev = "map_option aa_chain_hmac (read_head s)"
  obtain r h where r: "build_row un is_ip entry fresh now = Inr r"
      and h: "compute_chain_hmac mac key ?prev (canonical_content (r\<lparr>aa_prev_hmac := ?prev\<rparr>)) = Inr h"
      and row: "row = r\<lparr>aa_prev_hmac := ?prev, aa_chain_hmac := h, aa_seq := al_next_seq s\<rparr>"
        "s' = s\<lparr>al_rows := al_rows s @ [row], al_next_seq := al_next_seq s + 1\<rparr>"
    using assms unfolding audit_append_def and_then_Inr Let_def by (auto split: if_splits)
  have "h = mac key (chain_message ?prev (canonical_content r))"
    using h by (simp add: compute_chain_hmac_def canonical_unlinked split: if_splits)
  moreover have "canonical_content row = canonical_content r"
    unfolding canonical_members row(1) by (simp add: audit_members_def del: ustr_Cons)
  ultimately show ?thesis using build_row_fields [OF r] row by (simp add: sealed_def row_message_def)
qed

lemma sorted_rows:
  assumes "sorted_wrt (<) (map aa_seq rows)"
  shows "sort_key aa_seq rows = rows" "distinct (map aa_seq rows)"
    "rows \<noteq> [] \<Longrightarrow> first_desc aa_seq rows = Some (last rows)"
proof -
  show d: "distinct (map aa_seq rows)" and s: "sort_key aa_seq rows = rows"
    using assms by (simp_all add: strict_sorted_iff sort_key_id_if_sorted)
  show "first_desc aa_seq rows = Some (last rows)" if "rows \<noteq> []"
  proof -
    obtain r where r: "first_desc aa_seq rows = Some r" using \<open>rows \<noteq> []\<close> by (cases "first_desc aa_seq rows") auto
    obtain xs x where rows: "rows = xs @ [x]" using \<open>rows \<noteq> []\<close> by (cases rows rule: rev_cases) auto
    have "aa_seq x \<le> aa_seq r" by (rule first_desc_max [OF r]) (simp add: rows)
    moreover have "r \<in> set rows" by (rule first_desc_SomeD [OF r])
    ultimately show ?thesis using assms r by (auto simp: rows sorted_wrt_append)
  qed
qed

lemma from_seq_all:
  assumes "sorted_wrt (<) (map aa_seq (al_rows s))" "\<forall>r \<in> set (al_rows s). 1 \<le> aa_seq r"
  shows "from_seq s 0 = al_rows s"
proof -
  have "filter (\<lambda>r. aa_seq r > 0) (al_rows s) = al_rows s" using assms(2) by (fastforce simp: filter_id_conv)
  then show ?thesis using sorted_rows(1) [OF assms(1)] by (simp add: from_seq_def)
qed

lemma log_ok_append:
  assumes ok: "log_ok mac key (s, h)" and a: "audit_append un is_ip mac admins entry key fresh now s = Inr (row, s')"
    and fresh: "fresh \<notin> aa_id ` set h" and clock: "\<forall>r \<in> set (al_rows s). aa_at r \<le> now"
    and now: "representable now" "representable (now + days audit_retention_days)"
  shows "log_ok mac key (s', h @ [row])"
proof -
  let ?rs = "al_rows s"
  note f = append_row [OF a]
  have ok': "history_ok mac key h" "sorted_wrt (<) (map aa_seq ?rs)" "1 \<le> al_next_seq s"
      "\<forall>r \<in> set ?rs. 1 \<le> aa_seq r \<and> aa_seq r < al_next_seq s \<and> aa_expires_at r = aa_at r + days audit_retention_days"
      "sorted (map aa_at ?rs)" "chain_holds mac key (truncation_anchors s) ?rs"
      "\<forall>a \<in> set (al_anchors s). an_kind a = Anchor_HEAD \<longrightarrow> an_seq a \<le> (if ?rs = [] then 0 else aa_seq (last ?rs))"
    using ok by (auto simp: log_ok_def)
  obtain k where k: "map seal_view ?rs = map seal_view (drop k h)" using ok by (auto simp: log_ok_def)
  have head: "read_head s = (if ?rs = [] then None else Some (last ?rs))"
    using sorted_rows(3) [OF ok'(2)] by (simp add: read_head_def)
  then have prev: "aa_prev_hmac row = (if ?rs = [] then None else Some (aa_chain_hmac (last ?rs)))" using f by simp
  have hist: "history_ok mac key (h @ [row])"
  proof -
    have "aa_prev_hmac row = None \<or> (0 < length h \<and> aa_prev_hmac row = Some (aa_chain_hmac (h ! (length h - 1))))"
    proof (cases "?rs = []")
      case False
      then have ne: "drop k h \<noteq> []" using k by auto
      have "seal_view (last ?rs) = seal_view (last (drop k h))"
        using k False ne by (metis last_map)
      moreover have "last (drop k h) = h ! (length h - 1)" "0 < length h"
        using ne by (auto simp: last_drop last_conv_nth)
      ultimately show ?thesis using prev False by (simp add: seal_view_def)
    qed (use prev in simp)
    then show ?thesis using ok'(1) f fresh now
      by (auto simp: history_ok_def nth_append less_Suc_eq audit_instants_ok_def)
  qed
  have view: "\<exists>k. map seal_view (al_rows s') = map seal_view (drop k (h @ [row]))"
  proof (cases "k \<le> length h")
    case True
    then show ?thesis using k f by (intro exI [of _ k]) simp
  next
    case False
    then show ?thesis using k f by (intro exI [of _ "length h"]) simp
  qed
  have tr: "truncation_anchors s' = truncation_anchors s" using f by (simp add: truncation_anchors_def)
  have "chain_holds mac key (truncation_anchors s) (?rs @ [row])"
    by (rule chain_holds_snoc [OF ok'(6)]) (use f prev in simp_all)
  moreover have "sorted_wrt (<) (map aa_seq (?rs @ [row]))" using ok'(2,4) f by (auto simp: sorted_wrt_append)
  moreover have "sorted (map aa_at (?rs @ [row]))" using ok'(5) clock f by (auto simp: sorted_append)
  moreover have "(if ?rs = [] then 0 else aa_seq (last ?rs)) \<le> aa_seq row"
  proof (cases "?rs = []")
    case False
    then have "aa_seq (last ?rs) < al_next_seq s" using ok'(4) last_in_set [OF False] by blast
    then show ?thesis using False f by simp
  qed (use ok'(3) f in simp)
  then have "\<forall>a \<in> set (al_anchors s). an_kind a = Anchor_HEAD \<longrightarrow> an_seq a \<le> aa_seq row"
    using ok'(7) by (meson order.trans)
  ultimately show ?thesis using hist view ok'(3,4) f tr by (auto simp: log_ok_def)
qed

lemma seal_view_at: "seal_view r = seal_view r' \<Longrightarrow> aa_at r = aa_at r' \<and> aa_expires_at r = aa_expires_at r'"
proof -
  assume "seal_view r = seal_view r'"
  then have "aa_at (covered r) = aa_at (covered r') \<and> aa_expires_at (covered r) = aa_expires_at (covered r')"
    by (simp add: seal_view_def)
  then show ?thesis by (simp add: covered_def)
qed

lemma log_ok_view:
  assumes ok: "log_ok mac key (s, h)" and v: "map seal_view rs = map seal_view (al_rows s)"
    and n: "map aa_seq rs = map aa_seq (al_rows s)"
  shows "log_ok mac key (s\<lparr>al_rows := rs\<rparr>, h)"
proof -
  have len: "length rs = length (al_rows s)" using v by (metis length_map)
  have at: "seal_view (rs ! i) = seal_view (al_rows s ! i)" "aa_seq (rs ! i) = aa_seq (al_rows s ! i)" if "i < length rs" for i
    using nth_map [OF that, of seal_view] nth_map [OF that, of aa_seq] v n nth_map [of i "al_rows s" seal_view]
      nth_map [of i "al_rows s" aa_seq] that len by simp_all
  have "map aa_at xs = map (\<lambda>v. aa_at (fst v)) (map seal_view xs)" for xs by (simp add: seal_view_def covered_def)
  then have "map aa_at rs = map aa_at (al_rows s)" using v by metis
  moreover have "chain_holds mac key (truncation_anchors s) rs \<longleftrightarrow> chain_holds mac key (truncation_anchors s) (al_rows s)"
    by (rule chain_holds_view [OF v n])
  moreover have "1 \<le> aa_seq r \<and> aa_seq r < al_next_seq s \<and> aa_expires_at r = aa_at r + days audit_retention_days"
    if "r \<in> set rs" for r
  proof -
    obtain i where i: "i < length rs" "r = rs ! i" using \<open>r \<in> set rs\<close> by (metis in_set_conv_nth)
    then have "al_rows s ! i \<in> set (al_rows s)" using len by simp
    then have "1 \<le> aa_seq (al_rows s ! i) \<and> aa_seq (al_rows s ! i) < al_next_seq s
        \<and> aa_expires_at (al_rows s ! i) = aa_at (al_rows s ! i) + days audit_retention_days"
      using ok unfolding log_ok_def prod.case by blast
    then show ?thesis using at [OF i(1)] seal_view_at [OF at(1) [OF i(1)]] i(2) by simp
  qed
  moreover have "(if rs = [] then 0 else aa_seq (last rs)) = (if al_rows s = [] then 0 else aa_seq (last (al_rows s)))"
    using n by (metis last_map list.map_disc_iff)
  ultimately show ?thesis using ok v n by (auto simp: log_ok_def truncation_anchors_def)
qed

lemma sorted_prefix:
  fixes f :: "'a \<Rightarrow> int"
  shows "sorted (map f rs) \<Longrightarrow> \<exists>n \<le> length rs. filter (\<lambda>r. f r \<le> t) rs = take n rs"
proof (induction rs)
  case (Cons r rs)
  show ?case
  proof (cases "f r \<le> t")
    case True
    from Cons obtain n where "n \<le> length rs" "filter (\<lambda>r. f r \<le> t) rs = take n rs" by auto
    then show ?thesis using True by (intro exI [of _ "Suc n"]) simp
  next
    case False
    then have "filter (\<lambda>r. f r \<le> t) rs = []" using Cons.prems by (fastforce simp: filter_empty_conv)
    then show ?thesis using False by (intro exI [of _ 0]) simp
  qed
qed simp

lemma log_ok_purge_reasons: "log_ok mac key (s, h) \<Longrightarrow> log_ok mac key (snd (purge_audit_reasons now limit s), h)"
  unfolding purge_audit_reasons_def Let_def snd_conv
  by (rule log_ok_view) (auto simp: sql_update_def seal_view_def covered_def)

lemma delete_expired_prefix:
  assumes ok: "log_ok mac key (s, h)"
  shows "\<exists>m \<le> length (al_rows s). delete_expired_rows now limit s = (m, s\<lparr>al_rows := drop m (al_rows s)\<rparr>)"
proof -
  let ?rs = "al_rows s"
  have s: "sorted_wrt (<) (map aa_seq ?rs)" and t: "sorted (map aa_at ?rs)"
    and e: "\<forall>r \<in> set ?rs. aa_expires_at r = aa_at r + days audit_retention_days"
    using ok by (auto simp: log_ok_def)
  obtain n where n: "n \<le> length ?rs" "filter (\<lambda>r. aa_at r \<le> now - days audit_retention_days) ?rs = take n ?rs"
    using sorted_prefix [OF t] by blast
  have "filter (audit_rows_due now) ?rs = filter (\<lambda>r. aa_at r \<le> now - days audit_retention_days) ?rs"
    by (rule filter_cong) (use e in \<open>auto simp: audit_rows_due_def\<close>)
  then have f: "filter (audit_rows_due now) ?rs = take n ?rs" using n(2) by simp
  have "sorted_wrt (<) (map aa_seq (take n ?rs))" using s by (simp add: take_map [symmetric] sorted_wrt_take)
  then have "limit_asc aa_seq limit (take n ?rs) = take (min limit n) ?rs"
    using sorted_rows(1) [of "take n ?rs"] by (simp add: limit_asc_def)
  then have due: "limit_asc aa_seq limit (filter (audit_rows_due now) ?rs) = take (min limit n) ?rs" using f by simp
  let ?m = "min limit n"
  have d: "distinct (map aa_seq ?rs)" by (rule sorted_rows(2) [OF s])
  have "filter (\<lambda>r. aa_seq r \<notin> set (map aa_seq (take ?m ?rs))) (take ?m ?rs @ drop ?m ?rs) = drop ?m ?rs"
  proof -
    have "set (map aa_seq (take ?m ?rs)) \<inter> set (map aa_seq (drop ?m ?rs)) = {}"
      using d by (metis append_take_drop_id distinct_append map_append)
    then have "aa_seq r \<notin> set (map aa_seq (take ?m ?rs))" if "r \<in> set (drop ?m ?rs)" for r using that by auto
    then show ?thesis by (auto simp: filter_empty_conv filter_id_conv simp del: append_take_drop_id)
  qed
  then have "delete_expired_rows now limit s = (?m, s\<lparr>al_rows := drop ?m ?rs\<rparr>)"
    using n(1) by (simp add: delete_expired_rows_def due Let_def)
  then show ?thesis using n(1) by (intro exI [of _ ?m]) simp
qed

lemma log_ok_drop:
  assumes ok: "log_ok mac key (s, h)" and rows: "al_rows s' = drop m (al_rows s)" "al_next_seq s' = al_next_seq s"
    and tr: "set (truncation_anchors s) \<subseteq> set (truncation_anchors s')"
    and heads: "\<forall>a \<in> set (al_anchors s'). an_kind a \<noteq> Anchor_HEAD"
    and excused: "m = 0 \<or> al_rows s' = [] \<or> is_gap_excused (hd (al_rows s')) (truncation_anchors s')"
  shows "log_ok mac key (s', h)"
proof -
  have c: "chain_holds mac key (truncation_anchors s') (al_rows s)"
    using ok chain_holds_more [OF _ tr] by (auto simp: log_ok_def)
  have "chain_holds mac key (truncation_anchors s') (al_rows s')"
  proof (cases "m = 0 \<or> al_rows s' = []")
    case True
    then show ?thesis using c rows(1) by (auto simp: chain_holds_def)
  next
    case False
    then show ?thesis using chain_holds_drop [OF c, of m] excused unfolding rows(1) by blast
  qed
  moreover obtain k where "map seal_view (al_rows s) = map seal_view (drop k h)" using ok by (auto simp: log_ok_def)
  then have "map seal_view (al_rows s') = map seal_view (drop (m + k) h)"
    unfolding rows(1) by (metis drop_drop drop_map)
  moreover have "sorted_wrt (<) (map aa_seq (al_rows s'))" "sorted (map aa_at (al_rows s'))"
    using ok by (auto simp: log_ok_def rows(1) drop_map [symmetric] sorted_wrt_drop)
  moreover have "\<forall>r \<in> set (al_rows s'). 1 \<le> aa_seq r \<and> aa_seq r < al_next_seq s'
      \<and> aa_expires_at r = aa_at r + days audit_retention_days"
    using ok unfolding log_ok_def prod.case rows by (blast dest: in_set_dropD)
  ultimately show ?thesis using ok heads rows(2) by (auto simp: log_ok_def)
qed

lemma log_ok_head_anchor:
  assumes ok: "log_ok mac key (s, h)"
  shows "log_ok mac key (write_head_anchor now s, h)"
proof (cases "al_rows s = []")
  case True
  then show ?thesis using ok by (simp add: write_head_anchor_def read_head_def first_desc_def)
next
  case False
  have "sorted_wrt (<) (map aa_seq (al_rows s))" using ok by (simp add: log_ok_def)
  from sorted_rows(3) [OF this False] have head: "read_head s = Some (last (al_rows s))" by (simp add: read_head_def)
  then show ?thesis using ok False
    by (auto simp: log_ok_def write_head_anchor_def write_anchor_def truncation_anchors_def)
qed

lemma log_ok_sweep:
  assumes ok: "log_ok mac key (s, h)" and sw: "audit_sweep now limit s = (reasons, deleted, s')"
  shows "log_ok mac key (s', h)"
proof -
  let ?s1 = "snd (purge_audit_reasons now limit s)" and ?keep = "filter (\<lambda>a. an_kind a \<noteq> Anchor_HEAD)"
  have ok1: "log_ok mac key (?s1, h)" by (rule log_ok_purge_reasons [OF ok])
  let ?s2 = "snd (purge_audit_log now limit ?s1)"
  have s': "s' = write_head_anchor now (?s2\<lparr>al_anchors := ?keep (al_anchors ?s2)\<rparr>)"
    using sw by (simp add: audit_sweep_def pin_audit_head_def split: prod.splits)
  obtain m where m: "m \<le> length (al_rows ?s1)"
      "delete_expired_rows now limit ?s1 = (m, ?s1\<lparr>al_rows := drop m (al_rows ?s1)\<rparr>)"
    using delete_expired_prefix [OF ok1] by blast
  let ?rest = "drop m (al_rows ?s1)"
  have sorted: "sort_key aa_seq ?rest = ?rest"
    using ok1 by (intro sorted_rows(1)) (simp add: log_ok_def drop_map [symmetric] sorted_wrt_drop)
  have first: "first_row (?s1\<lparr>al_rows := ?rest\<rparr>) = (case ?rest of [] \<Rightarrow> None | r # _ \<Rightarrow> Some r)"
    using sorted by (simp add: first_row_def)
  have s2: "?s2 = (if m = 0 \<or> ?rest = [] then ?s1\<lparr>al_rows := ?rest\<rparr>
      else write_anchor Anchor_TRUNCATION (aa_seq (hd ?rest)) (aa_chain_hmac (hd ?rest)) now
        (Some (aa_seq (hd ?rest))) (Some (int m)) (?s1\<lparr>al_rows := ?rest\<rparr>))"
    unfolding purge_audit_log_def m(2) prod.case write_truncation_anchor_def first
    by (cases ?rest) (auto simp: first)
  have "log_ok mac key (?s2\<lparr>al_anchors := ?keep (al_anchors ?s2)\<rparr>, h)"
  proof (rule log_ok_drop [OF ok1, where m = m])
    show "al_rows (?s2\<lparr>al_anchors := ?keep (al_anchors ?s2)\<rparr>) = ?rest"
      "al_next_seq (?s2\<lparr>al_anchors := ?keep (al_anchors ?s2)\<rparr>) = al_next_seq ?s1"
      by (simp_all add: s2 write_anchor_def)
    show "set (truncation_anchors ?s1) \<subseteq> set (truncation_anchors (?s2\<lparr>al_anchors := ?keep (al_anchors ?s2)\<rparr>))"
      by (auto simp: s2 write_anchor_def truncation_anchors_def)
    show "m = 0 \<or> al_rows (?s2\<lparr>al_anchors := ?keep (al_anchors ?s2)\<rparr>) = []
      \<or> is_gap_excused (hd (al_rows (?s2\<lparr>al_anchors := ?keep (al_anchors ?s2)\<rparr>)))
          (truncation_anchors (?s2\<lparr>al_anchors := ?keep (al_anchors ?s2)\<rparr>))"
      by (auto simp: s2 write_anchor_def truncation_anchors_def is_gap_excused_def)
  qed simp
  then show ?thesis unfolding s' by (rule log_ok_head_anchor)
qed

lemma audit_step_ok: "audit_step un is_ip mac key x y \<Longrightarrow> log_ok mac key x \<Longrightarrow> log_ok mac key y"
proof (induction rule: audit_step.induct)
  case (entry admins e fresh now s row s' h)
  show ?case by (rule log_ok_append [OF entry(6,1-5)])
next
  case (lost s h)
  then have "\<forall>r \<in> set (al_rows s). 1 \<le> aa_seq r \<and> aa_seq r < al_next_seq s + 1
      \<and> aa_expires_at r = aa_at r + days audit_retention_days"
    unfolding log_ok_def prod.case by (blast intro: zless_add1_eq [THEN iffD2])
  with lost show ?case by (cases "al_rows s = []") (simp_all add: log_ok_def truncation_anchors_def)
next
  case (sweep now limit s reasons deleted s' h)
  show ?case by (rule log_ok_sweep [OF sweep(2,1)])
qed

lemma audit_reachable_ok: "audit_reachable un is_ip mac key x \<Longrightarrow> log_ok mac key x"
proof (induction rule: audit_reachable.induct)
  case start
  show ?case by (simp add: log_ok_def history_ok_def empty_log_def chain_holds_def) (rule exI [of _ 0], simp)
qed (rule audit_step_ok)

lemma honest_run:
  assumes "audit_reachable un is_ip mac key (s, h)" "key \<noteq> []" "length (al_rows s) < max_rows"
  shows "(\<exists>v. verify_chain mac s key protection max_rows = Inr v \<and> cv_is_ok v \<and> cv_is_complete v)
    \<and> (\<exists>k. map seal_view (al_rows s) = map seal_view (drop k h))"
proof -
  note ok = audit_reachable_ok [OF assms(1)]
  then have s: "sorted_wrt (<) (map aa_seq (al_rows s))" "\<forall>r \<in> set (al_rows s). 1 \<le> aa_seq r"
      "chain_holds mac key (truncation_anchors s) (al_rows s)"
      "\<forall>a \<in> set (al_anchors s). an_kind a = Anchor_HEAD \<longrightarrow> an_seq a \<le> (if al_rows s = [] then 0 else aa_seq (last (al_rows s)))"
      "\<exists>k. map seal_view (al_rows s) = map seal_view (drop k h)"
    by (simp_all add: log_ok_def)
  note f = from_seq_all [OF s(1,2)]
  have l: "length (from_seq s 0) < max_rows" unfolding f by (rule assms(3))
  from verify_chain_decides [OF assms(2) sorted_rows(2) [OF s(1)] l, of mac protection, unfolded f] s(3-5) show ?thesis by blast
qed

section \<open>Properties\<close>

text \<open>C37. The verification decides the abstract chain: however the rows fall into batches, for a ceiling above their
  number it is complete, and it is clean exactly when every numbered row carries the keyed digest of its predecessor's
  and of its own text, the first one starts the chain or is the survivor a truncation anchor names, and the log reaches
  every head anchor.\<close>

theorem verification_is_exact:
  assumes "key \<noteq> []" "distinct (map aa_seq (al_rows s))" "length (from_seq s 0) < max_rows"
  shows "\<exists>v. verify_chain mac s key protection max_rows = Inr v \<and> cv_is_complete v
    \<and> (cv_is_ok v \<longleftrightarrow> chain_holds mac key (truncation_anchors s) (from_seq s 0)
         \<and> (\<forall>h \<in> set (al_anchors s). an_kind h = Anchor_HEAD \<longrightarrow>
              an_seq h \<le> (if from_seq s 0 = [] then 0 else aa_seq (last (from_seq s 0)))))"
  by (rule verify_chain_decides [OF assms])


definition shown :: "admin_audit_row \<Rightarrow> admin_audit_row \<times> pystr" where
  "shown r = (covered r, aa_chain_hmac r)"

lemma written_row:
  assumes h: "history_ok mac key h" and r: "sealed mac key r" "audit_instants_ok r" "row_message r \<in> row_message ` set h"
  shows "\<exists>i < length h. shown r = shown (h ! i) \<and> link_text (aa_prev_hmac r) = link_text (aa_prev_hmac (h ! i))"
proof -
  obtain i where i: "i < length h" "row_message r = row_message (h ! i)"
    using r(3) by (metis imageE in_set_conv_nth)
  have hi: "sealed mac key (h ! i)" "audit_instants_ok (h ! i)" using h i(1) unfolding history_ok_def by blast+
  have c: "link_text (aa_prev_hmac r) = link_text (aa_prev_hmac (h ! i))" "canonical_content r = canonical_content (h ! i)"
    using i(2) unfolding row_message_def chain_message_eq_iff by blast+
  then have "covered r = covered (h ! i)" using canonical_content_eq_iff [OF r(2) hi(2)] by blast
  moreover have "aa_chain_hmac r = aa_chain_hmac (h ! i)" using r(1) hi(1) i(2) by (simp add: sealed_def)
  ultimately show ?thesis using i(1) c(1) by (auto simp: shown_def)
qed

lemma same_digest_same_row:
  assumes h: "history_ok mac key h" and inj: "inj_on (mac key) (row_message ` set h)"
    and ij: "i < length h" "j < length h" "aa_chain_hmac (h ! i) = aa_chain_hmac (h ! j)"
  shows "i = j"
proof -
  have s: "sealed mac key (h ! k)" "audit_instants_ok (h ! k)" if "k < length h" for k
    using h that unfolding history_ok_def by blast+
  have "mac key (row_message (h ! i)) = mac key (row_message (h ! j))"
    using s [OF ij(1)] s [OF ij(2)] ij(3) by (simp add: sealed_def)
  then have "row_message (h ! i) = row_message (h ! j)"
    by (rule inj_onD [OF inj _ imageI [OF nth_mem [OF ij(1)]] imageI [OF nth_mem [OF ij(2)]]])
  then have "canonical_content (h ! i) = canonical_content (h ! j)" unfolding row_message_def chain_message_eq_iff by blast
  then have "covered (h ! i) = covered (h ! j)" 
    using canonical_content_eq_iff [OF s(2) [OF ij(1)] s(2) [OF ij(2)]] by blast
  then have "aa_id (covered (h ! i)) = aa_id (covered (h ! j))" by simp
  then have "aa_id (h ! i) = aa_id (h ! j)" by (simp add: covered_def)
  then have "map aa_id h ! i = map aa_id h ! j" using ij(1,2) by simp
  moreover have "distinct (map aa_id h)" using h by (simp add: history_ok_def)
  ultimately show ?thesis using nth_eq_iff_index_eq [of "map aa_id h" i j] ij(1,2) by simp
qed

lemma linked_segment:
  assumes h: "history_ok mac key h" and inj: "inj_on (mac key) (row_message ` set h)" and digest: "\<And>m. mac key m \<noteq> []"
  shows "linked mac key (aa_chain_hmac (h ! i)) rs \<Longrightarrow> i < length h \<Longrightarrow>
    (\<forall>r \<in> set rs. audit_instants_ok r \<and> row_message r \<in> row_message ` set h) \<Longrightarrow>
    map shown rs = map shown (take (length rs) (drop (Suc i) h))"
proof (induction rs arbitrary: i)
  case (Cons r rs)
  have r: "sealed mac key r" "aa_prev_hmac r = Some (aa_chain_hmac (h ! i))" "linked mac key (aa_chain_hmac r) rs"
    using Cons.prems(1) by simp_all
  obtain k where k: "k < length h" "shown r = shown (h ! k)" "link_text (aa_prev_hmac r) = link_text (aa_prev_hmac (h ! k))"
    using written_row [OF h r(1)] Cons.prems(3) by auto
  have "aa_chain_hmac (h ! i) \<noteq> []" using h Cons.prems(2) digest unfolding history_ok_def sealed_def by metis
  then have "link_text (aa_prev_hmac (h ! k)) = aa_chain_hmac (h ! i)" "aa_prev_hmac (h ! k) \<noteq> None"
    using k(3) r(2) by (auto simp: link_text_def split: option.splits)
  moreover have "aa_prev_hmac (h ! k) = None \<or> (0 < k \<and> aa_prev_hmac (h ! k) = Some (aa_chain_hmac (h ! (k - 1))))"
    using h k(1) unfolding history_ok_def by blast
  ultimately have "0 < k" "aa_chain_hmac (h ! (k - 1)) = aa_chain_hmac (h ! i)" by (auto simp: link_text_def)
  moreover from this have "k - 1 = i" using same_digest_same_row [OF h inj, of "k - 1" i] k(1) Cons.prems(2) by simp
  ultimately have ki: "k = Suc i" by simp
  have "aa_chain_hmac r = aa_chain_hmac (h ! Suc i)" using k(2) ki by (simp add: shown_def)
  then have "map shown rs = map shown (take (length rs) (drop (Suc (Suc i)) h))"
    using Cons.IH [of "Suc i"] r(3) k(1) ki Cons.prems(3) by simp
  moreover have "drop (Suc i) h = h ! Suc i # drop (Suc (Suc i)) h" using k(1) ki by (simp add: Cons_nth_drop_Suc)
  ultimately show ?case using k(2) ki by simp
qed simp

lemma chain_segment:
  assumes h: "history_ok mac key h" and inj: "inj_on (mac key) (row_message ` set h)" and digest: "\<And>m. mac key m \<noteq> []"
    and c: "chain_holds mac key tr rs"
    and w: "\<forall>r \<in> set rs. audit_instants_ok r \<and> (sealed mac key r \<longrightarrow> row_message r \<in> row_message ` set h)"
  shows "\<exists>i j. map shown rs = map shown (take j (drop i h))"
proof (cases rs)
  case (Cons r qs)
  have r: "sealed mac key r" "linked mac key (aa_chain_hmac r) qs" using c by (auto simp: Cons chain_holds_def)
  have seal: "linked mac key p xs \<Longrightarrow> x \<in> set xs \<Longrightarrow> sealed mac key x" for p xs x by (induction xs arbitrary: p) auto
  have qs: "\<forall>x \<in> set qs. audit_instants_ok x \<and> row_message x \<in> row_message ` set h"
    using w seal [OF r(2)] Cons by auto
  obtain i where i: "i < length h" "shown r = shown (h ! i)" using written_row [OF h r(1)] w r(1) Cons by auto
  then have "linked mac key (aa_chain_hmac (h ! i)) qs" using r(2) by (simp add: shown_def)
  from linked_segment [OF h inj digest this i(1) qs]
  have "map shown rs = map shown (take (Suc (length qs)) (drop i h))"
    using i Cons by (simp add: Cons_nth_drop_Suc [symmetric])
  then show ?thesis by blast
qed (auto intro: exI [of _ 0])


text \<open>C40. What the verification does not see: a row numbered zero or below is never read, and because a number is not part of
  a row's text, the last row can be cut off a clean log when the one before it takes over its number: the table still
  verifies, although a head anchor names the digest of the row that is gone.\<close>

theorem unseen_by_the_verification:
  assumes "key \<noteq> []" "distinct (map aa_seq (al_rows s))" "al_rows s = xs @ [a, b]" "xs \<noteq> []"
    and "sorted_wrt (<) (map aa_seq (al_rows s))" "\<forall>r \<in> set (al_rows s). 1 \<le> aa_seq r" "length (al_rows s) < max_rows"
    and "verify_chain mac s key protection max_rows = Inr v" "cv_is_ok v"
  shows "(\<exists>w. verify_chain mac (s\<lparr>al_rows := xs @ [a\<lparr>aa_seq := aa_seq b\<rparr>]\<rparr>) key protection max_rows = Inr w \<and> cv_is_ok w)
    \<and> (aa_seq r \<le> 0 \<longrightarrow>
        (\<exists>w. verify_chain mac (s\<lparr>al_rows := al_rows s @ [r]\<rparr>) key protection max_rows = Inr w \<and> cv_is_ok w))"
proof -
  note f = from_seq_all [OF assms(5,6)]
  have l: "length (from_seq s 0) < max_rows" unfolding f by (rule assms(7))
  have c: "chain_holds mac key (truncation_anchors s) (al_rows s)"
    and hd: "\<forall>h \<in> set (al_anchors s). an_kind h = Anchor_HEAD \<longrightarrow> an_seq h \<le> aa_seq b"
    using verify_chain_decides [OF assms(1,2) l, of mac protection] assms(3,8,9) unfolding f by auto
  let ?a = "a\<lparr>aa_seq := aa_seq b\<rparr>" and ?t = "s\<lparr>al_rows := xs @ [a\<lparr>aa_seq := aa_seq b\<rparr>]\<rparr>"
  have st: "sorted_wrt (<) (map aa_seq (al_rows ?t))" using assms(3,5) by (auto simp: sorted_wrt_append)
  have pt: "\<forall>r \<in> set (al_rows ?t). 1 \<le> aa_seq r" using assms(3,6) by auto
  note ft = from_seq_all [OF st pt]
  have tr: "truncation_anchors ?t = truncation_anchors s" by (simp add: truncation_anchors_def)
  have ca: "sealed mac key ?a \<longleftrightarrow> sealed mac key a"
    unfolding sealed_def row_message_def canonical_members by (simp add: audit_members_def del: ustr_Cons)
  have "chain_holds mac key (truncation_anchors ?t) (al_rows ?t)"
    using c ca assms(4) unfolding tr assms(3) by (cases xs) (auto simp: chain_holds_def linked_append)
  moreover have "length (from_seq ?t 0) < max_rows" unfolding ft using assms(3,7) by simp
  ultimately have 1: "\<exists>w. verify_chain mac ?t key protection max_rows = Inr w \<and> cv_is_ok w"
    using verify_chain_decides [OF assms(1) sorted_rows(2) [OF st], of max_rows mac protection] hd unfolding ft by auto
  have "\<exists>w. verify_chain mac (s\<lparr>al_rows := al_rows s @ [r]\<rparr>) key protection max_rows = Inr w \<and> cv_is_ok w"
    if r: "aa_seq r \<le> 0"
  proof -
    let ?u = "s\<lparr>al_rows := al_rows s @ [r]\<rparr>"
    have fu: "from_seq ?u 0 = al_rows s" using f r by (simp add: from_seq_def)
    have du: "distinct (map aa_seq (al_rows ?u))" using assms(2,6) r by fastforce
    have tu: "truncation_anchors ?u = truncation_anchors s" by (simp add: truncation_anchors_def)
    have lu: "length (from_seq ?u 0) < max_rows" unfolding fu by (rule assms(7))
    from verify_chain_decides [OF assms(1) du lu, of mac protection] c hd assms(3) show ?thesis unfolding fu tu by auto
  qed
  with 1 show ?thesis by blast
qed

section \<open>A sample log\<close>

definition s_unicode :: unicode where
  "s_unicode = \<lparr>un_word = (\<lambda>c. is_alnum c \<or> c = 95), un_decimal = is_digit, un_space = (\<lambda>c. c = 32)\<rparr>"

definition s_mac :: "pystr \<Rightarrow> pystr \<Rightarrow> pystr" where "s_mac key m = key @ m"
definition s_key :: pystr where "s_key = [107]"

definition s_entry :: audit_entry where
  "s_entry = \<lparr>ae_action = Act_LOGIN_SUCCESS, ae_actor_username = [97], ae_actor_role = Role_OWNER,
     ae_subject_type = ustr ''session'', ae_reason_code = ROUTINE_OPS, ae_outcome = Outcome_OK, ae_actor_id = None,
     ae_subject_id = None, ae_field_names = None, ae_record_count = None, ae_reason_ref = None,
     ae_reason_text = Some [32, 98], ae_error_code = None, ae_correlation_id = None, ae_ip = None,
     ae_user_agent_hash = None, ae_config_version = None\<rparr>"

definition s_built :: "uuid \<Rightarrow> instant \<Rightarrow> admin_audit_row" where
  "s_built fresh now = \<lparr>aa_seq = 0, aa_id = fresh, aa_at = now, aa_actor_id = None, aa_actor_username = [97],
     aa_actor_role = Role_OWNER, aa_action = Act_LOGIN_SUCCESS, aa_subject_type = ustr ''session'', aa_subject_id = None,
     aa_field_names = None, aa_record_count = None, aa_reason_code = ROUTINE_OPS, aa_reason_ref = None,
     aa_reason_text = Some [98], aa_reason_expires_at = Some (now + days 90), aa_reason_purged_at = None,
     aa_outcome = Outcome_OK, aa_error_code = None, aa_correlation_id = None, aa_ip = None, aa_user_agent_hash = None,
     aa_config_version = None, aa_expires_at = now + days 730, aa_prev_hmac = None, aa_chain_hmac = []\<rparr>"

lemma s_letter: "reject_secrets s_unicode name (Some [97]) = Inr ()" "reject_secrets s_unicode name (Some [98]) = Inr ()"
  "redact_text s_unicode [98] = [98]"
  by (simp_all add: reject_secrets_def redact_text_def secret_value_patterns_def credential_shapes_def literal_def
      either_case_def s_unicode_def at_boundary_def is_token_def is_alnum_def is_lower_def is_upper_def is_digit_def
      is_one_of_def is_alnum_folded_def max_logged_value_chars_def Let_def)

lemma s_build: "build_row s_unicode (\<lambda>_. True) s_entry fresh now = Inr (s_built fresh now)"
proof -
  have "py_strip s_unicode [32, 98] = [98]" by (simp add: py_strip_def s_unicode_def)
  moreover have "ustr ''session'' \<in> set subject_types" by (simp add: subject_types_def)
  ultimately show ?thesis
    by (simp add: build_row_def s_entry_def s_built_def clean_text_def checked_def checked_field_names_def checked_ip_def
        checked_digest_def checked_subject_type_def and_then_def s_letter reason_text_length_def
        audit_reason_retention_days_def audit_retention_days_def)
qed

definition s_row :: "uuid \<Rightarrow> instant \<Rightarrow> pystr option \<Rightarrow> int \<Rightarrow> admin_audit_row" where
  "s_row fresh now prev seq = (s_built fresh now)\<lparr>aa_prev_hmac := prev,
     aa_chain_hmac := s_mac s_key (chain_message prev (canonical_content (s_built fresh now))), aa_seq := seq\<rparr>"

lemma s_append:
  assumes "\<not> list_ex (\<lambda>r. aa_id r = fresh \<or> aa_seq r = al_next_seq s) (al_rows s)"
    and "row = s_row fresh now (map_option aa_chain_hmac (read_head s)) (al_next_seq s)"
  shows "audit_append s_unicode (\<lambda>_. True) s_mac [] s_entry s_key fresh now s
    = Inr (row, s\<lparr>al_rows := al_rows s @ [row], al_next_seq := al_next_seq s + 1\<rparr>)"
proof -
  have "aa_actor_id (s_built fresh now) = None" by (simp add: s_built_def)
  then show ?thesis using assms
    by (simp add: audit_append_def s_build and_then_def compute_chain_hmac_def s_key_def s_row_def Let_def
        canonical_unlinked)
qed

definition s_row1 :: admin_audit_row where "s_row1 = s_row [1] 5 None 1"
definition s_row2 :: admin_audit_row where "s_row2 = s_row [2] 7 (Some (aa_chain_hmac s_row1)) 2"
definition s_row3 :: admin_audit_row where "s_row3 = s_row [3] 8 (Some (aa_chain_hmac s_row2)) 3"
definition s_log1 :: audit_log where "s_log1 = \<lparr>al_rows = [s_row1], al_anchors = [], al_next_seq = 2\<rparr>"
definition s_log2 :: audit_log where "s_log2 = \<lparr>al_rows = [s_row1, s_row2], al_anchors = [], al_next_seq = 3\<rparr>"
definition s_log3 :: audit_log where "s_log3 = \<lparr>al_rows = [s_row1, s_row2, s_row3], al_anchors = [], al_next_seq = 4\<rparr>"
definition s_swept :: audit_log where "s_swept = snd (snd (audit_sweep (days 730 + 6) 10 s_log3))"

lemma s_row_fields [simp]:
  "aa_seq (s_row fresh now prev n) = n" "aa_id (s_row fresh now prev n) = fresh" "aa_at (s_row fresh now prev n) = now"
  "aa_expires_at (s_row fresh now prev n) = now + days 730"
  by (simp_all add: s_row_def s_built_def)

lemma s_fields [simp]:
  "aa_seq s_row1 = 1" "aa_seq s_row2 = 2" "aa_seq s_row3 = 3" "aa_id s_row1 = [1]" "aa_id s_row2 = [2]" "aa_id s_row3 = [3]"
  "aa_at s_row1 = 5" "aa_at s_row2 = 7" "aa_at s_row3 = 8" "aa_expires_at s_row1 = 5 + days 730"
  "aa_expires_at s_row2 = 7 + days 730" "aa_expires_at s_row3 = 8 + days 730"
  by (simp_all add: s_row1_def s_row2_def s_row3_def)

abbreviation s_reachable :: "audit_log \<times> admin_audit_row list \<Rightarrow> bool" where
  "s_reachable \<equiv> audit_reachable s_unicode (\<lambda>_. True) s_mac s_key"

lemma s_runs: "s_reachable (s_log1, [s_row1])" "s_reachable (s_log2, [s_row1, s_row2])"
  "s_reachable (s_log3, [s_row1, s_row2, s_row3])" "s_reachable (s_swept, [s_row1, s_row2, s_row3])"
proof -
  have r: "representable n" "representable (n + days audit_retention_days)" if "0 \<le> n" "n < 10" for n
    using that by (simp_all add: representable_def days_def audit_retention_days_def)
  have "audit_append s_unicode (\<lambda>_. True) s_mac [] s_entry s_key [1] 5 empty_log = Inr (s_row1, s_log1)"
    by (subst s_append [OF _ refl]) (simp_all add: empty_log_def s_row1_def s_log1_def read_head_def first_desc_def)
  from audit_reachable.step [OF audit_reachable.start audit_step.entry [OF this]]
  show 1: "s_reachable (s_log1, [s_row1])" using r [of 5] by (simp add: empty_log_def)
  have "audit_append s_unicode (\<lambda>_. True) s_mac [] s_entry s_key [2] 7 s_log1 = Inr (s_row2, s_log2)"
    by (subst s_append [OF _ refl]) (simp_all add: s_log1_def s_row2_def s_log2_def read_head_def first_desc_def)
  from audit_reachable.step [OF 1 audit_step.entry [OF this]]
  show 2: "s_reachable (s_log2, [s_row1, s_row2])" using r [of 7] by (simp add: s_log1_def)
  have "audit_append s_unicode (\<lambda>_. True) s_mac [] s_entry s_key [3] 8 s_log2 = Inr (s_row3, s_log3)"
    by (subst s_append [OF _ refl]) (simp_all add: s_log2_def s_row3_def s_log3_def read_head_def first_desc_def)
  from audit_reachable.step [OF 2 audit_step.entry [OF this]]
  show 3: "s_reachable (s_log3, [s_row1, s_row2, s_row3])" using r [of 8] by (simp add: s_log2_def)
  obtain x y where "audit_sweep (days 730 + 6) 10 s_log3 = (x, y, s_swept)" by (metis prod.collapse s_swept_def)
  from audit_reachable.step [OF 3 audit_step.sweep [OF this]]
  show "s_reachable (s_swept, [s_row1, s_row2, s_row3])" .
qed

lemma s_key_ne: "s_key \<noteq> []" "s_mac s_key m \<noteq> []" "inj_on (s_mac s_key) M"
  by (auto simp: s_key_def s_mac_def inj_on_def)

lemma s_log_facts: "distinct (map aa_seq (al_rows s_log3))" "sorted_wrt (<) (map aa_seq (al_rows s_log3))"
  "\<forall>r \<in> set (al_rows s_log3). 1 \<le> aa_seq r" "length (from_seq s_log3 0) < 10" "length (al_rows s_log3) < 10"
  "distinct (map aa_seq (al_rows s_log2))" "length (from_seq s_log2 0) < 10" "length (al_rows s_log2) < 10"
  by (simp_all add: s_log3_def s_log2_def from_seq_def)

lemma verification_witness: "\<exists>v. verify_chain s_mac s_log3 s_key HMAC_ONLY 10 = Inr v \<and> cv_is_complete v"
  using verification_is_exact [OF s_key_ne(1) s_log_facts(1,4), of s_mac HMAC_ONLY] by blast



lemma unseen_witness:
  "\<exists>w. verify_chain s_mac (s_log3\<lparr>al_rows := [s_row1, s_row2\<lparr>aa_seq := 3\<rparr>]\<rparr>) s_key HMAC_ONLY 10 = Inr w \<and> cv_is_ok w"
proof -
  obtain v where v: "verify_chain s_mac s_log3 s_key HMAC_ONLY 10 = Inr v" "cv_is_ok v"
    using honest_run [OF s_runs(3) s_key_ne(1) s_log_facts(5)] by blast
  have r: "al_rows s_log3 = [s_row1] @ [s_row2, s_row3]" by (simp add: s_log3_def)
  from unseen_by_the_verification [OF s_key_ne(1) s_log_facts(1) r _ s_log_facts(2,3,5) v] show ?thesis by simp
qed

end
