(* ===== verification/Spec2Isabelle.thy ===== *)
theory Spec2Isabelle
  imports Payme_Claims Wire_Claims Create_Claims Operator_Claims Credit_Claims Dispatch_Claims Membership Support_Claims Broadcast_Claims Expand_Claims Audit_Claims
begin

text \<open>Header.\<close>

end
